theory Spec2Isabelle
  imports Main "HOL-Library.Word"
begin

unbundle bit_operations_syntax

section \<open>Machine types\<close>

text \<open>
  \<open>unsigned char\<close>, \<open>unsigned short\<close> and \<open>unsigned int\<close> of the source are words of
  8, 16 and 32 bits. A C array or a pointer into a buffer is the function from the index
  to the byte stored there: \<open>Buffer i\<close> is \<open>Buffer[i]\<close>. Indices and byte counters that
  the code keeps far below \<open>2 ^ 31\<close> are natural numbers; where the code relies on the
  wrap-around of an unsigned subtraction it is written out.
\<close>

type_synonym u8 = "8 word"
type_synonym u16 = "16 word"
type_synonym u32 = "32 word"
type_synonym bytes = "nat \<Rightarrow> u8"

text \<open>The bytes of a list laid out in memory from index 0, zero after its end.\<close>

definition bytes_of :: "u8 list \<Rightarrow> bytes" where
  "bytes_of xs = (\<lambda>i. if i < length xs then xs ! i else 0)"

text \<open>
  \<open>htons\<close> applied to an \<open>unsigned short\<close> read from a received buffer: the 16-bit value
  whose high byte is the first byte on the wire.
\<close>

definition htons_at :: "bytes \<Rightarrow> nat \<Rightarrow> u16" where
  "htons_at Buffer i = push_bit 8 (ucast (Buffer i)) OR ucast (Buffer (i + 1))"

definition htonl_at :: "bytes \<Rightarrow> nat \<Rightarrow> u32" where
  "htonl_at Buffer i =
     push_bit 24 (ucast (Buffer i)) OR push_bit 16 (ucast (Buffer (i + 1)))
       OR push_bit 8 (ucast (Buffer (i + 2))) OR ucast (Buffer (i + 3))"

section \<open>Delta times (RTP\_MIDI\_Input.cpp, GetDeltaTime)\<close>

text \<open>
  The local \<open>Data\<close> of \<open>GetDeltaTime\<close> is a plain \<open>char\<close>, whose signedness the
  compiler chooses. \<open>char_to_uint sg\<close> is the conversion \<open>(unsigned int)Data\<close>:
  sign extension when \<open>char\<close> is signed (\<open>sg\<close>), zero extension otherwise.
\<close>

definition char_to_uint :: "bool \<Rightarrow> u8 \<Rightarrow> u32" where
  "char_to_uint sg Data = (if sg then scast Data else ucast Data)"

text \<open>
  The \<open>do \<dots> while\<close> loop of \<open>GetDeltaTime\<close>; its body runs before the test.
  The result is the value and the updated \<open>*ByteCtr\<close>.
\<close>

function GetDeltaTime_loop :: "bool \<Rightarrow> bytes \<Rightarrow> nat \<Rightarrow> nat \<Rightarrow> u32 \<Rightarrow> u32 \<times> nat" where
  "GetDeltaTime_loop sg BufPtr ByteCtr ByteCount v =
     (let Data = BufPtr ByteCtr;
          ByteCtr' = ByteCtr + 1;
          ByteCount' = ByteCount + 1;
          v' = push_bit 7 v + char_to_uint sg Data
      in if Data AND 0x80 \<noteq> 0 \<and> ByteCount' \<le> 4
         then GetDeltaTime_loop sg BufPtr ByteCtr' ByteCount' v'
         else (v', ByteCtr'))"
  by pat_completeness auto
termination
  by (relation "measure (\<lambda>(sg, BufPtr, ByteCtr, ByteCount, v). 4 - ByteCount)") auto

declare GetDeltaTime_loop.simps [simp del]

definition GetDeltaTime :: "bool \<Rightarrow> bytes \<Rightarrow> nat \<Rightarrow> u32 \<times> nat" where
  "GetDeltaTime sg BufPtr ByteCtr =
     (let v = (ucast (BufPtr ByteCtr) :: u32);
          ByteCtr' = ByteCtr + 1
      in if v AND 0x80 \<noteq> 0
         then GetDeltaTime_loop sg BufPtr ByteCtr' 1 (v AND 0x7F)
         else (v, ByteCtr'))"

text \<open>
  The variable-length quantity of the specification, written from its words: at most four
  bytes, most significant group first, each byte carrying seven bits of the value in its
  low bits, the high bit set on every byte but the last. \<open>vlq_groups n v\<close> is the bytes
  (at most \<open>n\<close>) that come before the last one, for the value \<open>v\<close> left above the
  last seven bits.
\<close>

fun vlq_groups :: "nat \<Rightarrow> nat \<Rightarrow> u8 list" where
  "vlq_groups 0 v = []"
| "vlq_groups (Suc n) v =
     (if v = 0 then [] else vlq_groups n (v div 128) @ [of_nat (v mod 128) OR 0x80])"

definition vlq_encode :: "nat \<Rightarrow> u8 list" where
  "vlq_encode v = vlq_groups 3 (v div 128) @ [of_nat (v mod 128)]"

section \<open>The decoder of incoming MIDI (RTP\_MIDI\_Input.cpp)\<close>

text \<open>
  One call of the client's callback: \<open>DataSize\<close>, the \<open>DataSize\<close> bytes the pointer
  \<open>DataBlock\<close> points to, and the event time.
\<close>

type_synonym callback_call = "nat \<times> u8 list \<times> u32"

text \<open>
  The members of \<open>CRTP_MIDI\<close> that decode incoming RTP messages. \<open>RTPCallback\<close> is
  whether the callback pointer is non-null; \<open>InSYSEXBuffer\<close> is \<open>None\<close> for the null
  pointer; \<open>delivered\<close> is the sequence of calls of the callback made so far.
\<close>

record rtp_decoder =
  RTPCallback :: bool
  SYSEX_RTPActif :: bool
  FullInMidiMsg :: bytes
  IncomingThirdByte :: bool
  RTPRunningStatus :: u8
  InSYSEXBufferSize :: nat
  SegmentSYSEXInput :: bool
  InSYSEXBuffer :: "bytes option"
  InSYSEXBufferPtr :: nat
  InSYSEXOverflow :: bool
  delivered :: "callback_call list"

definition initRTP_SYSEXBuffer :: "rtp_decoder \<Rightarrow> rtp_decoder" where
  "initRTP_SYSEXBuffer d =
     d\<lparr>InSYSEXBufferPtr := 0, SegmentSYSEXInput := False,
       SYSEX_RTPActif := False, InSYSEXOverflow := False\<rparr>"

text \<open>
  \<open>InSYSEXBufferSize - 1\<close> is an unsigned 32-bit subtraction: for size 0 it is
  \<open>2 ^ 32 - 1\<close>.
\<close>

definition storeRTP_SYSEXData :: "u8 \<Rightarrow> rtp_decoder \<Rightarrow> rtp_decoder" where
  "storeRTP_SYSEXData SysexData d =
     (case InSYSEXBuffer d of
        None \<Rightarrow> d
      | Some buf \<Rightarrow>
          let d' = d\<lparr>InSYSEXBuffer := Some (buf(InSYSEXBufferPtr d := SysexData))\<rparr>
          in if InSYSEXBufferPtr d < (InSYSEXBufferSize d + 2 ^ 32 - 1) mod 2 ^ 32
             then d'\<lparr>InSYSEXBufferPtr := InSYSEXBufferPtr d + 1\<rparr>
             else d'\<lparr>InSYSEXOverflow := True\<rparr>)"

definition sendRTP_SYSEXBuffer :: "u32 \<Rightarrow> rtp_decoder \<Rightarrow> rtp_decoder" where
  "sendRTP_SYSEXBuffer LEventTime d =
     (if \<not> RTPCallback d then d
      else d\<lparr>delivered := delivered d @
             [(InSYSEXBufferPtr d,
               (case InSYSEXBuffer d of None \<Rightarrow> []
                | Some buf \<Rightarrow> map buf [0..<InSYSEXBufferPtr d]),
               LEventTime)]\<rparr>)"

definition sendMIDIToClient :: "nat \<Rightarrow> u32 \<Rightarrow> rtp_decoder \<Rightarrow> rtp_decoder" where
  "sendMIDIToClient NumBytes LEventTime d =
     (if \<not> RTPCallback d then d
      else d\<lparr>delivered := delivered d @
             [(NumBytes, map (FullInMidiMsg d) [0..<NumBytes], LEventTime)]\<rparr>)"

text \<open>
  The body of the \<open>while\<close> loop of \<open>GenerateMIDIEvent\<close> for one byte ends either with
  \<open>return\<close> or at the label \<open>NextByte\<close>.
\<close>

datatype flow = Return | NextByte

text \<open>The part of the body after the SYSEX processing (a status or a data byte).\<close>

definition GenerateMIDIEvent_status :: "u8 \<Rightarrow> u32 \<Rightarrow> rtp_decoder \<Rightarrow> flow \<times> rtp_decoder" where
  "GenerateMIDIEvent_status DataByte LEventTime d =
     (if DataByte AND 0x80 \<noteq> 0 then
        (if DataByte \<ge> 0xF8 then
           (Return, sendMIDIToClient 1 LEventTime
                      (d\<lparr>FullInMidiMsg := (FullInMidiMsg d)(0 := DataByte)\<rparr>))
         else
           let d1 = d\<lparr>RTPRunningStatus := DataByte,
                      FullInMidiMsg := (FullInMidiMsg d)(0 := DataByte),
                      IncomingThirdByte := False\<rparr>
           in if DataByte = 0xF6 then (Return, sendMIDIToClient 1 LEventTime d1)
              else (NextByte, d1))
      else
        (if IncomingThirdByte d then
           (Return, sendMIDIToClient 3 LEventTime
                      (d\<lparr>FullInMidiMsg := (FullInMidiMsg d)(0 := RTPRunningStatus d, 2 := DataByte),
                         IncomingThirdByte := False\<rparr>))
         else if RTPRunningStatus d = 0 then (Return, d)
         else if RTPRunningStatus d < 0xC0 then
           (NextByte, d\<lparr>IncomingThirdByte := True,
                         FullInMidiMsg := (FullInMidiMsg d)(1 := DataByte)\<rparr>)
         else if RTPRunningStatus d < 0xE0 then
           (Return, sendMIDIToClient 2 LEventTime
                      (d\<lparr>FullInMidiMsg := (FullInMidiMsg d)(0 := RTPRunningStatus d, 1 := DataByte)\<rparr>))
         else if RTPRunningStatus d < 0xF0 then
           (NextByte, d\<lparr>IncomingThirdByte := True,
                         FullInMidiMsg := (FullInMidiMsg d)(1 := DataByte)\<rparr>)
         else if RTPRunningStatus d = 0xF2 then
           (NextByte, d\<lparr>RTPRunningStatus := 0, IncomingThirdByte := True,
                         FullInMidiMsg := (FullInMidiMsg d)(1 := DataByte)\<rparr>)
         else if RTPRunningStatus d = 0xF1 \<or> RTPRunningStatus d = 0xF3 then
           (Return, (sendMIDIToClient 2 LEventTime
                       (d\<lparr>FullInMidiMsg := (FullInMidiMsg d)(0 := RTPRunningStatus d, 1 := DataByte)\<rparr>))
                    \<lparr>RTPRunningStatus := 0\<rparr>)
         else (Return, d\<lparr>RTPRunningStatus := 0\<rparr>)))"

definition GenerateMIDIEvent_byte :: "u8 \<Rightarrow> u32 \<Rightarrow> rtp_decoder \<Rightarrow> flow \<times> rtp_decoder" where
  "GenerateMIDIEvent_byte DataByte LEventTime d =
     (if DataByte = 0xF0 \<and> \<not> SYSEX_RTPActif d then
        (NextByte, storeRTP_SYSEXData 0xF0 (d\<lparr>SYSEX_RTPActif := True, SegmentSYSEXInput := True\<rparr>))
      else if SYSEX_RTPActif d then
        (if DataByte = 0xF0 then (NextByte, d\<lparr>SegmentSYSEXInput := False\<rparr>)
         else if DataByte = 0xF7 then
           (if SegmentSYSEXInput d then
              (Return, initRTP_SYSEXBuffer
                         (sendRTP_SYSEXBuffer LEventTime (storeRTP_SYSEXData 0xF7 d)))
            else (NextByte, d\<lparr>SegmentSYSEXInput := True\<rparr>))
         else if DataByte = 0xF4 then (Return, initRTP_SYSEXBuffer d)
         else if SegmentSYSEXInput d then
           (if DataByte < 0x80 then (NextByte, storeRTP_SYSEXData DataByte d)
            else if DataByte \<ge> 0xF8 then
              (NextByte, sendMIDIToClient 1 LEventTime
                           (d\<lparr>FullInMidiMsg := (FullInMidiMsg d)(0 := DataByte)\<rparr>))
            else GenerateMIDIEvent_status DataByte LEventTime (initRTP_SYSEXBuffer d))
         else GenerateMIDIEvent_status DataByte LEventTime d)
      else GenerateMIDIEvent_status DataByte LEventTime d)"

text \<open>
  \<open>GenerateMIDIEvent\<close>: the loop reads bytes while \<open>*ByteCtr < TailleBloc\<close>. The result
  is the updated \<open>*ByteCtr\<close> and the decoder.
\<close>

function GenerateMIDIEvent :: "bytes \<Rightarrow> nat \<Rightarrow> nat \<Rightarrow> u32 \<Rightarrow> rtp_decoder \<Rightarrow> nat \<times> rtp_decoder" where
  "GenerateMIDIEvent Buffer ByteCtr TailleBloc LEventTime d =
     (if ByteCtr < TailleBloc then
        (case GenerateMIDIEvent_byte (Buffer ByteCtr) LEventTime d of
           (Return, d') \<Rightarrow> (ByteCtr + 1, d')
         | (NextByte, d') \<Rightarrow> GenerateMIDIEvent Buffer (ByteCtr + 1) TailleBloc LEventTime d')
      else (ByteCtr, d))"
  by pat_completeness auto
termination
  by (relation "measure (\<lambda>(Buffer, ByteCtr, TailleBloc, LEventTime, d). TailleBloc - ByteCtr)") auto

declare GenerateMIDIEvent.simps [simp del]

text \<open>
  The scan loop of \<open>ProcessIncomingRTP\<close>: a delta time, then an event when bytes
  remain. When \<open>GetDeltaTime\<close> has moved the counter to \<open>TailleListeMIDI\<close> or beyond,
  the test of the \<open>while\<close> fails and the loop ends.
\<close>

function ProcessIncomingRTP_scan :: "bool \<Rightarrow> bytes \<Rightarrow> nat \<Rightarrow> nat \<Rightarrow> u32 \<Rightarrow> rtp_decoder \<Rightarrow> nat \<times> rtp_decoder" where
  "ProcessIncomingRTP_scan sg PtrListeMIDI CtrByteMIDI TailleListeMIDI LocalClock d =
     (if CtrByteMIDI < TailleListeMIDI then
        (case GetDeltaTime sg PtrListeMIDI CtrByteMIDI of
           (DeltaTime, Ctr1) \<Rightarrow>
             if Ctr1 < TailleListeMIDI then
               (case GenerateMIDIEvent PtrListeMIDI Ctr1 TailleListeMIDI (DeltaTime + LocalClock) d of
                  (Ctr2, d') \<Rightarrow> ProcessIncomingRTP_scan sg PtrListeMIDI Ctr2 TailleListeMIDI LocalClock d')
             else (Ctr1, d))
      else (CtrByteMIDI, d))"
  by pat_completeness auto
termination
proof (relation "measure (\<lambda>(sg, PtrListeMIDI, CtrByteMIDI, TailleListeMIDI, LocalClock, d). TailleListeMIDI - CtrByteMIDI)")
  show "wf (measure (\<lambda>(sg, PtrListeMIDI, CtrByteMIDI, TailleListeMIDI, LocalClock, d). TailleListeMIDI - CtrByteMIDI))"
    by simp
next
  fix sg :: bool and PtrListeMIDI :: bytes and CtrByteMIDI TailleListeMIDI :: nat
    and LocalClock :: u32 and d :: rtp_decoder and x DeltaTime Ctr1 xa Ctr2 d'
  assume a: "CtrByteMIDI < TailleListeMIDI"
    and g: "(DeltaTime, Ctr1) = GetDeltaTime sg PtrListeMIDI CtrByteMIDI"
    and e: "(Ctr2, d') = GenerateMIDIEvent PtrListeMIDI Ctr1 TailleListeMIDI (DeltaTime + LocalClock) d"
  have loop: "c < snd (GetDeltaTime_loop s B c n v)" for s B c n v
  proof (induction s B c n v rule: GetDeltaTime_loop.induct)
    case (1 s B c n v)
    show ?case
    proof (cases "B c AND 0x80 \<noteq> 0 \<and> n + 1 \<le> 4")
      case True
      with 1 have "c + 1 < snd (GetDeltaTime_loop s B (c + 1) (n + 1) (push_bit 7 v + char_to_uint s (B c)))"
        by simp
      with True show ?thesis
        by (subst GetDeltaTime_loop.simps) (simp add: Let_def)
    next
      case False
      then show ?thesis
        by (subst GetDeltaTime_loop.simps) (auto simp add: Let_def)
    qed
  qed
  have gen: "c \<le> fst (GenerateMIDIEvent B c T t q)" for B c T t q
  proof (induction B c T t q rule: GenerateMIDIEvent.induct)
    case (1 B c T t q)
    show ?case
    proof (cases "c < T")
      case True
      obtain f q' where fq: "GenerateMIDIEvent_byte (B c) t q = (f, q')"
        by (cases "GenerateMIDIEvent_byte (B c) t q")
      show ?thesis
      proof (cases f)
        case Return
        with True fq show ?thesis
          by (subst GenerateMIDIEvent.simps) simp
      next
        case NextByte
        with 1 True fq have "c + 1 \<le> fst (GenerateMIDIEvent B (c + 1) T t q')"
          by simp
        with True fq NextByte show ?thesis
          by (subst GenerateMIDIEvent.simps) simp
      qed
    next
      case False
      then show ?thesis
        by (subst GenerateMIDIEvent.simps) simp
    qed
  qed
  have "CtrByteMIDI < snd (GetDeltaTime sg PtrListeMIDI CtrByteMIDI)"
    using loop [of "CtrByteMIDI + 1" sg PtrListeMIDI 1]
    by (auto simp add: GetDeltaTime_def Let_def intro: less_trans [OF lessI])
  with g have "CtrByteMIDI < Ctr1"
    by (metis snd_conv)
  moreover from e have "Ctr1 \<le> Ctr2"
    using gen [of Ctr1 PtrListeMIDI TailleListeMIDI "DeltaTime + LocalClock" d]
    by (metis fst_conv)
  ultimately show "((sg, PtrListeMIDI, Ctr2, TailleListeMIDI, LocalClock, d'),
          (sg, PtrListeMIDI, CtrByteMIDI, TailleListeMIDI, LocalClock, d))
         \<in> measure (\<lambda>(sg, PtrListeMIDI, CtrByteMIDI, TailleListeMIDI, LocalClock, d). TailleListeMIDI - CtrByteMIDI)"
    using a by simp
qed

declare ProcessIncomingRTP_scan.simps [simp del]

text \<open>
  The part of \<open>ProcessIncomingRTP\<close> that walks the MIDI list at \<open>PtrListeMIDI\<close>. The
  result is the final \<open>CtrByteMIDI\<close> and the decoder. Every read of the list is
  \<open>PtrListeMIDI[CtrByteMIDI]\<close> followed by an increment of the counter, so the indices
  read are those from 0 up to the final counter.
\<close>

definition ProcessIncomingRTP_list ::
  "bool \<Rightarrow> bytes \<Rightarrow> nat \<Rightarrow> bool \<Rightarrow> u32 \<Rightarrow> rtp_decoder \<Rightarrow> nat \<times> rtp_decoder" where
  "ProcessIncomingRTP_list sg PtrListeMIDI TailleListeMIDI PresenceFirstDelta LocalClock d =
     (if TailleListeMIDI > 0 then
        (case (if PresenceFirstDelta then GetDeltaTime sg PtrListeMIDI 0 else (0, 0)) of
           (DeltaTime, Ctr0) \<Rightarrow>
             (case (if Ctr0 < TailleListeMIDI
                    then GenerateMIDIEvent PtrListeMIDI Ctr0 TailleListeMIDI (DeltaTime + LocalClock) d
                    else (Ctr0, d)) of
                (Ctr1, d1) \<Rightarrow>
                  ProcessIncomingRTP_scan sg PtrListeMIDI Ctr1 TailleListeMIDI LocalClock d1))
      else (0, d))"

text \<open>
  The header of the payload: byte 12 of the datagram is the control byte; with its B bit
  set the control word has two bytes and the list starts at byte 14, else at byte 13.
  The result is \<open>TailleListeMIDI\<close>, \<open>PresenceFirstDelta\<close> and the offset of the list.
\<close>

definition payload_header :: "bytes \<Rightarrow> nat \<times> bool \<times> nat" where
  "payload_header Buffer =
     (if Buffer 12 AND 0x80 \<noteq> 0
      then (unat (htons_at Buffer 12 AND 0xFFF), htons_at Buffer 12 AND 0x2000 \<noteq> 0, 14)
      else (unat (Buffer 12 AND 0xF), Buffer 12 AND 0x20 \<noteq> 0, 13))"

section \<open>The outbound ring (RTP\_MIDI.cpp)\<close>

definition MIDI_CHAR_FIFO_SIZE :: nat where
  "MIDI_CHAR_FIFO_SIZE = 2048"

record TMIDI_FIFO_CHAR =
  FIFO :: bytes
  ReadPtr :: nat
  WritePtr :: nat

text \<open>
  The \<open>for\<close> loop of \<open>SendRTPMIDIBlock\<close> over the bytes of the block. The result is
  whether the loop ran to its end (\<open>False\<close>: it met the read pointer and the function
  returned false), the FIFO array and \<open>TmpWrite\<close>.
\<close>

fun SendRTPMIDIBlock_copy :: "u8 list \<Rightarrow> nat \<Rightarrow> nat \<Rightarrow> bytes \<Rightarrow> bool \<times> bytes \<times> nat" where
  "SendRTPMIDIBlock_copy [] TmpWrite rp fifo = (True, fifo, TmpWrite)"
| "SendRTPMIDIBlock_copy (b # MIDIData) TmpWrite rp fifo =
     (let fifo' = fifo(TmpWrite := b);
          TmpWrite' = (if TmpWrite + 1 \<ge> MIDI_CHAR_FIFO_SIZE then 0 else TmpWrite + 1)
      in if TmpWrite' = rp then (False, fifo', TmpWrite')
         else SendRTPMIDIBlock_copy MIDIData TmpWrite' rp fifo')"

text \<open>
  The \<open>while\<close> loop of \<open>GeneratePayload\<close> (\<open>FullPayload\<close> is never set). It ends when
  the read pointer meets the snapshot of the write pointer, which it never does when the
  snapshot is outside the array: the result is \<open>None\<close> when the loop does not end.
\<close>

partial_function (option) GeneratePayload_loop ::
  "bytes \<Rightarrow> nat \<Rightarrow> nat \<Rightarrow> u8 list \<Rightarrow> (u8 list \<times> nat) option" where
  "GeneratePayload_loop fifo rp MIDIBlockEnd MIDIList =
     (if rp \<noteq> MIDIBlockEnd then
        GeneratePayload_loop fifo
          (if rp + 1 \<ge> MIDI_CHAR_FIFO_SIZE then 0 else rp + 1)
          MIDIBlockEnd (MIDIList @ [fifo rp])
      else Some (MIDIList, rp))"

text \<open>\<open>GeneratePayload\<close>: the bytes put in \<open>MIDIList\<close>, and the ring after.\<close>

definition GeneratePayload :: "TMIDI_FIFO_CHAR \<Rightarrow> (u8 list \<times> TMIDI_FIFO_CHAR) option" where
  "GeneratePayload q =
     (case GeneratePayload_loop (FIFO q) (ReadPtr q) (WritePtr q) [] of
        None \<Rightarrow> None
      | Some (MIDIList, rp) \<Rightarrow> Some (MIDIList, q\<lparr>ReadPtr := rp\<rparr>))"

section \<open>The endpoint (RTP\_MIDI.h, RTP\_MIDI.cpp, RTP\_MIDI\_AppleProtocol.cpp)\<close>

datatype session_state =
    SESSION_CLOSED
  | SESSION_CLOSE
  | SESSION_INVITE_CONTROL
  | SESSION_INVITE_DATA
  | SESSION_CLOCK_SYNC0
  | SESSION_CLOCK_SYNC1
  | SESSION_CLOCK_SYNC2
  | SESSION_OPENED
  | SESSION_WAIT_INVITE_CTRL
  | SESSION_WAIT_INVITE_DATA
  | SESSION_WAIT_CLOCK_SYNC

text \<open>
  The RTP message that \<open>PrepareMessage\<close> fills: the fields of \<open>TRTP_Header\<close> and of
  \<open>TLongMIDIPayload\<close>, each multi-byte field as the value that \<open>htons\<close> or \<open>htonl\<close>
  puts on the wire, and the bytes of the MIDI list that \<open>GeneratePayload\<close> wrote. The
  array \<open>MIDIList\<close> of the source, the last member of the message, has
  \<open>MAX_RTP_LOAD\<close> bytes, a bound that \<open>GeneratePayload\<close> does not check.
\<close>

definition MAX_RTP_LOAD :: nat where
  "MAX_RTP_LOAD = 1024"

record TLongMIDIRTPMsg =
  Code1 :: u8
  Code2 :: u8
  SequenceNumber :: u16
  Timestamp :: u32
  Header_SSRC :: u32
  Control :: u16
  MIDIList :: "u8 list"

text \<open>
  A datagram given to \<open>sendto\<close>, by the function that builds it: its destination address
  and port, then the fields the function writes into the packet. \<open>control_socket\<close> tells
  the socket used. Of an invitation the session name is left out. An RTP message is sent
  with its size \<open>RTPOutSize\<close>.
\<close>

datatype datagram =
    IN_packet (control_socket: bool) u32 u16 u32 u32
  | Reply_packet (control_socket: bool) bool u32 u16 u32 u32
  | CK_packet u32 u16 u32 nat u32 u32 u32 u32 u32 u32
  | BY_packet u32 u16 u32 u32
  | RS_packet u32 u16 u32 u16
  | RTP_packet u32 u16 nat TLongMIDIRTPMsg

text \<open>The sequence numbers of the RTP messages among the datagrams sent.\<close>

fun rtp_seqs :: "datagram list \<Rightarrow> u16 list" where
  "rtp_seqs [] = []"
| "rtp_seqs (RTP_packet ip port sz m # ds) = SequenceNumber m # rtp_seqs ds"
| "rtp_seqs (other # ds) = rtp_seqs ds"

text \<open>
  A datagram returned by \<open>recvfrom\<close>: the sender (in host byte order), the returned size,
  and the reception buffer after the call.
\<close>

record packet =
  SenderIP :: u32
  SenderPort :: u16
  RecvSize :: int
  Buffer :: bytes

record CRTP_MIDI =
  LocalClock :: u32
  RemoteIPToInvite :: u32
  SessionPartnerIP :: u32
  PartnerControlPort :: u16
  PartnerDataPort :: u16
  EndpointLocked :: bool
  SSRC :: u32
  RTPSequence :: u16
  LastRTPCounter :: u16
  LastFeedbackCounter :: u16
  SessionState :: session_state
  InviteCount :: u32
  InitiatorToken :: u32
  IsInitiatorNode :: bool
  TimeOutRemote :: int
  SyncSequenceCounter :: u32
  MeasuredLatency :: u32
  TimerRunning :: bool
  EventTime :: u32
  TimeCounter :: u32
  RTPStreamQueue :: TMIDI_FIFO_CHAR
  decoder :: rtp_decoder
  TS1H :: u32
  TS1L :: u32
  TS2H :: u32
  TS2L :: u32
  TS3H :: u32
  TS3L :: u32
  ConnectionLost :: bool
  PeerClosedSession :: bool
  ConnectionRefused :: bool
  sent :: "datagram list"

text \<open>
  The constructor assigns some members and leaves the others as they are in the fresh
  object \<open>raw\<close>; \<open>new\<close> returns a buffer \<open>buf\<close>, never the null pointer. No
  datagram has been sent and no callback made.
\<close>

definition CRTP_MIDI_new :: "nat \<Rightarrow> bool \<Rightarrow> bytes \<Rightarrow> CRTP_MIDI \<Rightarrow> CRTP_MIDI" where
  "CRTP_MIDI_new SYXInSize CallbackFunc buf raw =
     raw\<lparr>RemoteIPToInvite := 0, PartnerControlPort := 0, PartnerDataPort := 0,
         SessionState := SESSION_CLOSED, SessionPartnerIP := 0,
         EndpointLocked := True, TimerRunning := False, EventTime := 0,
         InviteCount := 0, TimeCounter := 0, SyncSequenceCounter := 0,
         MeasuredLatency := 0xFFFFFFFF,
         IsInitiatorNode := True, TimeOutRemote := 4,
         ConnectionLost := False, PeerClosedSession := False, ConnectionRefused := False,
         RTPStreamQueue := (RTPStreamQueue raw)\<lparr>ReadPtr := 0, WritePtr := 0\<rparr>,
         decoder := (initRTP_SYSEXBuffer
                       ((decoder raw)\<lparr>InSYSEXBufferSize := SYXInSize, InSYSEXBuffer := Some buf\<rparr>))
                    \<lparr>RTPCallback := CallbackFunc, delivered := []\<rparr>,
         sent := []\<rparr>"

definition PrepareTimerEvent :: "u32 \<Rightarrow> CRTP_MIDI \<Rightarrow> CRTP_MIDI" where
  "PrepareTimerEvent TimeToWait st = st\<lparr>EventTime := TimeToWait, TimerRunning := True\<rparr>"

definition SendInvitation :: "bool \<Rightarrow> CRTP_MIDI \<Rightarrow> CRTP_MIDI" where
  "SendInvitation DestControl st =
     st\<lparr>sent := sent st @
          [IN_packet DestControl (RemoteIPToInvite st)
             (if DestControl then PartnerControlPort st else PartnerDataPort st)
             (InitiatorToken st) (SSRC st)]\<rparr>"

definition SendBYCommand :: "CRTP_MIDI \<Rightarrow> CRTP_MIDI" where
  "SendBYCommand st =
     st\<lparr>sent := sent st @
          [BY_packet (SessionPartnerIP st) (PartnerControlPort st) (InitiatorToken st) (SSRC st)]\<rparr>"

definition SendInvitationReply :: "bool \<Rightarrow> bool \<Rightarrow> u32 \<Rightarrow> u16 \<Rightarrow> CRTP_MIDI \<Rightarrow> CRTP_MIDI" where
  "SendInvitationReply FromControlSocket Accept DestinationIP DestinationPort st =
     st\<lparr>sent := sent st @
          [Reply_packet FromControlSocket Accept DestinationIP DestinationPort
             (InitiatorToken st) (SSRC st)]\<rparr>"

definition SendSyncPacket ::
  "nat \<Rightarrow> u32 \<Rightarrow> u32 \<Rightarrow> u32 \<Rightarrow> u32 \<Rightarrow> u32 \<Rightarrow> u32 \<Rightarrow> CRTP_MIDI \<Rightarrow> CRTP_MIDI" where
  "SendSyncPacket Count LTS1H LTS1L LTS2H LTS2L LTS3H LTS3L st =
     st\<lparr>sent := sent st @
          [CK_packet (SessionPartnerIP st) (PartnerDataPort st) (SSRC st) Count
             LTS1H LTS1L LTS2H LTS2L LTS3H LTS3L]\<rparr>"

definition SendFeedbackPacket :: "u16 \<Rightarrow> CRTP_MIDI \<Rightarrow> CRTP_MIDI" where
  "SendFeedbackPacket LastNumber st =
     st\<lparr>sent := sent st @
          [RS_packet (SessionPartnerIP st) (PartnerControlPort st) (SSRC st) LastNumber]\<rparr>"

text \<open>
  \<open>InitiateSession\<close>: \<open>token\<close> and \<open>ssrc\<close> are the two values computed from \<open>rand()\<close>,
  \<open>CtrlOK\<close> and \<open>DataOK\<close> the results of the two calls of \<open>CreateUDPSocket\<close>. The result
  is \<open>CreateError\<close> and the endpoint.
\<close>

definition InitiateSession ::
  "u32 \<Rightarrow> u16 \<Rightarrow> u16 \<Rightarrow> bool \<Rightarrow> u32 \<Rightarrow> u32 \<Rightarrow> bool \<Rightarrow> bool \<Rightarrow> CRTP_MIDI \<Rightarrow> int \<times> CRTP_MIDI" where
  "InitiateSession DestIP DestCtrlPort DestDataPort IsInitiator token ssrc CtrlOK DataOK st =
     (let st1 = st\<lparr>RemoteIPToInvite := DestIP, PartnerControlPort := DestCtrlPort,
                    PartnerDataPort := DestDataPort, InitiatorToken := token, SSRC := ssrc,
                    RTPSequence := 0, LastRTPCounter := 0, LastFeedbackCounter := 0,
                    SyncSequenceCounter := 0\<rparr>;
          CreateError = (if \<not> DataOK then - 2 else if \<not> CtrlOK then - 1 else 0)
      in if CreateError \<noteq> 0 then (CreateError, st1)
         else
           let st2 = st1\<lparr>decoder := (decoder st1)\<lparr>SYSEX_RTPActif := False,
                                                      SegmentSYSEXInput := False,
                                                      IncomingThirdByte := False\<rparr>,
                          ConnectionLost := False, InviteCount := 0, TimeOutRemote := 16,
                          IsInitiatorNode := IsInitiator\<rparr>;
               st3 = (if \<not> IsInitiator then st2\<lparr>SessionState := SESSION_WAIT_INVITE_CTRL\<rparr>
                      else st2\<lparr>SessionState := SESSION_INVITE_CONTROL,
                               SessionPartnerIP := RemoteIPToInvite st2\<rparr>)
           in (CreateError, (PrepareTimerEvent 1 st3)\<lparr>EndpointLocked := False\<rparr>))"

definition CloseSession :: "CRTP_MIDI \<Rightarrow> CRTP_MIDI" where
  "CloseSession st =
     (if \<not> IsInitiatorNode st \<and> SessionState st = SESSION_WAIT_INVITE_CTRL then st
      else if EndpointLocked st then st
      else SendBYCommand (st\<lparr>SessionState := SESSION_CLOSED, EndpointLocked := True\<rparr>))"

definition PartnerCloseSession :: "CRTP_MIDI \<Rightarrow> CRTP_MIDI" where
  "PartnerCloseSession st =
     st\<lparr>TimerRunning := False,
        SessionState := (if \<not> IsInitiatorNode st then SESSION_WAIT_INVITE_CTRL else SESSION_CLOSED),
        PeerClosedSession := True, SessionPartnerIP := 0\<rparr>"

definition RestartSession :: "CRTP_MIDI \<Rightarrow> CRTP_MIDI" where
  "RestartSession st =
     (if \<not> IsInitiatorNode st then st
      else PrepareTimerEvent 1000
             (st\<lparr>decoder := (decoder st)\<lparr>SYSEX_RTPActif := False, SegmentSYSEXInput := False,
                                         IncomingThirdByte := False\<rparr>,
                 InviteCount := 0, TimeOutRemote := 16,
                 SessionState := SESSION_INVITE_CONTROL\<rparr>))"

definition ReadAndResetConnectionLost :: "CRTP_MIDI \<Rightarrow> bool \<times> CRTP_MIDI" where
  "ReadAndResetConnectionLost st =
     (if \<not> ConnectionLost st then (False, st) else (True, st\<lparr>ConnectionLost := False\<rparr>))"

definition RemotePeerHasClosedSession :: "CRTP_MIDI \<Rightarrow> bool \<times> CRTP_MIDI" where
  "RemotePeerHasClosedSession st = (PeerClosedSession st, st\<lparr>PeerClosedSession := False\<rparr>)"

definition RemotePeerHasRefusedSession :: "CRTP_MIDI \<Rightarrow> bool \<times> CRTP_MIDI" where
  "RemotePeerHasRefusedSession st = (ConnectionRefused st, st\<lparr>ConnectionRefused := False\<rparr>)"

definition SetCallback :: "bool \<Rightarrow> CRTP_MIDI \<Rightarrow> CRTP_MIDI" where
  "SetCallback CallbackFunc st = st\<lparr>decoder := (decoder st)\<lparr>RTPCallback := CallbackFunc\<rparr>\<rparr>"

text \<open>
  \<open>SendRTPMIDIBlock\<close>: \<open>MIDIData\<close> is the block, \<open>BlockSize\<close> its length. When the loop
  returns false the bytes already copied stay in the array and the write pointer is not
  updated.
\<close>

definition SendRTPMIDIBlock :: "u8 list \<Rightarrow> CRTP_MIDI \<Rightarrow> bool \<times> CRTP_MIDI" where
  "SendRTPMIDIBlock MIDIData st =
     (if length MIDIData = 0 then (True, st)
      else if SessionState st \<noteq> SESSION_OPENED then (False, st)
      else
        (case SendRTPMIDIBlock_copy MIDIData (WritePtr (RTPStreamQueue st))
                (ReadPtr (RTPStreamQueue st)) (FIFO (RTPStreamQueue st)) of
           (False, fifo, TmpWrite) \<Rightarrow> (False, st\<lparr>RTPStreamQueue := (RTPStreamQueue st)\<lparr>FIFO := fifo\<rparr>\<rparr>)
         | (True, fifo, TmpWrite) \<Rightarrow>
             (True, st\<lparr>RTPStreamQueue := (RTPStreamQueue st)\<lparr>FIFO := fifo, WritePtr := TmpWrite\<rparr>\<rparr>)))"

text \<open>
  \<open>ProcessIncomingRTP\<close> on the reception buffer. (The source also writes the control word
  back into the buffer in host byte order; the buffer is not read again before the next
  \<open>recvfrom\<close>, whose result a \<open>packet\<close> gives in full.)
\<close>

definition ProcessIncomingRTP :: "bool \<Rightarrow> bytes \<Rightarrow> CRTP_MIDI \<Rightarrow> CRTP_MIDI" where
  "ProcessIncomingRTP sg Buf st =
     (case payload_header Buf of
        (TailleListeMIDI, PresenceFirstDelta, off) \<Rightarrow>
          st\<lparr>LastRTPCounter := htons_at Buf 2,
             decoder := snd (ProcessIncomingRTP_list sg (\<lambda>i. Buf (off + i)) TailleListeMIDI
                               PresenceFirstDelta (LocalClock st) (decoder st))\<rparr>)"

text \<open>
  \<open>ProcessControlSocket\<close>: \<open>None\<close> when \<open>DataAvail\<close> is false. The pair of flags is
  \<open>*InvitationAccepted\<close> and \<open>*InvitationRejected\<close>. The letters are their ASCII codes:
  I 0x49, N 0x4E, O 0x4F, K 0x4B, B 0x42, Y 0x59, C 0x43.
\<close>

definition ProcessControlSocket ::
  "packet option \<Rightarrow> bool \<times> bool \<Rightarrow> CRTP_MIDI \<Rightarrow> bool \<times> (bool \<times> bool) \<times> CRTP_MIDI" where
  "ProcessControlSocket c fl st =
     (case c of
        None \<Rightarrow> (False, fl, st)
      | Some p \<Rightarrow>
          let B = Buffer p; ip = SenderIP p; port = SenderPort p
          in if RecvSize p = 0 then (False, fl, st)
             else if B 0 \<noteq> 0xFF \<or> B 1 \<noteq> 0xFF then (True, fl, st)
             else if B 2 = 0x49 \<and> B 3 = 0x4E then
               (True, fl,
                if \<not> IsInitiatorNode st then
                  (if SessionState st = SESSION_WAIT_INVITE_CTRL then
                     (SendInvitationReply True True ip port
                        (PrepareTimerEvent 5000
                           (st\<lparr>InitiatorToken := htonl_at B 8,
                               SessionState := SESSION_WAIT_INVITE_DATA\<rparr>)))
                     \<lparr>SessionPartnerIP := ip, PartnerControlPort := port\<rparr>
                   else if ip = SessionPartnerIP st \<and> port = PartnerControlPort st then
                     SendInvitationReply True True ip port (PrepareTimerEvent 5000 st)
                   else SendInvitationReply True False ip port st)
                else st)
             else if B 2 = 0x4F \<and> B 3 = 0x4B then (True, (True, snd fl), st)
             else if B 2 = 0x4E \<and> B 3 = 0x4F then (True, (fst fl, True), st)
             else if B 2 = 0x42 \<and> B 3 = 0x59 then
               (True, fl, if ip = SessionPartnerIP st then PartnerCloseSession st else st)
             else (True, fl, st))"

text \<open>The processing of a CK message in \<open>RunSession\<close>; \<open>Count\<close> is byte 8.\<close>

definition RunSession_CK :: "bytes \<Rightarrow> CRTP_MIDI \<Rightarrow> CRTP_MIDI" where
  "RunSession_CK B st =
     (if B 8 = 0 then
        (let st1 = st\<lparr>TS1H := htonl_at B 12, TS1L := htonl_at B 16\<rparr>
         in SendSyncPacket 1 (TS1H st1) (TS1L st1) 0 (TimeCounter st1) 0 0 st1)
      else if B 8 = 1 then
        (let st1 = st\<lparr>TS1H := htonl_at B 12, TS1L := htonl_at B 16,
                       TS2H := htonl_at B 20, TS2L := htonl_at B 24\<rparr>;
             st2 = st1\<lparr>MeasuredLatency := TimeCounter st1 - TS1L st1, TimeOutRemote := 4\<rparr>;
             st3 = SendSyncPacket 2 (TS1H st2) (TS1L st2) (TS2H st2) (TS2L st2) 0 (TimeCounter st2) st2
         in if IsInitiatorNode st3 \<and> SessionState st3 = SESSION_CLOCK_SYNC1
            then st3\<lparr>TimeOutRemote := 4, SessionState := SESSION_OPENED\<rparr>
            else st3)
      else if B 8 = 2 then
        (let st1 = st\<lparr>TS1H := htonl_at B 12, TS1L := htonl_at B 16,
                       TS2H := htonl_at B 20, TS2L := htonl_at B 24,
                       TS3H := htonl_at B 28, TS3L := htonl_at B 32\<rparr>
         in st1\<lparr>MeasuredLatency := TimeCounter st1 - TS2L st1, TimeOutRemote := 4,
                SessionState := SESSION_OPENED\<rparr>)
      else st)"

text \<open>
  The processing of the data socket in one turn of the \<open>do \<dots> while\<close> loop of
  \<open>RunSession\<close>, for a datagram that \<open>recvfrom\<close> returned. The pair of flags is
  \<open>InvitationAcceptedOnData\<close> and \<open>InvitationRejectedOnData\<close>.
\<close>

definition RunSession_data :: "bool \<Rightarrow> packet \<Rightarrow> bool \<times> bool \<Rightarrow> CRTP_MIDI \<Rightarrow> (bool \<times> bool) \<times> CRTP_MIDI" where
  "RunSession_data sg p fl st =
     (let B = Buffer p
      in if RecvSize p > 0 then
           (if SenderIP p = SessionPartnerIP st then
              (if B 0 = 0x80 \<and> B 1 = 0x61 then
                 (fl, if SessionState st = SESSION_OPENED then ProcessIncomingRTP sg B st else st)
               else if B 0 = 0xFF \<and> B 1 = 0xFF then
                 (if B 2 = 0x43 \<and> B 3 = 0x4B then (fl, RunSession_CK B st)
                  else if B 2 = 0x49 \<and> B 3 = 0x4E then
                    (fl, (SendInvitationReply False True (SenderIP p) (SenderPort p)
                            (PrepareTimerEvent 2000 (st\<lparr>SessionState := SESSION_WAIT_CLOCK_SYNC\<rparr>)))
                         \<lparr>PartnerDataPort := SenderPort p\<rparr>)
                  else if B 2 = 0x4F \<and> B 3 = 0x4B then ((True, snd fl), st)
                  else if B 2 = 0x4E \<and> B 3 = 0x4F then ((fst fl, True), st)
                  else if B 2 = 0x42 \<and> B 3 = 0x59 then (fl, PartnerCloseSession st)
                  else (fl, st))
               else (fl, st))
            else (fl, st))
         else (fl, st))"

text \<open>
  The \<open>do \<dots> while\<close> loop of \<open>RunSession\<close>. Each element of the list is one turn of
  the loop: what the control socket and the data socket hold (\<open>None\<close> when \<open>DataAvail\<close>
  is false). The loop ends after a turn in which nothing was received; the end of the list
  is the turn in which both sockets are empty. The flags are those of the control socket
  and those of the data socket.
\<close>

fun RunSession_sockets ::
  "bool \<Rightarrow> (packet option \<times> packet option) list \<Rightarrow> (bool \<times> bool) \<times> (bool \<times> bool) \<Rightarrow> CRTP_MIDI
     \<Rightarrow> ((bool \<times> bool) \<times> (bool \<times> bool)) \<times> CRTP_MIDI" where
  "RunSession_sockets sg [] fl st = (fl, st)"
| "RunSession_sockets sg ((c, dt) # turns) (flc, fld) st =
     (case ProcessControlSocket c flc st of
        (PacketReceivedOnControl, flc', st1) \<Rightarrow>
          (case (case dt of None \<Rightarrow> (fld, st1) | Some p \<Rightarrow> RunSession_data sg p fld st1) of
             (fld', st2) \<Rightarrow>
               if PacketReceivedOnControl \<or> dt \<noteq> None
               then RunSession_sockets sg turns (flc', fld') st2
               else ((flc', fld'), st2)))"

text \<open>The check of the timer at the start of \<open>RunSession\<close>: \<open>TimerEvent\<close> and the endpoint.\<close>

definition RunSession_timer :: "CRTP_MIDI \<Rightarrow> bool \<times> CRTP_MIDI" where
  "RunSession_timer st =
     (if TimerRunning st then
        (let st1 = (if EventTime st > 0 then st\<lparr>EventTime := EventTime st - 1\<rparr> else st)
         in if EventTime st1 = 0 then (True, st1\<lparr>TimerRunning := False\<rparr>) else (False, st1))
      else (False, st))"

text \<open>
  The part \<open>Run session initiator\<close> of \<open>RunSession\<close>. The first component of the result
  tells that the function returned there.
\<close>

definition RunSession_initiator :: "bool \<Rightarrow> bool \<Rightarrow> bool \<Rightarrow> CRTP_MIDI \<Rightarrow> bool \<times> CRTP_MIDI" where
  "RunSession_initiator TimerEvent InvitationAcceptedOnCtrl InvitationAcceptedOnData st =
     (if IsInitiatorNode st then
        (if SessionState st = SESSION_INVITE_CONTROL then
           (let st1 = st\<lparr>SyncSequenceCounter := 0\<rparr>
            in if InvitationAcceptedOnCtrl then
                 (True, PrepareTimerEvent 100
                          (SendInvitation False (st1\<lparr>SessionState := SESSION_INVITE_DATA\<rparr>)))
               else if \<not> TimerRunning st1 \<and> TimerEvent then
                 (False, (PrepareTimerEvent 1000 (SendInvitation True st1))
                           \<lparr>InviteCount := InviteCount st1 + 1\<rparr>)
               else (False, st1))
         else if SessionState st = SESSION_INVITE_DATA then
           (if InvitationAcceptedOnData then (False, st\<lparr>SessionState := SESSION_CLOCK_SYNC0\<rparr>)
            else if \<not> TimerRunning st \<and> TimerEvent then
              (if InviteCount st > 12 then (True, RestartSession st)
               else (True, (PrepareTimerEvent 1000 (SendInvitation False st))
                             \<lparr>InviteCount := InviteCount st + 1\<rparr>))
            else (False, st))
         else if SessionState st = SESSION_CLOCK_SYNC0 then
           (False, (SendSyncPacket 0 0 (TimeCounter st) 0 0 0 0 st)
                     \<lparr>SessionState := SESSION_CLOCK_SYNC1\<rparr>)
         else (False, st))
      else (False, st))"

text \<open>
  \<open>PrepareMessage\<close>: \<open>None\<close> for the result 0 (no MIDI data, the buffer is not written),
  else the size of the message and the message. The outer \<open>None\<close> is for a call with
  no result: \<open>GeneratePayload\<close> does not return, or it is given more than
  \<open>MAX_RTP_LOAD\<close> bytes by the ring and writes past the end of \<open>MIDIList\<close>, that is,
  past the end of the message, after which what the program does is not defined.
\<close>

definition PrepareMessage :: "u32 \<Rightarrow> CRTP_MIDI \<Rightarrow> ((nat \<times> TLongMIDIRTPMsg) option \<times> CRTP_MIDI) option" where
  "PrepareMessage TimeStamp st =
     (case GeneratePayload (RTPStreamQueue st) of
        None \<Rightarrow> None
      | Some (ml, q) \<Rightarrow>
          let st1 = st\<lparr>RTPStreamQueue := q\<rparr>; TailleMIDI = length ml
          in if TailleMIDI > MAX_RTP_LOAD then None
             else if TailleMIDI = 0 then Some (None, st1)
             else Some (Some (TailleMIDI + 12 + 2,
                              \<lparr>Code1 = 0x80, Code2 = 0x61, SequenceNumber = RTPSequence st1,
                               Timestamp = TimeStamp, Header_SSRC = SSRC st1,
                               Control = of_nat TailleMIDI OR 0x8000, MIDIList = ml\<rparr>),
                        st1))"

text \<open>The part of \<open>RunSession\<close> under \<open>TimerEvent\<close> when the session is opened.\<close>

definition RunSession_keepalive :: "CRTP_MIDI \<Rightarrow> CRTP_MIDI" where
  "RunSession_keepalive st =
     (let st1 = (if LastRTPCounter st \<noteq> LastFeedbackCounter st
                 then (SendFeedbackPacket (LastRTPCounter st) st)
                        \<lparr>LastFeedbackCounter := LastRTPCounter st\<rparr>
                 else st);
          st2 = (if IsInitiatorNode st1 then SendSyncPacket 0 0 (TimeCounter st1) 0 0 0 0 st1 else st1);
          st3 = (if SyncSequenceCounter st2 \<le> 5
                 then (PrepareTimerEvent 1500 st2)\<lparr>SyncSequenceCounter := SyncSequenceCounter st2 + 1\<rparr>
                 else PrepareTimerEvent 10000 st2)
      in if TimeOutRemote st3 > 0 then st3\<lparr>TimeOutRemote := TimeOutRemote st3 - 1\<rparr> else st3)"

text \<open>
  The part of \<open>RunSession\<close> for the opened session, in three steps: the RTP message is
  prepared and, when there is one, sent; under \<open>TimerEvent\<close> the keep-alive runs; the
  loss of the remote node is detected.
\<close>

definition RunSession_send :: "CRTP_MIDI \<Rightarrow> CRTP_MIDI option" where
  "RunSession_send st =
     (case PrepareMessage (TimeCounter st) st of
        None \<Rightarrow> None
      | Some (msg, st1) \<Rightarrow>
          Some (case msg of
                  None \<Rightarrow> st1
                | Some (RTPOutSize, LRTPMessage) \<Rightarrow>
                    if RTPOutSize > 0 then
                      st1\<lparr>RTPSequence := RTPSequence st1 + 1,
                          sent := sent st1 @
                            [RTP_packet (SessionPartnerIP st1) (PartnerDataPort st1)
                               RTPOutSize LRTPMessage]\<rparr>
                    else st1))"

definition RunSession_lost :: "CRTP_MIDI \<Rightarrow> CRTP_MIDI" where
  "RunSession_lost st =
     (if TimeOutRemote st = 0 then
        (let st1 = st\<lparr>ConnectionLost := True\<rparr>
         in if IsInitiatorNode st1 then RestartSession (st1\<lparr>TimeOutRemote := 4\<rparr>)
            else st1\<lparr>SessionState := SESSION_WAIT_INVITE_CTRL\<rparr>)
      else st)"

definition RunSession_opened :: "bool \<Rightarrow> CRTP_MIDI \<Rightarrow> CRTP_MIDI option" where
  "RunSession_opened TimerEvent st =
     (if SessionState st = SESSION_OPENED then
        (case RunSession_send st of
           None \<Rightarrow> None
         | Some st2 \<Rightarrow>
             Some (RunSession_lost (if TimerEvent then RunSession_keepalive st2 else st2)))
      else Some st)"

text \<open>
  \<open>RunSession\<close>, for the datagrams that the two sockets give in this call. \<open>None\<close> when
  the call has no result (see \<open>PrepareMessage\<close>).
\<close>

definition RunSession :: "bool \<Rightarrow> (packet option \<times> packet option) list \<Rightarrow> CRTP_MIDI \<Rightarrow> CRTP_MIDI option" where
  "RunSession sg turns st =
     (let st0 = st\<lparr>TimeCounter := TimeCounter st + 10, LocalClock := LocalClock st + 10\<rparr>
      in if EndpointLocked st0 then Some st0
         else
           (case RunSession_timer st0 of
              (TimerEvent, st1) \<Rightarrow>
                let st2 = (if TimerEvent \<and> SessionState st1 = SESSION_WAIT_INVITE_DATA
                           then st1\<lparr>SessionState := SESSION_WAIT_INVITE_CTRL\<rparr> else st1);
                    st3 = (if TimerEvent \<and> SessionState st2 = SESSION_WAIT_CLOCK_SYNC
                           then st2\<lparr>SessionState := SESSION_WAIT_INVITE_CTRL\<rparr> else st2)
                in (case RunSession_sockets sg turns ((False, False), (False, False)) st3 of
                      (((AcceptedOnCtrl, RejectedOnCtrl), (AcceptedOnData, RejectedOnData)), st4) \<Rightarrow>
                        let rejected = RejectedOnCtrl \<or> RejectedOnData;
                            st5 = (if rejected
                                   then (PartnerCloseSession st4)\<lparr>ConnectionRefused := True\<rparr>
                                   else st4)
                        in (case RunSession_initiator TimerEvent
                                   (AcceptedOnCtrl \<and> \<not> rejected) (AcceptedOnData \<and> \<not> rejected) st5 of
                              (True, st6) \<Rightarrow> Some st6
                            | (False, st6) \<Rightarrow> RunSession_opened TimerEvent st6))))"

section \<open>Runs of the endpoint\<close>

text \<open>
  The calls a host makes on an endpoint after \<open>InitiateSession\<close>, and a run: a sequence
  of such calls, each on the endpoint the one before left. \<open>None\<close> when a call has no
  result.
\<close>

datatype host_call =
    Call_RunSession "(packet option \<times> packet option) list"
  | Call_SendRTPMIDIBlock "u8 list"
  | Call_RestartSession
  | Call_CloseSession
  | Call_SetCallback bool
  | Call_ReadAndResetConnectionLost
  | Call_RemotePeerHasClosedSession
  | Call_RemotePeerHasRefusedSession

fun host_step :: "bool \<Rightarrow> host_call \<Rightarrow> CRTP_MIDI \<Rightarrow> CRTP_MIDI option" where
  "host_step sg (Call_RunSession turns) st = RunSession sg turns st"
| "host_step sg (Call_SendRTPMIDIBlock MIDIData) st = Some (snd (SendRTPMIDIBlock MIDIData st))"
| "host_step sg Call_RestartSession st = Some (RestartSession st)"
| "host_step sg Call_CloseSession st = Some (CloseSession st)"
| "host_step sg (Call_SetCallback f) st = Some (SetCallback f st)"
| "host_step sg Call_ReadAndResetConnectionLost st = Some (snd (ReadAndResetConnectionLost st))"
| "host_step sg Call_RemotePeerHasClosedSession st = Some (snd (RemotePeerHasClosedSession st))"
| "host_step sg Call_RemotePeerHasRefusedSession st = Some (snd (RemotePeerHasRefusedSession st))"

fun run :: "bool \<Rightarrow> host_call list \<Rightarrow> CRTP_MIDI \<Rightarrow> CRTP_MIDI option" where
  "run sg [] st = Some st"
| "run sg (c # cs) st = (case host_step sg c st of None \<Rightarrow> None | Some st' \<Rightarrow> run sg cs st')"

text \<open>
  A step of the endpoint that sends no RTP message: the datagrams it sends, if any, are
  added after those sent before and none of them is an RTP message, and it changes neither
  the sequence counter nor the ring.
\<close>

definition no_rtp :: "CRTP_MIDI \<Rightarrow> CRTP_MIDI \<Rightarrow> bool" where
  "no_rtp st st' \<longleftrightarrow>
     (\<exists>new. sent st' = sent st @ new \<and> rtp_seqs new = []) \<and>
     RTPSequence st' = RTPSequence st \<and> RTPStreamQueue st' = RTPStreamQueue st"

text \<open>The pointers of the ring are indices of its array.\<close>

definition ring_ok :: "TMIDI_FIFO_CHAR \<Rightarrow> bool" where
  "ring_ok q \<longleftrightarrow> ReadPtr q < MIDI_CHAR_FIFO_SIZE \<and> WritePtr q < MIDI_CHAR_FIFO_SIZE"

text \<open>
  The view of the ring that the claims use: the pointer that follows a pointer (the step
  both loops make), the number of bytes waiting between the read pointer and the write
  pointer, the room left (one slot of the array stays empty), and the waiting bytes in the
  order the consumer will read them.
\<close>

definition wsucc :: "nat \<Rightarrow> nat" where
  "wsucc p = (if p + 1 \<ge> MIDI_CHAR_FIFO_SIZE then 0 else p + 1)"

definition ring_used :: "TMIDI_FIFO_CHAR \<Rightarrow> nat" where
  "ring_used q = (WritePtr q + MIDI_CHAR_FIFO_SIZE - ReadPtr q) mod MIDI_CHAR_FIFO_SIZE"

definition ring_free :: "TMIDI_FIFO_CHAR \<Rightarrow> nat" where
  "ring_free q = MIDI_CHAR_FIFO_SIZE - 1 - ring_used q"

definition ring_contents :: "TMIDI_FIFO_CHAR \<Rightarrow> u8 list" where
  "ring_contents q =
     map (\<lambda>k. FIFO q ((ReadPtr q + k) mod MIDI_CHAR_FIFO_SIZE)) [0..<ring_used q]"

section \<open>Concrete objects\<close>

text \<open>The memory of a fresh object in which every byte is zero.\<close>

definition zero_decoder :: rtp_decoder where
  "zero_decoder =
     \<lparr>RTPCallback = False, SYSEX_RTPActif = False, FullInMidiMsg = (\<lambda>i. 0),
      IncomingThirdByte = False, RTPRunningStatus = 0, InSYSEXBufferSize = 0,
      SegmentSYSEXInput = False, InSYSEXBuffer = None, InSYSEXBufferPtr = 0,
      InSYSEXOverflow = False, delivered = []\<rparr>"

definition zero_object :: CRTP_MIDI where
  "zero_object =
     \<lparr>LocalClock = 0, RemoteIPToInvite = 0, SessionPartnerIP = 0, PartnerControlPort = 0,
      PartnerDataPort = 0, EndpointLocked = False, SSRC = 0, RTPSequence = 0,
      LastRTPCounter = 0, LastFeedbackCounter = 0, SessionState = SESSION_CLOSED,
      InviteCount = 0, InitiatorToken = 0, IsInitiatorNode = False, TimeOutRemote = 0,
      SyncSequenceCounter = 0, MeasuredLatency = 0, TimerRunning = False, EventTime = 0,
      TimeCounter = 0,
      RTPStreamQueue = \<lparr>FIFO = (\<lambda>i. 0), ReadPtr = 0, WritePtr = 0\<rparr>,
      decoder = zero_decoder,
      TS1H = 0, TS1L = 0, TS2H = 0, TS2L = 0, TS3H = 0, TS3L = 0,
      ConnectionLost = False, PeerClosedSession = False, ConnectionRefused = False,
      sent = []\<rparr>"

text \<open>A datagram of the given bytes from the given sender.\<close>

definition packet_of :: "u32 \<Rightarrow> u16 \<Rightarrow> u8 list \<Rightarrow> packet" where
  "packet_of ip port xs =
     \<lparr>SenderIP = ip, SenderPort = port, RecvSize = int (length xs), Buffer = bytes_of xs\<rparr>"

text \<open>The decoder of an endpoint constructed with a SYSEX buffer of 4 bytes and a callback.\<close>

definition decoder_4 :: rtp_decoder where
  "decoder_4 = decoder (CRTP_MIDI_new 4 True (\<lambda>i. 0) zero_object)"

text \<open>
  An endpoint constructed with a SYSEX buffer of 16 bytes and a callback, and the same
  endpoint with its session opened with the partner 192.168.0.253.
\<close>

definition closed_object :: CRTP_MIDI where
  "closed_object = CRTP_MIDI_new 16 True (\<lambda>i. 0) zero_object"

definition opened_object :: CRTP_MIDI where
  "opened_object =
     closed_object\<lparr>SessionState := SESSION_OPENED, EndpointLocked := False,
                   SessionPartnerIP := 0xC0A800FD, PartnerControlPort := 5004,
                   PartnerDataPort := 5005, TimeOutRemote := 4\<rparr>"

text \<open>
  A session opened by an initiator, call by call. The endpoint is constructed and
  \<open>InitiateSession\<close> invites the partner 192.168.0.253 on the ports 5004 and 5005. The
  partner answers OK on the control port, OK on the data port, and CK with count 1 after
  the endpoint's CK with count 0. Then the partner sends an RTP-MIDI datagram whose MIDI
  list, of two bytes, starts a SYSEX message: F0 01. The last datagram carries a whole
  SYSEX message of three bytes: F0 05 F7.
\<close>

definition OK_datagram :: "u8 list" where
  "OK_datagram =
     [0xFF, 0xFF, 0x4F, 0x4B, 0, 0, 0, 2, 0xAA, 0xAA, 0xAA, 0xAA, 0x22, 0x22, 0x22, 0x22]"

definition CK0_datagram :: "u8 list" where
  "CK0_datagram =
     [0xFF, 0xFF, 0x43, 0x4B, 0x22, 0x22, 0x22, 0x22, 0, 0, 0, 0,
      0, 0, 0, 0, 0, 0, 0, 7, 0, 0, 0, 0, 0, 0, 0, 0, 0, 0, 0, 0, 0, 0, 0, 0]"

definition CK1_datagram :: "u8 list" where
  "CK1_datagram =
     [0xFF, 0xFF, 0x43, 0x4B, 0x22, 0x22, 0x22, 0x22, 1, 0, 0, 0,
      0, 0, 0, 0, 0, 0, 0, 40, 0, 0, 0, 0, 0, 0, 0, 9, 0, 0, 0, 0, 0, 0, 0, 0]"

definition IN_datagram :: "u8 list" where
  "IN_datagram =
     [0xFF, 0xFF, 0x49, 0x4E, 0, 0, 0, 2, 0xAA, 0xAA, 0xAA, 0xAA, 0x22, 0x22, 0x22, 0x22]"

definition SYSEX_start_datagram :: "u8 list" where
  "SYSEX_start_datagram =
     [0x80, 0x61, 0, 1, 0, 0, 0, 0, 0x22, 0x22, 0x22, 0x22, 0x02, 0xF0, 0x01]"

definition SYSEX_whole_datagram :: "u8 list" where
  "SYSEX_whole_datagram =
     [0x80, 0x61, 0, 2, 0, 0, 0, 0, 0x22, 0x22, 0x22, 0x22, 0x03, 0xF0, 0x05, 0xF7]"

definition initiated_object :: CRTP_MIDI where
  "initiated_object =
     snd (InitiateSession 0xC0A800FD 5004 5005 True 0xAAAAAAAA 0x11111111 True True closed_object)"

definition listening_object :: CRTP_MIDI where
  "listening_object =
     snd (InitiateSession 0 0 0 False 0xAAAAAAAA 0x11111111 True True closed_object)"

definition handshake :: "host_call list" where
  "handshake =
     [Call_RunSession [],
      Call_RunSession [(Some (packet_of 0xC0A800FD 5004 OK_datagram), None)],
      Call_RunSession [(None, Some (packet_of 0xC0A800FD 5005 OK_datagram))],
      Call_RunSession [],
      Call_RunSession [(None, Some (packet_of 0xC0A800FD 5005 CK1_datagram))]]"

section \<open>Delta times: the claims\<close>

text \<open>
  Facts on bytes: a byte below 0x80 has its high bit clear, and the conversion of a
  \<open>char\<close> to \<open>unsigned int\<close> extends the sign of a byte whose high bit is set.
\<close>

lemma byte_less:
  assumes "g < 128"
  shows "(of_nat g :: u8) < 0x80"
  using assms by (simp add: word_less_nat_alt unat_of_nat)

lemma byte_high_clear:
  fixes y :: u8
  assumes "y < 0x80"
  shows "y AND 0x80 = 0" and "y AND 0x7F = y" and "\<not> bit y 7"
proof -
  have m: "(mask 7 :: u8) = 0x7F" by (simp add: mask_eq_exp_minus_1)
  have "y < 2 ^ 7" using assms by simp
  then have e: "y AND mask 7 = y" by (rule less_mask_eq)
  then show "y AND 0x7F = y" by (simp add: m)
  have "y AND 0x80 = (y AND mask 7) AND 0x80" using e by simp
  also have "\<dots> = y AND (mask 7 AND 0x80)" by (simp add: and.assoc)
  also have "(mask 7 :: u8) AND 0x80 = 0" by (simp add: m)
  finally show z: "y AND 0x80 = 0" by simp
  have "y AND 2 ^ 7 = 0" using z by simp
  then show "\<not> bit y 7" unfolding and_exp_eq_0_iff_not_bit .
qed

lemma sint_byte:
  fixes w :: u8
  shows "sint w = uint w - 256 * of_bool (bit w 7)"
proof -
  have "sint w = signed_take_bit 7 (uint w)"
    by (simp add: sint_uint)
  also have "\<dots> = take_bit 8 (uint w) - 2 ^ 8 * of_bool (bit (uint w) 7)"
    by (simp add: signed_take_bit_eq_take_bit_minus)
  also have "take_bit 8 (uint w) = uint w"
    by (rule take_bit_int_eq_self) (use uint_lt2p [of w] in simp_all)
  also have "bit (uint w) 7 = bit w 7"
    by (simp add: bit_uint_iff)
  finally show ?thesis by simp
qed

lemma scast_byte_pos:
  fixes w :: u8
  assumes "\<not> bit w 7"
  shows "(scast w :: u32) = ucast w"
proof -
  have "sint w = uint w" using assms by (simp add: sint_byte)
  then show ?thesis by (simp only: scast_eq ucast_eq)
qed

lemma scast_byte_neg:
  fixes w :: u8
  assumes "bit w 7"
  shows "(scast w :: u32) = ucast w - 256"
proof -
  have "sint w = uint w - 256" using assms by (simp add: sint_byte)
  then have "(scast w :: u32) = word_of_int (uint w - 256)" by (simp only: scast_eq)
  also have "\<dots> = word_of_int (uint w) - word_of_int 256" by (simp only: of_int_diff)
  also have "\<dots> = ucast w - 256" by (simp only: ucast_eq of_int_numeral)
  finally show ?thesis .
qed

text \<open>A byte that carries seven bits of a quantity, without and with the high bit.\<close>

lemma group_byte:
  assumes "g < 128"
  shows "(of_nat g :: u8) AND 0x80 = 0"
    and "(ucast (of_nat g :: u8) :: u32) = of_nat g"
    and "(scast (of_nat g :: u8) :: u32) = of_nat g"
    and "(ucast (of_nat g :: u8) :: u32) AND 0x80 = 0"
proof -
  let ?y = "of_nat g :: u8"
  have y: "?y < 0x80" using assms by (rule byte_less)
  show z: "?y AND 0x80 = 0" using y by (rule byte_high_clear(1))
  have "(ucast ?y :: u32) AND 0x80 = ucast (?y AND 0x80)" by (simp add: unsigned_and_eq)
  then show "(ucast ?y :: u32) AND 0x80 = 0" using z by simp
  have "take_bit 8 g = g" using assms by (simp add: take_bit_nat_eq_self)
  then show u: "(ucast ?y :: u32) = of_nat g" by (simp add: unsigned_of_nat)
  show "(scast ?y :: u32) = of_nat g"
    using scast_byte_pos [OF byte_high_clear(3) [OF y]] u by simp
qed

lemma group_byte_high:
  assumes "g < 128"
  shows "(of_nat g OR 0x80 :: u8) AND 0x80 \<noteq> 0"
    and "(ucast (of_nat g OR 0x80 :: u8) :: u32) AND 0x80 \<noteq> 0"
    and "(ucast (of_nat g OR 0x80 :: u8) :: u32) AND 0x7F = of_nat g"
    and "(ucast (of_nat g OR 0x80 :: u8) :: u32) = of_nat g + 128"
    and "(scast (of_nat g OR 0x80 :: u8) :: u32) = of_nat g - 128"
proof -
  let ?y = "of_nat g :: u8"
  let ?u = "ucast ?y :: u32"
  have y: "?y < 0x80" using assms by (rule byte_less)
  have u: "?u = of_nat g" using assms by (rule group_byte(2))
  show "(?y OR 0x80) AND 0x80 \<noteq> 0" by simp
  have o: "(ucast (?y OR 0x80) :: u32) = ?u OR 0x80"
    by (simp add: unsigned_or_eq)
  have z: "?u AND 0x80 = 0"
  proof -
    have "?u AND 0x80 = ucast (?y AND 0x80)" by (simp add: unsigned_and_eq)
    then show ?thesis using byte_high_clear(1) [OF y] by simp
  qed
  have m: "?u AND 0x7F = ?u"
  proof -
    have "?u AND 0x7F = ucast (?y AND 0x7F)" by (simp add: unsigned_and_eq)
    then show ?thesis using byte_high_clear(2) [OF y] by simp
  qed
  show "(ucast (?y OR 0x80) :: u32) AND 0x80 \<noteq> 0"
    unfolding o by simp
  have "(?u OR 0x80) AND 0x7F = (?u AND 0x7F) OR (0x80 AND 0x7F)"
    by (simp only: bit.conj_disj_distrib2)
  then show "(ucast (?y OR 0x80) :: u32) AND 0x7F = of_nat g"
    unfolding o using m u by simp
  have "?u + 0x80 = ?u OR 0x80" using z by (rule disjunctive_add_eq_or)
  then show p: "(ucast (?y OR 0x80) :: u32) = of_nat g + 128"
    unfolding o using u by simp
  have "bit (?y OR 0x80) 7" by (simp add: bit_or_iff)
  then have "(scast (?y OR 0x80) :: u32) = ucast (?y OR 0x80) - 256"
    by (rule scast_byte_neg)
  then show "(scast (?y OR 0x80) :: u32) = of_nat g - 128"
    unfolding p by simp
qed


text \<open>The quantities of one, two, three and four bytes.\<close>

lemma vlq_encode_bytes:
  "vlq_encode v =
     (if v div 128 = 0 then [of_nat (v mod 128)]
      else if v div 128 div 128 = 0 then
        [of_nat (v div 128 mod 128) OR 0x80, of_nat (v mod 128)]
      else if v div 128 div 128 div 128 = 0 then
        [of_nat (v div 128 div 128 mod 128) OR 0x80, of_nat (v div 128 mod 128) OR 0x80,
         of_nat (v mod 128)]
      else
        [of_nat (v div 128 div 128 div 128 mod 128) OR 0x80,
         of_nat (v div 128 div 128 mod 128) OR 0x80, of_nat (v div 128 mod 128) OR 0x80,
         of_nat (v mod 128)])"
  by (simp add: vlq_encode_def numeral_3_eq_3)

lemma GetDeltaTime_on_one_byte:
  assumes "(ucast y0 :: u32) AND 0x80 = 0"
  shows "GetDeltaTime sg (bytes_of [y0]) 0 = (ucast y0, 1)"
  using assms by (simp add: GetDeltaTime_def bytes_of_def Let_def)

lemma GetDeltaTime_on_two_bytes:
  assumes "(ucast y1 :: u32) AND 0x80 \<noteq> 0" "y0 AND 0x80 = 0"
  shows "GetDeltaTime sg (bytes_of [y1, y0]) 0 =
         (push_bit 7 (ucast y1 AND 0x7F) + char_to_uint sg y0, 2)"
  using assms
  by (simp add: GetDeltaTime_def GetDeltaTime_loop.simps bytes_of_def Let_def)

lemma GetDeltaTime_on_three_bytes:
  assumes "(ucast y2 :: u32) AND 0x80 \<noteq> 0" "y1 AND 0x80 \<noteq> 0" "y0 AND 0x80 = 0"
  shows "GetDeltaTime sg (bytes_of [y2, y1, y0]) 0 =
         (push_bit 7 (push_bit 7 (ucast y2 AND 0x7F) + char_to_uint sg y1) + char_to_uint sg y0, 3)"
  using assms
  by (simp add: GetDeltaTime_def GetDeltaTime_loop.simps bytes_of_def Let_def)

lemma GetDeltaTime_on_four_bytes:
  assumes "(ucast y3 :: u32) AND 0x80 \<noteq> 0" "y2 AND 0x80 \<noteq> 0" "y1 AND 0x80 \<noteq> 0"
    "y0 AND 0x80 = 0"
  shows "GetDeltaTime sg (bytes_of [y3, y2, y1, y0]) 0 =
         (push_bit 7 (push_bit 7 (push_bit 7 (ucast y3 AND 0x7F) + char_to_uint sg y2)
            + char_to_uint sg y1) + char_to_uint sg y0, 4)"
  using assms
  by (simp add: GetDeltaTime_def GetDeltaTime_loop.simps bytes_of_def Let_def)


text \<open>
  What \<open>GetDeltaTime\<close> returns on the quantity of a value below \<open>2 ^ 28\<close>: the
  counter advances by the number of bytes; the value is right for the quantities of one
  and two bytes, and off by the high bits of the middle bytes for those of three and four.
\<close>

lemma GetDeltaTime_vlq_encode:
  assumes "v < 2 ^ 28"
  shows "GetDeltaTime sg (bytes_of (vlq_encode v)) 0 =
           (of_nat v + (if v < 2 ^ 14 then 0 else if v < 2 ^ 21 then 2 ^ 14 else 2 ^ 21 + 2 ^ 14)
                         * (if sg then - 1 else 1),
            length (vlq_encode v))"
proof -
  define w1 where "w1 = v div 128"
  define w2 where "w2 = w1 div 128"
  define w3 where "w3 = w2 div 128"
  define a where "a = w3 mod 128"
  define b where "b = w2 mod 128"
  define c where "c = w1 mod 128"
  define d where "d = v mod 128"
  have lt: "a < 128" "b < 128" "c < 128" "d < 128"
    by (simp_all add: a_def b_def c_def d_def)
  have v: "v = w1 * 128 + d" by (simp add: w1_def d_def)
  have w1: "w1 = w2 * 128 + c" by (simp add: w2_def c_def)
  have w2: "w2 = w3 * 128 + b" by (simp add: w3_def b_def)
  have "w3 < 128" using assms unfolding v w1 w2 by simp
  then have w3: "w3 = a" by (simp add: a_def)
  have enc: "vlq_encode v =
     (if w1 = 0 then [of_nat d]
      else if w2 = 0 then [of_nat c OR 0x80, of_nat d]
      else if w3 = 0 then [of_nat b OR 0x80, of_nat c OR 0x80, of_nat d]
      else [of_nat a OR 0x80, of_nat b OR 0x80, of_nat c OR 0x80, of_nat d])"
    unfolding vlq_encode_bytes w1_def w2_def w3_def a_def b_def c_def d_def ..
  have low: "char_to_uint sg (of_nat d) = of_nat d"
    using group_byte(2,3) [OF lt(4)] by (simp add: char_to_uint_def)
  have high: "char_to_uint sg (of_nat g OR 0x80) = of_nat g + 128 * (if sg then - 1 else 1)"
    if "g < 128" for g
    using group_byte_high(4,5) [OF that] by (simp add: char_to_uint_def)
  consider (one) "w1 = 0" | (two) "w1 \<noteq> 0" "w2 = 0" | (three) "w1 \<noteq> 0" "w2 \<noteq> 0" "w3 = 0"
    | (four) "w1 \<noteq> 0" "w2 \<noteq> 0" "w3 \<noteq> 0"
    by blast
  then show ?thesis
  proof cases
    case one
    then have vd: "v = d" using v by simp
    then have small: "v < 2 ^ 14" using lt(4) by simp
    have "GetDeltaTime sg (bytes_of [of_nat d]) 0 = (ucast (of_nat d :: u8), 1)"
      using group_byte(4) [OF lt(4)] by (rule GetDeltaTime_on_one_byte)
    then show ?thesis
      using one small group_byte(2) [OF lt(4)] vd unfolding enc by simp
  next
    case two
    then have vd: "v = c * 128 + d" using v w1 by simp
    then have small: "v < 2 ^ 14" using lt by simp
    have "GetDeltaTime sg (bytes_of [of_nat c OR 0x80, of_nat d]) 0 =
          (push_bit 7 (ucast (of_nat c OR 0x80 :: u8) AND 0x7F) + char_to_uint sg (of_nat d), 2)"
      using group_byte_high(2) [OF lt(3)] group_byte(1) [OF lt(4)]
      by (rule GetDeltaTime_on_two_bytes)
    then have "GetDeltaTime sg (bytes_of [of_nat c OR 0x80, of_nat d]) 0 =
          (of_nat c * 128 + of_nat d, 2)"
      unfolding group_byte_high(3) [OF lt(3)] low by (simp add: push_bit_eq_mult)
    moreover have "(of_nat v :: u32) = of_nat c * 128 + of_nat d"
      unfolding vd by simp
    ultimately show ?thesis
      using two small unfolding enc by simp
  next
    case three
    then have vd: "v = (b * 128 + c) * 128 + d" using v w1 w2 by simp
    have "0 < b" using three w2 by simp
    then have range: "\<not> v < 2 ^ 14" "v < 2 ^ 21" using lt unfolding vd by simp_all
    have "GetDeltaTime sg (bytes_of [of_nat b OR 0x80, of_nat c OR 0x80, of_nat d]) 0 =
          (push_bit 7 (push_bit 7 (ucast (of_nat b OR 0x80 :: u8) AND 0x7F)
             + char_to_uint sg (of_nat c OR 0x80)) + char_to_uint sg (of_nat d), 3)"
      using group_byte_high(2) [OF lt(2)] group_byte_high(1) [OF lt(3)] group_byte(1) [OF lt(4)]
      by (rule GetDeltaTime_on_three_bytes)
    then have "GetDeltaTime sg (bytes_of [of_nat b OR 0x80, of_nat c OR 0x80, of_nat d]) 0 =
          ((of_nat b * 128 + (of_nat c + 128 * (if sg then - 1 else 1))) * 128 + of_nat d, 3)"
      unfolding group_byte_high(3) [OF lt(2)] low high [OF lt(3)] by (simp add: push_bit_eq_mult)
    moreover have "(of_nat v :: u32) = (of_nat b * 128 + of_nat c) * 128 + of_nat d"
      unfolding vd by simp
    ultimately show ?thesis
      using three range unfolding enc by (simp add: algebra_simps)
  next
    case four
    then have vd: "v = ((a * 128 + b) * 128 + c) * 128 + d" using v w1 w2 w3 by simp
    have "0 < a" using four w3 by simp
    then have range: "\<not> v < 2 ^ 14" "\<not> v < 2 ^ 21" using lt unfolding vd by simp_all
    have "GetDeltaTime sg (bytes_of [of_nat a OR 0x80, of_nat b OR 0x80, of_nat c OR 0x80, of_nat d]) 0 =
          (push_bit 7 (push_bit 7 (push_bit 7 (ucast (of_nat a OR 0x80 :: u8) AND 0x7F)
             + char_to_uint sg (of_nat b OR 0x80))
             + char_to_uint sg (of_nat c OR 0x80)) + char_to_uint sg (of_nat d), 4)"
      using group_byte_high(2) [OF lt(1)] group_byte_high(1) [OF lt(2)]
        group_byte_high(1) [OF lt(3)] group_byte(1) [OF lt(4)]
      by (rule GetDeltaTime_on_four_bytes)
    then have "GetDeltaTime sg (bytes_of [of_nat a OR 0x80, of_nat b OR 0x80, of_nat c OR 0x80, of_nat d]) 0 =
          (((of_nat a * 128 + (of_nat b + 128 * (if sg then - 1 else 1))) * 128
             + (of_nat c + 128 * (if sg then - 1 else 1))) * 128 + of_nat d, 4)"
      unfolding group_byte_high(3) [OF lt(1)] low high [OF lt(2)] high [OF lt(3)]
      by (simp add: push_bit_eq_mult)
    moreover have "(of_nat v :: u32) = ((of_nat a * 128 + of_nat b) * 128 + of_nat c) * 128 + of_nat d"
      unfolding vd by simp
    ultimately show ?thesis
      using four range unfolding enc by (simp add: algebra_simps)
  qed
qed

text \<open>The counter is right for every value; the value is right exactly below \<open>2 ^ 14\<close>.\<close>

lemma GetDeltaTime_vlq_encode_counter:
  assumes "v < 2 ^ 28"
  shows "snd (GetDeltaTime sg (bytes_of (vlq_encode v)) 0) = length (vlq_encode v)"
  unfolding GetDeltaTime_vlq_encode [OF assms] by simp

lemma GetDeltaTime_vlq_encode_value:
  assumes "v < 2 ^ 28"
  shows "fst (GetDeltaTime sg (bytes_of (vlq_encode v)) 0) = of_nat v \<longleftrightarrow> v < 2 ^ 14"
  unfolding GetDeltaTime_vlq_encode [OF assms] by simp

lemma vlq_encode_16384: "vlq_encode 16384 = [0x81, 0x80, 0x00]"
  by (simp add: vlq_encode_def numeral_3_eq_3)

text \<open>
  Claim C1. Decoding with \<open>GetDeltaTime\<close>, from offset 0, the variable-length quantity
  of a value below \<open>2 ^ 28\<close> should return the value and advance the counter by the number
  of bytes. At the value 16384, whose quantity is the three bytes 81 80 00, the counter
  advances by 3 but the value returned is 0 where \<open>char\<close> is signed and 32768 where it is
  unsigned: the loop adds every byte after the first without masking its high bit. (By
  \<open>GetDeltaTime_vlq_encode\<close> the counter is right for every value below \<open>2 ^ 28\<close>, and
  the value is right for the values below \<open>2 ^ 14\<close> and for no other.)
\<close>

theorem GetDeltaTime_three_bytes:
  "vlq_encode 16384 = [0x81, 0x80, 0x00] \<and>
   GetDeltaTime True (bytes_of (vlq_encode 16384)) 0 = (0, 3) \<and>
   GetDeltaTime False (bytes_of (vlq_encode 16384)) 0 = (32768, 3)"
  by (simp add: vlq_encode_16384 GetDeltaTime_def GetDeltaTime_loop.simps bytes_of_def
      char_to_uint_def Let_def)

text \<open>\<open>GenerateMIDIEvent\<close> keeps its counter within the block.\<close>

lemma GenerateMIDIEvent_within_block:
  "c \<le> T \<Longrightarrow> fst (GenerateMIDIEvent B c T t d) \<le> T"
proof (induction B c T t d rule: GenerateMIDIEvent.induct)
  case (1 B c T t d)
  show ?case
  proof (cases "c < T")
    case True
    obtain f d' where fd: "GenerateMIDIEvent_byte (B c) t d = (f, d')"
      by (cases "GenerateMIDIEvent_byte (B c) t d")
    show ?thesis
    proof (cases f)
      case Return
      with True fd show ?thesis
        by (subst GenerateMIDIEvent.simps) simp
    next
      case NextByte
      with 1 True fd have "fst (GenerateMIDIEvent B (c + 1) T t d') \<le> T"
        by simp
      with True fd NextByte show ?thesis
        by (subst GenerateMIDIEvent.simps) simp
    qed
  next
    case False
    with 1 show ?thesis
      by (subst GenerateMIDIEvent.simps) simp
  qed
qed

text \<open>It reads the block only: the bytes from the end of the block on do not matter.\<close>

lemma GenerateMIDIEvent_reads_block:
  "\<forall>i<T. B i = B' i \<Longrightarrow> GenerateMIDIEvent B c T t d = GenerateMIDIEvent B' c T t d"
proof (induction B c T t d rule: GenerateMIDIEvent.induct)
  case (1 B c T t d)
  show ?case
  proof (cases "c < T")
    case True
    then have eq: "B c = B' c" using 1(2) by simp
    obtain f d' where fd: "GenerateMIDIEvent_byte (B c) t d = (f, d')"
      by (cases "GenerateMIDIEvent_byte (B c) t d")
    show ?thesis
    proof (cases f)
      case Return
      with True fd eq show ?thesis
        by (subst GenerateMIDIEvent.simps, subst (2) GenerateMIDIEvent.simps) simp
    next
      case NextByte
      with 1 True fd have "GenerateMIDIEvent B (c + 1) T t d' = GenerateMIDIEvent B' (c + 1) T t d'"
        by simp
      with True fd eq NextByte show ?thesis
        by (subst GenerateMIDIEvent.simps, subst (2) GenerateMIDIEvent.simps) simp
    qed
  next
    case False
    then show ?thesis
      by (subst GenerateMIDIEvent.simps, subst (2) GenerateMIDIEvent.simps) simp
  qed
qed

text \<open>
  Claim C10. Decoding a datagram should read the MIDI list only below the length its
  header declares. For the datagram whose control byte 21 declares a list of one byte
  preceded by a delta time, and whose list byte 80 has its high bit set, \<open>GetDeltaTime\<close>
  reads the bytes at indices 0 and 1 of the list and leaves the counter at 2, past the
  declared length 1; \<open>ProcessIncomingRTP\<close> ends with that counter. (\<open>GenerateMIDIEvent\<close>,
  which is given the length, stays below it, as the two lemmas above say.)
\<close>

theorem GetDeltaTime_past_list_end:
  "payload_header (bytes_of [0x80, 0x61, 0, 1, 0, 0, 0, 0, 0, 0, 0, 0, 0x21, 0x80, 0x00]) = (1, True, 13) \<and>
   snd (GetDeltaTime sg (\<lambda>i. bytes_of [0x80, 0x61, 0, 1, 0, 0, 0, 0, 0, 0, 0, 0, 0x21, 0x80, 0x00] (13 + i)) 0) = 2 \<and>
   fst (ProcessIncomingRTP_list sg
         (\<lambda>i. bytes_of [0x80, 0x61, 0, 1, 0, 0, 0, 0, 0, 0, 0, 0, 0x21, 0x80, 0x00] (13 + i))
         1 True clk d) = 2"
  by (simp add: payload_header_def bytes_of_def GetDeltaTime_def GetDeltaTime_loop.simps
      char_to_uint_def Let_def ProcessIncomingRTP_list_def ProcessIncomingRTP_scan.simps)

section \<open>The SYSEX decoder: the claims\<close>

lemmas decoder_eval = decoder_4_def CRTP_MIDI_new_def zero_object_def zero_decoder_def
  initRTP_SYSEXBuffer_def ProcessIncomingRTP_list_def GenerateMIDIEvent.simps
  GenerateMIDIEvent_byte_def storeRTP_SYSEXData_def sendRTP_SYSEXBuffer_def
  ProcessIncomingRTP_scan.simps bytes_of_def Let_def upt_rec

text \<open>
  Claim C2. A SYSEX message sent as \<open>F0 b1 F0\<close> in one datagram and \<open>F7 b2 F7\<close> in the
  next should reach the callback once, as \<open>F0 b1 b2 F7\<close>, when its length is within the
  size of the buffer. With a buffer of 4 bytes, \<open>b1\<close> the byte 01 and \<open>b2\<close> the byte 02,
  the message has 4 bytes and the callback receives the 3 bytes \<open>F0 01 02\<close>: the fill
  index stops at the size minus one, so the closing F7 is stored but not counted. (A message
  shorter than the buffer is delivered whole: \<open>SYSEX_two_packets_shorter\<close>, at the end of
  this section.)
\<close>

theorem SYSEX_two_packets_full_buffer:
  "delivered
     (snd (ProcessIncomingRTP_list True (bytes_of [0xF7, 0x02, 0xF7]) 3 False 20
        (snd (ProcessIncomingRTP_list True (bytes_of [0xF0, 0x01, 0xF0]) 3 False 10 decoder_4))))
   = [(3, [0xF0, 0x01, 0x02], 20)]"
  by (simp add: decoder_eval)


lemma data_byte_not_status:
  fixes x :: u8
  assumes "x < 0x80"
  shows "x \<noteq> 0xF0" and "x \<noteq> 0xF7" and "x \<noteq> 0xF4"
  using assms by auto

lemma storeRTP_SYSEXData_flags [simp]:
  "SYSEX_RTPActif (storeRTP_SYSEXData x d) = SYSEX_RTPActif d"
  "SegmentSYSEXInput (storeRTP_SYSEXData x d) = SegmentSYSEXInput d"
  "RTPCallback (storeRTP_SYSEXData x d) = RTPCallback d"
  "delivered (storeRTP_SYSEXData x d) = delivered d"
  "InSYSEXBufferSize (storeRTP_SYSEXData x d) = InSYSEXBufferSize d"
  by (simp_all add: storeRTP_SYSEXData_def Let_def split: option.splits)

lemma fold_store_flags [simp]:
  "SYSEX_RTPActif (fold storeRTP_SYSEXData xs d) = SYSEX_RTPActif d"
  "SegmentSYSEXInput (fold storeRTP_SYSEXData xs d) = SegmentSYSEXInput d"
  "RTPCallback (fold storeRTP_SYSEXData xs d) = RTPCallback d"
  "delivered (fold storeRTP_SYSEXData xs d) = delivered d"
  "InSYSEXBufferSize (fold storeRTP_SYSEXData xs d) = InSYSEXBufferSize d"
  by (induction xs arbitrary: d; simp)+

text \<open>Data bytes of a SYSEX in progress are stored one after the other.\<close>

lemma GenerateMIDIEvent_data:
  assumes "\<forall>x\<in>set xs. x < 0x80" "SYSEX_RTPActif d" "SegmentSYSEXInput d"
    "\<forall>i<length xs. B (c + i) = xs ! i" "c + length xs \<le> T"
  shows "GenerateMIDIEvent B c T t d =
         GenerateMIDIEvent B (c + length xs) T t (fold storeRTP_SYSEXData xs d)"
  using assms
proof (induction xs arbitrary: c d)
  case Nil
  then show ?case by simp
next
  case (Cons x xs)
  from Cons.prems have x: "x < 0x80" and Bc: "B c = x" and cT: "c < T"
    by auto
  have step: "GenerateMIDIEvent_byte x t d = (NextByte, storeRTP_SYSEXData x d)"
    using x Cons.prems(2,3) data_byte_not_status [OF x]
    by (simp add: GenerateMIDIEvent_byte_def)
  have "GenerateMIDIEvent B c T t d = GenerateMIDIEvent B (c + 1) T t (storeRTP_SYSEXData x d)"
    using cT Bc step by (subst GenerateMIDIEvent.simps) simp
  also have "\<dots> = GenerateMIDIEvent B (c + 1 + length xs) T t
                    (fold storeRTP_SYSEXData xs (storeRTP_SYSEXData x d))"
  proof (rule Cons.IH)
    show "\<forall>x\<in>set xs. x < 0x80" using Cons.prems(1) by simp
    show "SYSEX_RTPActif (storeRTP_SYSEXData x d)" using Cons.prems(2) by simp
    show "SegmentSYSEXInput (storeRTP_SYSEXData x d)" using Cons.prems(3) by simp
    show "\<forall>i<length xs. B (c + 1 + i) = xs ! i"
    proof (intro allI impI)
      fix i assume "i < length xs"
      then have "B (c + Suc i) = (x # xs) ! Suc i" using Cons.prems(4) by (metis Suc_less_eq length_Cons)
      then show "B (c + 1 + i) = xs ! i" by simp
    qed
    show "c + 1 + length xs \<le> T" using Cons.prems(5) by simp
  qed
  finally show ?case by simp
qed

text \<open>
  What storing a sequence of bytes from an empty buffer leaves: the fill index stops at
  the size minus one, the bytes below it are those stored first, and the overflow flag is
  set as soon as as many bytes as the size have been stored.
\<close>

lemma fold_store_from_empty:
  assumes "InSYSEXBuffer d = Some buf" "InSYSEXBufferPtr d = 0"
    "0 < InSYSEXBufferSize d" "InSYSEXBufferSize d < 2 ^ 32"
  shows "\<exists>buf'. InSYSEXBuffer (fold storeRTP_SYSEXData xs d) = Some buf' \<and>
           (\<forall>i < min (length xs) (InSYSEXBufferSize d - 1). buf' i = xs ! i) \<and>
           InSYSEXBufferPtr (fold storeRTP_SYSEXData xs d) = min (length xs) (InSYSEXBufferSize d - 1) \<and>
           InSYSEXOverflow (fold storeRTP_SYSEXData xs d) =
             (InSYSEXOverflow d \<or> InSYSEXBufferSize d \<le> length xs)"
proof (induction xs rule: rev_induct)
  case Nil
  then show ?case using assms by simp
next
  case (snoc x xs)
  let ?d = "fold storeRTP_SYSEXData xs d"
  let ?S = "InSYSEXBufferSize d"
  from snoc obtain buf' where b: "InSYSEXBuffer ?d = Some buf'"
    and c: "\<forall>i < min (length xs) (?S - 1). buf' i = xs ! i"
    and p: "InSYSEXBufferPtr ?d = min (length xs) (?S - 1)"
    and o: "InSYSEXOverflow ?d = (InSYSEXOverflow d \<or> ?S \<le> length xs)"
    by blast
  have wrap: "(?S + 2 ^ 32 - 1) mod 2 ^ 32 = ?S - 1"
    using assms(3,4) by (simp add: mod_if)
  have f: "fold storeRTP_SYSEXData (xs @ [x]) d = storeRTP_SYSEXData x ?d"
    by simp
  show ?case
  proof (cases "length xs < ?S - 1")
    case True
    then have "storeRTP_SYSEXData x ?d =
        ?d\<lparr>InSYSEXBuffer := Some (buf'(length xs := x)), InSYSEXBufferPtr := length xs + 1\<rparr>"
      using b p wrap by (simp add: storeRTP_SYSEXData_def Let_def)
    then show ?thesis
      using True c o unfolding f
      by (auto simp add: nth_append less_Suc_eq)
  next
    case False
    then have "storeRTP_SYSEXData x ?d =
        ?d\<lparr>InSYSEXBuffer := Some (buf'(?S - 1 := x)), InSYSEXOverflow := True\<rparr>"
      using b p wrap by (simp add: storeRTP_SYSEXData_def Let_def)
    then show ?thesis
      using False c p o assms(3) unfolding f
      by (auto simp add: nth_append)
  qed
qed

lemma GenerateMIDIEvent_end: "GenerateMIDIEvent B T T t d = (T, d)"
  by (subst GenerateMIDIEvent.simps) simp

lemma bytes_of_nth: "i < length xs \<Longrightarrow> bytes_of xs i = xs ! i"
  by (simp add: bytes_of_def)



lemma ProcessIncomingRTP_scan_end: "ProcessIncomingRTP_scan sg B T T clk d = (T, d)"
  by (subst ProcessIncomingRTP_scan.simps) simp



lemma fold_store_Segment:
  "fold storeRTP_SYSEXData xs (d\<lparr>SegmentSYSEXInput := v\<rparr>) =
   (fold storeRTP_SYSEXData xs d)\<lparr>SegmentSYSEXInput := v\<rparr>"
proof (induction xs arbitrary: d)
  case Nil
  then show ?case by simp
next
  case (Cons x xs)
  have "storeRTP_SYSEXData x (d\<lparr>SegmentSYSEXInput := v\<rparr>) =
        (storeRTP_SYSEXData x d)\<lparr>SegmentSYSEXInput := v\<rparr>"
    by (simp add: storeRTP_SYSEXData_def Let_def split: option.splits)
  then show ?case using Cons.IH by simp
qed

text \<open>The first segment of a SYSEX message, closed by F0: the message goes on.\<close>

lemma GenerateMIDIEvent_SYSEX_first_segment:
  assumes "\<not> SYSEX_RTPActif d" "\<forall>x\<in>set b. x < 0x80"
  shows "GenerateMIDIEvent (bytes_of (0xF0 # b @ [0xF0])) 0 (length b + 2) t d =
         (length b + 2,
          (fold storeRTP_SYSEXData (0xF0 # b)
             (d\<lparr>SYSEX_RTPActif := True, SegmentSYSEXInput := True\<rparr>))
          \<lparr>SegmentSYSEXInput := False\<rparr>)"
proof -
  let ?B = "bytes_of (0xF0 # b @ [0xF0])"
  let ?d' = "d\<lparr>SYSEX_RTPActif := True, SegmentSYSEXInput := True\<rparr>"
  let ?d2 = "fold storeRTP_SYSEXData b (storeRTP_SYSEXData 0xF0 ?d')"
  have "GenerateMIDIEvent ?B 0 (length b + 2) t d =
        GenerateMIDIEvent ?B 1 (length b + 2) t (storeRTP_SYSEXData 0xF0 ?d')"
    using assms(1)
    by (subst GenerateMIDIEvent.simps) (simp add: GenerateMIDIEvent_byte_def bytes_of_def)
  also have "\<dots> = GenerateMIDIEvent ?B (1 + length b) (length b + 2) t ?d2"
  proof (rule GenerateMIDIEvent_data)
    show "\<forall>x\<in>set b. x < 0x80" by (rule assms(2))
    show "SYSEX_RTPActif (storeRTP_SYSEXData 0xF0 ?d')" by simp
    show "SegmentSYSEXInput (storeRTP_SYSEXData 0xF0 ?d')" by simp
    show "\<forall>i<length b. ?B (1 + i) = b ! i"
      by (auto simp add: bytes_of_def nth_append)
    show "1 + length b \<le> length b + 2" by simp
  qed
  also have "\<dots> = GenerateMIDIEvent ?B (length b + 2) (length b + 2) t
                    (?d2\<lparr>SegmentSYSEXInput := False\<rparr>)"
    by (subst GenerateMIDIEvent.simps)
       (simp add: GenerateMIDIEvent_byte_def bytes_of_def nth_append)
  finally show ?thesis by (simp add: GenerateMIDIEvent_end)
qed

text \<open>The last segment of a SYSEX message, opened by F7 and closed by F7.\<close>

lemma GenerateMIDIEvent_SYSEX_last_segment:
  assumes "SYSEX_RTPActif d" "\<not> SegmentSYSEXInput d" "\<forall>x\<in>set b. x < 0x80"
  shows "GenerateMIDIEvent (bytes_of (0xF7 # b @ [0xF7])) 0 (length b + 2) t d =
         (length b + 2,
          initRTP_SYSEXBuffer (sendRTP_SYSEXBuffer t
            (fold storeRTP_SYSEXData (b @ [0xF7]) (d\<lparr>SegmentSYSEXInput := True\<rparr>))))"
proof -
  let ?B = "bytes_of (0xF7 # b @ [0xF7])"
  let ?d' = "d\<lparr>SegmentSYSEXInput := True\<rparr>"
  let ?d2 = "fold storeRTP_SYSEXData b ?d'"
  have "GenerateMIDIEvent ?B 0 (length b + 2) t d = GenerateMIDIEvent ?B 1 (length b + 2) t ?d'"
    using assms(1,2)
    by (subst GenerateMIDIEvent.simps) (simp add: GenerateMIDIEvent_byte_def bytes_of_def)
  also have "\<dots> = GenerateMIDIEvent ?B (1 + length b) (length b + 2) t ?d2"
  proof (rule GenerateMIDIEvent_data)
    show "\<forall>x\<in>set b. x < 0x80" by (rule assms(3))
    show "SYSEX_RTPActif ?d'" using assms(1) by simp
    show "SegmentSYSEXInput ?d'" by simp
    show "\<forall>i<length b. ?B (1 + i) = b ! i"
      by (auto simp add: bytes_of_def nth_append)
    show "1 + length b \<le> length b + 2" by simp
  qed
  also have "\<dots> = (length b + 2,
      initRTP_SYSEXBuffer (sendRTP_SYSEXBuffer t (storeRTP_SYSEXData 0xF7 ?d2)))"
    using assms(1)
    by (subst GenerateMIDIEvent.simps)
       (simp add: GenerateMIDIEvent_byte_def bytes_of_def nth_append)
  finally show ?thesis by simp
qed

text \<open>
  A SYSEX message sent as \<open>F0 b1 F0\<close> in one datagram and \<open>F7 b2 F7\<close> in the next, and
  shorter than the buffer, reaches the callback once and whole, with the time of the
  second datagram.
\<close>

lemma SYSEX_two_packets_shorter:
  assumes "\<not> SYSEX_RTPActif d" and "InSYSEXBufferPtr d = 0" and "InSYSEXBuffer d = Some buf"
    and "RTPCallback d" and "InSYSEXBufferSize d < 2 ^ 32"
    and "\<forall>x\<in>set b1. x < 0x80" and "\<forall>x\<in>set b2. x < 0x80"
    and "length b1 + length b2 + 2 < InSYSEXBufferSize d"
  shows "delivered
           (snd (ProcessIncomingRTP_list sg (bytes_of (0xF7 # b2 @ [0xF7])) (length b2 + 2) False clk2
              (snd (ProcessIncomingRTP_list sg (bytes_of (0xF0 # b1 @ [0xF0])) (length b1 + 2)
                      False clk1 d))))
         = delivered d @ [(length b1 + length b2 + 2, 0xF0 # b1 @ b2 @ [0xF7], clk2)]"
proof -
  let ?msg = "0xF0 # b1 @ b2 @ [0xF7]"
  let ?n = "length b1 + length b2 + 2"
  let ?d' = "d\<lparr>SYSEX_RTPActif := True, SegmentSYSEXInput := True\<rparr>"
  let ?d1 = "(fold storeRTP_SYSEXData (0xF0 # b1) ?d')\<lparr>SegmentSYSEXInput := False\<rparr>"
  let ?f = "fold storeRTP_SYSEXData ?msg ?d'"
  have first: "ProcessIncomingRTP_list sg (bytes_of (0xF0 # b1 @ [0xF0])) (length b1 + 2) False clk1 d
               = (length b1 + 2, ?d1)"
    using GenerateMIDIEvent_SYSEX_first_segment [OF assms(1) assms(6), of clk1]
    by (simp add: ProcessIncomingRTP_list_def ProcessIncomingRTP_scan_end)
  have a1: "SYSEX_RTPActif ?d1" "\<not> SegmentSYSEXInput ?d1" by simp_all
  have e: "?d1\<lparr>SegmentSYSEXInput := True\<rparr> = fold storeRTP_SYSEXData (0xF0 # b1) ?d'"
    using fold_store_Segment [where xs = "0xF0 # b1" and d = ?d' and v = True] by simp
  have glue: "fold storeRTP_SYSEXData (b2 @ [0xF7]) (?d1\<lparr>SegmentSYSEXInput := True\<rparr>) = ?f"
    unfolding e by simp
  have second: "ProcessIncomingRTP_list sg (bytes_of (0xF7 # b2 @ [0xF7])) (length b2 + 2) False clk2 ?d1
                = (length b2 + 2, initRTP_SYSEXBuffer (sendRTP_SYSEXBuffer clk2 ?f))"
    using GenerateMIDIEvent_SYSEX_last_segment [OF a1 assms(7), of clk2] glue
    by (simp add: ProcessIncomingRTP_list_def ProcessIncomingRTP_scan_end)
  have d': "InSYSEXBuffer ?d' = Some buf" "InSYSEXBufferPtr ?d' = 0"
    "0 < InSYSEXBufferSize ?d'" "InSYSEXBufferSize ?d' < 2 ^ 32"
    using assms by simp_all
  from fold_store_from_empty [OF d', of ?msg]
  obtain buf' where b: "InSYSEXBuffer ?f = Some buf'"
    and c: "\<forall>i < min (length ?msg) (InSYSEXBufferSize ?d' - 1). buf' i = ?msg ! i"
    and p: "InSYSEXBufferPtr ?f = min (length ?msg) (InSYSEXBufferSize ?d' - 1)"
    by blast
  define n where "n = length b1 + length b2 + 2"
  have ln: "length ?msg = n" by (simp add: n_def)
  have n: "InSYSEXBufferPtr ?f = n" using p assms(8) by (simp add: n_def)
  have c': "\<forall>i<n. buf' i = ?msg ! i" using c assms(8) by (simp add: n_def)
  have "map buf' [0..<n] = ?msg"
  proof (rule nth_equalityI)
    show "length (map buf' [0..<n]) = length ?msg" using ln by simp
    fix i assume "i < length (map buf' [0..<n])"
    then have i: "i < n" by simp
    then show "map buf' [0..<n] ! i = ?msg ! i" using c' by simp
  qed
  then have "delivered (initRTP_SYSEXBuffer (sendRTP_SYSEXBuffer clk2 ?f)) =
             delivered d @ [(n, ?msg, clk2)]"
    using b n assms(4) by (simp add: initRTP_SYSEXBuffer_def sendRTP_SYSEXBuffer_def)
  then show ?thesis unfolding first snd_conv second n_def by simp
qed

section \<open>The outbound ring: the claims\<close>

lemma ring_dist:
  fixes a b :: nat
  assumes "a < 2048" "b < 2048"
  shows "(a + 2048 - b) mod 2048 = (if b \<le> a then a - b else a + 2048 - b)"
proof (cases "b \<le> a")
  case True
  then obtain d where d: "a = b + d" by (auto simp add: le_iff_add)
  have "(d + 2048) mod 2048 = d mod 2048" by (rule mod_add_self2)
  moreover have "d < 2048" using assms(1) d by linarith
  ultimately have "(d + 2048) mod 2048 = d" by (simp only: mod_less)
  moreover have "a + 2048 - b = d + 2048" using d by linarith
  moreover have "a - b = d" using d by linarith
  ultimately show ?thesis using True by (simp only: if_True)
next
  case False
  then have "a + 2048 - b < 2048" using assms by linarith
  then have "(a + 2048 - b) mod 2048 = a + 2048 - b" by (rule mod_less)
  then show ?thesis using False by (simp only: if_False)
qed

lemma ring_index:
  fixes a k :: nat
  assumes "a < 2048" "k < 2048"
  shows "(a + k) mod 2048 = (if a + k < 2048 then a + k else a + k - 2048)"
proof (cases "a + k < 2048")
  case True
  then show ?thesis by simp
next
  case False
  then have "(a + k) mod 2048 = (a + k - 2048) mod 2048"
    by (simp add: le_mod_geq)
  moreover have "a + k - 2048 < 2048" using assms by simp
  ultimately show ?thesis using False by simp
qed

lemma wsucc_less: "wsucc p < 2048"
  by (simp add: wsucc_def MIDI_CHAR_FIFO_SIZE_def)

lemma ring_arith1:
  assumes "tw < 2048" "rp < 2048" "k < (tw + 2048 - rp) mod 2048"
  shows "(rp + k) mod 2048 \<noteq> (tw::nat)"
proof -
  have k: "k < 2048" using assms(3) by (rule less_trans) simp
  have "k < (if rp \<le> tw then tw - rp else tw + 2048 - rp)"
    using assms(3) unfolding ring_dist [OF assms(1,2)] .
  then have "(if rp + k < 2048 then rp + k else rp + k - 2048) \<noteq> tw"
    using assms(1,2) by (cases "rp \<le> tw"; cases "rp + k < 2048"; auto)
  then show ?thesis unfolding ring_index [OF assms(2) k] .
qed

lemma wsucc_cases:
  assumes "tw < 2048"
  shows "(tw = 2047 \<and> wsucc tw = 0) \<or> (tw < 2047 \<and> wsucc tw = tw + 1)"
  using assms by (cases "tw = 2047") (simp_all add: wsucc_def MIDI_CHAR_FIFO_SIZE_def)

lemma ring_arith2:
  assumes "tw < 2048" "rp < 2048" "wsucc tw \<noteq> rp"
  shows "(wsucc tw + 2048 - rp) mod 2048 = (tw + 2048 - rp) mod 2048 + (1::nat)"
proof -
  have "(if rp \<le> wsucc tw then wsucc tw - rp else wsucc tw + 2048 - rp) =
        (if rp \<le> tw then tw - rp else tw + 2048 - rp) + 1"
    using wsucc_cases [OF assms(1)] assms(2,3)
    by (cases "rp \<le> tw"; cases "rp \<le> wsucc tw"; auto)
  then show ?thesis
    unfolding ring_dist [OF assms(1,2)] ring_dist [OF wsucc_less assms(2)] .
qed

lemma ring_arith3:
  assumes "tw < 2048" "rp < 2048"
  shows "(rp + (tw + 2048 - rp) mod 2048) mod 2048 = (tw::nat)"
proof -
  let ?k = "(if rp \<le> tw then tw - rp else tw + 2048 - rp)"
  have k: "?k < 2048" using assms by (cases "rp \<le> tw"; simp)
  have "(if rp + ?k < 2048 then rp + ?k else rp + ?k - 2048) = tw"
    using assms by (cases "rp \<le> tw"; simp)
  then have "(rp + ?k) mod 2048 = tw"
    unfolding ring_index [OF assms(2) k] .
  then show ?thesis unfolding ring_dist [OF assms] .
qed

lemma ring_arith4:
  assumes "tw < 2048" "rp < 2048" "wsucc tw = rp"
  shows "(tw + 2048 - rp) mod 2048 = (2047::nat)"
proof -
  have "(if rp \<le> tw then tw - rp else tw + 2048 - rp) = 2047"
    using wsucc_cases [OF assms(1)] assms(2,3)
    by (cases "rp \<le> tw"; auto)
  then show ?thesis unfolding ring_dist [OF assms(1,2)] .
qed

lemma ring_arith0:
  assumes "rp < 2048" "we < 2048"
  shows "(we + 2048 - rp) mod 2048 = 0 \<longleftrightarrow> rp = (we::nat)"
proof -
  have "(if rp \<le> we then we - rp else we + 2048 - rp) = 0 \<longleftrightarrow> rp = we"
    using assms by (cases "rp \<le> we"; auto)
  then show ?thesis unfolding ring_dist [OF assms(2,1)] .
qed

lemma ring_arith5:
  assumes "rp < 2048" "we < 2048" "rp \<noteq> we"
  shows "(we + 2048 - rp) mod 2048 = (we + 2048 - wsucc rp) mod 2048 + (1::nat)"
proof -
  have "(if rp \<le> we then we - rp else we + 2048 - rp) =
        (if wsucc rp \<le> we then we - wsucc rp else we + 2048 - wsucc rp) + 1"
    using wsucc_cases [OF assms(1)] assms(2,3)
    by (cases "rp \<le> we"; cases "wsucc rp \<le> we"; auto)
  then show ?thesis
    unfolding ring_dist [OF assms(2,1)] ring_dist [OF assms(2) wsucc_less] .
qed

lemma ring_arith6:
  assumes "rp < 2048"
  shows "(wsucc rp + k) mod 2048 = (rp + Suc k) mod 2048"
proof -
  from wsucc_cases [OF assms] show ?thesis
  proof
    assume a: "rp = 2047 \<and> wsucc rp = 0"
    then have "rp + Suc k = k + 2048" by linarith
    then have "(rp + Suc k) mod 2048 = (k + 2048) mod 2048" by (rule arg_cong)
    also have "\<dots> = k mod 2048" by (rule mod_add_self2)
    finally have "(rp + Suc k) mod 2048 = k mod 2048" .
    moreover have "wsucc rp + k = k" using a by linarith
    ultimately show ?thesis by (simp only:)
  next
    assume a: "rp < 2047 \<and> wsucc rp = rp + 1"
    then have "wsucc rp + k = rp + Suc k" by linarith
    then show ?thesis by (rule arg_cong)
  qed
qed

lemma wsucc_code: "(if p + 1 \<ge> MIDI_CHAR_FIFO_SIZE then 0 else p + 1) = wsucc p"
  by (simp only: wsucc_def)

text \<open>The loop of \<open>GeneratePayload\<close> ends, with the bytes between the two pointers.\<close>

lemma GeneratePayload_loop_eq:
  assumes "rp < 2048" "we < 2048"
  shows "GeneratePayload_loop fifo rp we acc =
         Some (acc @ map (\<lambda>k. fifo ((rp + k) mod 2048)) [0..<(we + 2048 - rp) mod 2048], we)"
  using assms
proof (induction n \<equiv> "(we + 2048 - rp) mod 2048" arbitrary: rp acc)
  case 0
  then have "rp = we" using ring_arith0 [of rp we] by simp
  then show ?case using 0(1) [symmetric]
    by (subst GeneratePayload_loop.simps) (simp only: if_False simp_thms upt_0 list.map append_Nil2)
next
  case (Suc m)
  have ne: "rp \<noteq> we"
    using Suc(2) ring_arith0 [OF Suc(3,4)] by simp
  have m: "m = (we + 2048 - wsucc rp) mod 2048"
    using ring_arith5 [OF Suc(3,4) ne] Suc(2) by simp
  have "GeneratePayload_loop fifo rp we acc =
        GeneratePayload_loop fifo (wsucc rp) we (acc @ [fifo rp])"
    using ne by (subst GeneratePayload_loop.simps) (simp only: wsucc_code if_True simp_thms)
  also have "\<dots> = Some ((acc @ [fifo rp]) @
                 map (\<lambda>k. fifo ((wsucc rp + k) mod 2048)) [0..<m], we)"
    using Suc(1) [OF m wsucc_less Suc(4)] m by simp
  also have "map (\<lambda>k. fifo ((wsucc rp + k) mod 2048)) [0..<m] =
             map (\<lambda>k. fifo ((rp + Suc k) mod 2048)) [0..<m]"
    by (simp only: ring_arith6 [OF Suc(3)])
  also have "(acc @ [fifo rp]) @ map (\<lambda>k. fifo ((rp + Suc k) mod 2048)) [0..<m] =
             acc @ map (\<lambda>k. fifo ((rp + k) mod 2048)) [0..<Suc m]"
    using Suc(3) by (simp add: map_upt_Suc del: upt_Suc)
  finally show ?case using Suc(2) by simp
qed

lemma copy_Cons:
  "SendRTPMIDIBlock_copy (b # xs) tw rp fifo =
     (if wsucc tw = rp then (False, fifo(tw := b), wsucc tw)
      else SendRTPMIDIBlock_copy xs (wsucc tw) rp (fifo(tw := b)))"
  by (simp only: SendRTPMIDIBlock_copy.simps Let_def wsucc_code)

declare SendRTPMIDIBlock_copy.simps(2) [simp del]

text \<open>The copy writes no slot between the read pointer and the write pointer.\<close>

lemma copy_keeps:
  assumes "tw < 2048" "rp < 2048" "k < (tw + 2048 - rp) mod 2048"
  shows "fst (snd (SendRTPMIDIBlock_copy xs tw rp fifo)) ((rp + k) mod 2048) =
         fifo ((rp + k) mod 2048)"
  using assms
proof (induction xs arbitrary: tw fifo)
  case Nil
  then show ?case by simp
next
  case (Cons b xs)
  have ne: "(rp + k) mod 2048 \<noteq> tw"
    by (rule ring_arith1 [OF Cons.prems])
  show ?case
  proof (cases "wsucc tw = rp")
    case True
    then show ?thesis using ne by (simp add: copy_Cons)
  next
    case False
    have "k < (wsucc tw + 2048 - rp) mod 2048"
      using ring_arith2 [OF Cons.prems(1,2) False] Cons.prems(3) by linarith
    then have "fst (snd (SendRTPMIDIBlock_copy xs (wsucc tw) rp (fifo(tw := b)))) ((rp + k) mod 2048) =
               (fifo(tw := b)) ((rp + k) mod 2048)"
      by (rule Cons.IH [OF wsucc_less Cons.prems(2)])
    then show ?thesis using False ne by (simp add: copy_Cons)
  qed
qed

lemma copy_ptr:
  assumes "tw < 2048"
  shows "snd (snd (SendRTPMIDIBlock_copy xs tw rp fifo)) < 2048"
  using assms
proof (induction xs arbitrary: tw fifo)
  case Nil
  then show ?case by simp
next
  case (Cons b xs)
  have "snd (snd (SendRTPMIDIBlock_copy xs (wsucc tw) rp (fifo(tw := b)))) < 2048"
    by (rule Cons.IH [OF wsucc_less])
  then show ?case
    using wsucc_less [of tw] by (simp add: copy_Cons)
qed

text \<open>The copy runs to its end exactly when the block is shorter than the free slots.\<close>

lemma copy_fits:
  assumes "tw < 2048" "rp < 2048"
  shows "fst (SendRTPMIDIBlock_copy xs tw rp fifo) \<longleftrightarrow>
         length xs < 2048 - (tw + 2048 - rp) mod 2048"
  using assms
proof (induction xs arbitrary: tw fifo)
  case Nil
  have "(tw + 2048 - rp) mod 2048 < 2048" by simp
  then show ?case by simp
next
  case (Cons b xs)
  show ?case
  proof (cases "wsucc tw = rp")
    case True
    then show ?thesis using ring_arith4 [OF Cons.prems True] by (simp add: copy_Cons)
  next
    case False
    have "(wsucc tw + 2048 - rp) mod 2048 = (tw + 2048 - rp) mod 2048 + 1"
      by (rule ring_arith2 [OF Cons.prems False])
    moreover have "(wsucc tw + 2048 - rp) mod 2048 < 2048" by simp
    ultimately have "length xs < 2048 - (wsucc tw + 2048 - rp) mod 2048 \<longleftrightarrow>
                     length (b # xs) < 2048 - (tw + 2048 - rp) mod 2048"
      by (simp only: list.size) linarith
    moreover have "fst (SendRTPMIDIBlock_copy xs (wsucc tw) rp (fifo(tw := b))) \<longleftrightarrow>
                   length xs < 2048 - (wsucc tw + 2048 - rp) mod 2048"
      by (rule Cons.IH [OF wsucc_less Cons.prems(2)])
    ultimately show ?thesis using False by (simp only: copy_Cons if_False)
  qed
qed

text \<open>When the copy runs to its end, the block is in the array from the write pointer on.\<close>

lemma copy_stores:
  assumes "tw < 2048" "rp < 2048" "fst (SendRTPMIDIBlock_copy xs tw rp fifo)"
  shows "snd (snd (SendRTPMIDIBlock_copy xs tw rp fifo)) = (tw + length xs) mod 2048 \<and>
         (\<forall>j<length xs. fst (snd (SendRTPMIDIBlock_copy xs tw rp fifo)) ((tw + j) mod 2048) = xs ! j)"
  using assms
proof (induction xs arbitrary: tw fifo)
  case Nil
  then show ?case by simp
next
  case (Cons b xs)
  let ?f = "fifo(tw := b)"
  let ?r = "SendRTPMIDIBlock_copy xs (wsucc tw) rp ?f"
  have ne: "wsucc tw \<noteq> rp" using Cons.prems(3) by (auto simp add: copy_Cons)
  have eq: "SendRTPMIDIBlock_copy (b # xs) tw rp fifo = ?r"
    using ne by (simp only: copy_Cons if_False)
  have ok: "fst ?r" using Cons.prems(3) unfolding eq .
  have "snd (snd ?r) = (wsucc tw + length xs) mod 2048 \<and>
        (\<forall>j<length xs. fst (snd ?r) ((wsucc tw + j) mod 2048) = xs ! j)"
    by (rule Cons.IH [OF wsucc_less Cons.prems(2) ok])
  then have p: "snd (snd ?r) = (wsucc tw + length xs) mod 2048"
    and c: "\<forall>j<length xs. fst (snd ?r) ((wsucc tw + j) mod 2048) = xs ! j"
    by blast+
  have d: "(tw + 2048 - rp) mod 2048 < (wsucc tw + 2048 - rp) mod 2048"
    using ring_arith2 [OF Cons.prems(1,2) ne] by linarith
  have "fst (snd ?r) ((rp + (tw + 2048 - rp) mod 2048) mod 2048) =
        ?f ((rp + (tw + 2048 - rp) mod 2048) mod 2048)"
    by (rule copy_keeps [OF wsucc_less Cons.prems(2) d])
  then have first: "fst (snd ?r) tw = b"
    unfolding ring_arith3 [OF Cons.prems(1,2)] by simp
  have "snd (snd ?r) = (tw + length (b # xs)) mod 2048"
    using p unfolding ring_arith6 [OF Cons.prems(1)] by simp
  moreover have "fst (snd ?r) ((tw + j) mod 2048) = (b # xs) ! j" if j: "j < length (b # xs)" for j
  proof (cases j)
    case 0
    then show ?thesis using first Cons.prems(1) by simp
  next
    case (Suc i)
    then have "i < length xs" using j by simp
    then have "fst (snd ?r) ((wsucc tw + i) mod 2048) = xs ! i" using c by blast
    then show ?thesis unfolding ring_arith6 [OF Cons.prems(1)] using Suc by simp
  qed
  ultimately show ?case unfolding eq by blast
qed

lemma ring_arith7:
  assumes "wp < 2048" "rp < 2048" "L < 2048 - (wp + 2048 - rp) mod 2048"
  shows "((wp + L) mod 2048 + 2048 - rp) mod 2048 = (wp + 2048 - rp) mod 2048 + (L::nat)"
proof -
  let ?t = "(if wp + L < 2048 then wp + L else wp + L - 2048)"
  have L: "L < 2048" using assms(3) by linarith
  have t: "?t < 2048" using assms(1) L by (cases "wp + L < 2048"; simp)
  have b: "L < 2048 - (if rp \<le> wp then wp - rp else wp + 2048 - rp)"
    using assms(3) unfolding ring_dist [OF assms(1,2)] .
  have "(if rp \<le> ?t then ?t - rp else ?t + 2048 - rp) =
        (if rp \<le> wp then wp - rp else wp + 2048 - rp) + L"
    using b assms(1,2) by (cases "rp \<le> wp"; cases "wp + L < 2048"; auto)
  then have "(?t + 2048 - rp) mod 2048 = (wp + 2048 - rp) mod 2048 + L"
    unfolding ring_dist [OF t assms(2)] ring_dist [OF assms(1,2)] .
  then show ?thesis unfolding ring_index [OF assms(1) L] .
qed

lemma map_upt_shift: "map f [u..<u + L] = map (\<lambda>j. f (u + j)) [0..<L]"
  by (induction L) simp_all

lemma ring_arith8:
  fixes wp rp j :: nat
  assumes "wp < 2048" "rp < 2048"
  shows "(rp + ((wp + 2048 - rp) mod 2048 + j)) mod 2048 = (wp + j) mod 2048"
proof -
  have "(rp + ((wp + 2048 - rp) mod 2048 + j)) mod 2048 =
        ((rp + (wp + 2048 - rp) mod 2048) + j) mod 2048"
    by (simp only: add.assoc [symmetric])
  also have "\<dots> = ((rp + (wp + 2048 - rp) mod 2048) mod 2048 + j) mod 2048"
    by (simp only: mod_add_left_eq)
  also have "\<dots> = (wp + j) mod 2048"
    by (simp only: ring_arith3 [OF assms])
  finally show ?thesis .
qed

lemma GeneratePayload_eq:
  assumes "ring_ok q"
  shows "GeneratePayload q = Some (ring_contents q, q\<lparr>ReadPtr := WritePtr q\<rparr>)"
proof -
  have r: "ReadPtr q < 2048" and w: "WritePtr q < 2048"
    using assms by (simp_all add: ring_ok_def MIDI_CHAR_FIFO_SIZE_def)
  show ?thesis
    unfolding GeneratePayload_def GeneratePayload_loop_eq [OF r w]
    by (simp add: ring_contents_def ring_used_def MIDI_CHAR_FIFO_SIZE_def)
qed

text \<open>\<open>SendRTPMIDIBlock\<close> on an opened session, in terms of the copy.\<close>

lemma SendRTPMIDIBlock_opened:
  assumes "xs \<noteq> []" "SessionState st = SESSION_OPENED"
  shows "SendRTPMIDIBlock xs st =
         (let q = RTPStreamQueue st;
              r = SendRTPMIDIBlock_copy xs (WritePtr q) (ReadPtr q) (FIFO q)
          in if fst r
             then (True, st\<lparr>RTPStreamQueue := q\<lparr>FIFO := fst (snd r), WritePtr := snd (snd r)\<rparr>\<rparr>)
             else (False, st\<lparr>RTPStreamQueue := q\<lparr>FIFO := fst (snd r)\<rparr>\<rparr>))"
proof -
  obtain ok f t where r: "SendRTPMIDIBlock_copy xs (WritePtr (RTPStreamQueue st))
      (ReadPtr (RTPStreamQueue st)) (FIFO (RTPStreamQueue st)) = (ok, f, t)"
    by (metis prod_cases3)
  show ?thesis using assms r by (cases ok) (simp_all add: SendRTPMIDIBlock_def Let_def)
qed

text \<open>What the consumer will read after a block was accepted, and after one was refused.\<close>

lemma copy_contents:
  fixes q :: TMIDI_FIFO_CHAR and xs :: "u8 list"
  assumes "ring_ok q"
  defines "r \<equiv> SendRTPMIDIBlock_copy xs (WritePtr q) (ReadPtr q) (FIFO q)"
  shows "fst r \<longleftrightarrow> length xs \<le> ring_free q"
    and "fst r \<Longrightarrow> ring_contents (q\<lparr>FIFO := fst (snd r), WritePtr := snd (snd r)\<rparr>) = ring_contents q @ xs"
    and "fst r \<Longrightarrow> snd (snd r) = (WritePtr q + length xs) mod MIDI_CHAR_FIFO_SIZE"
    and "fst r \<Longrightarrow> j < length xs \<Longrightarrow>
           fst (snd r) ((WritePtr q + j) mod MIDI_CHAR_FIFO_SIZE) = xs ! j"
    and "ring_contents (q\<lparr>FIFO := fst (snd r)\<rparr>) = ring_contents q"
    and "snd (snd r) < MIDI_CHAR_FIFO_SIZE"
proof -
  have rp: "ReadPtr q < 2048" and wp: "WritePtr q < 2048"
    using assms(1) by (simp_all add: ring_ok_def MIDI_CHAR_FIFO_SIZE_def)
  let ?u = "(WritePtr q + 2048 - ReadPtr q) mod 2048"
  have u: "ring_used q = ?u" by (simp add: ring_used_def MIDI_CHAR_FIFO_SIZE_def)
  have ult: "?u < 2048" by simp
  have fits: "fst r \<longleftrightarrow> length xs < 2048 - ?u"
    unfolding r_def by (rule copy_fits [OF wp rp])
  show "fst r \<longleftrightarrow> length xs \<le> ring_free q"
    using fits ult unfolding ring_free_def u MIDI_CHAR_FIFO_SIZE_def by linarith
  show "snd (snd r) < MIDI_CHAR_FIFO_SIZE"
    unfolding r_def MIDI_CHAR_FIFO_SIZE_def by (rule copy_ptr [OF wp])
  have keep: "fst (snd r) ((ReadPtr q + k) mod 2048) = FIFO q ((ReadPtr q + k) mod 2048)"
    if "k < ?u" for k
    unfolding r_def by (rule copy_keeps [OF wp rp that])
  show same: "ring_contents (q\<lparr>FIFO := fst (snd r)\<rparr>) = ring_contents q"
    using keep by (simp add: ring_contents_def ring_used_def MIDI_CHAR_FIFO_SIZE_def)
  {
    assume ok: "fst r"
    from copy_stores [OF wp rp ok [unfolded r_def]]
    have p: "snd (snd r) = (WritePtr q + length xs) mod 2048"
      and c: "\<And>j. j < length xs \<Longrightarrow> fst (snd r) ((WritePtr q + j) mod 2048) = xs ! j"
      unfolding r_def by blast+
    show "snd (snd r) = (WritePtr q + length xs) mod MIDI_CHAR_FIFO_SIZE"
      using p by (simp add: MIDI_CHAR_FIFO_SIZE_def)
    have len: "length xs < 2048 - ?u" using ok fits by blast
    have used': "((WritePtr q + length xs) mod 2048 + 2048 - ReadPtr q) mod 2048 = ?u + length xs"
      by (rule ring_arith7 [OF wp rp len])
    have "map (\<lambda>k. fst (snd r) ((ReadPtr q + k) mod 2048)) [0..<?u + length xs] =
          map (\<lambda>k. fst (snd r) ((ReadPtr q + k) mod 2048)) [0..<?u] @
          map (\<lambda>j. fst (snd r) ((ReadPtr q + (?u + j)) mod 2048)) [0..<length xs]"
      by (simp only: upt_add_eq_append [OF le0] map_append map_upt_shift)
    also have "map (\<lambda>k. fst (snd r) ((ReadPtr q + k) mod 2048)) [0..<?u] =
               map (\<lambda>k. FIFO q ((ReadPtr q + k) mod 2048)) [0..<?u]"
      using keep by simp
    also have "map (\<lambda>j. fst (snd r) ((ReadPtr q + (?u + j)) mod 2048)) [0..<length xs] =
               map (\<lambda>j. xs ! j) [0..<length xs]"
      unfolding ring_arith8 [OF wp rp] using c by simp
    also have "map (\<lambda>j. xs ! j) [0..<length xs] = xs" by (rule map_nth)
    finally show "ring_contents (q\<lparr>FIFO := fst (snd r), WritePtr := snd (snd r)\<rparr>) =
                  ring_contents q @ xs"
      using used' p by (simp add: ring_contents_def ring_used_def MIDI_CHAR_FIFO_SIZE_def)
    fix j assume "j < length xs"
    then show "fst (snd r) ((WritePtr q + j) mod MIDI_CHAR_FIFO_SIZE) = xs ! j"
      using c by (simp add: MIDI_CHAR_FIFO_SIZE_def)
  }
qed

text \<open>
  Claim C4. \<open>SendRTPMIDIBlock\<close> is all or nothing. Let \<open>ml\<close> be the bytes that
  \<open>GeneratePayload\<close> would read from the ring before the call. When the call returns
  false the write pointer is unchanged and \<open>GeneratePayload\<close> after the call still reads
  \<open>ml\<close>: no byte of the refused block is seen. When it returns true, the bytes of the
  block are in the array from the old write pointer on, in order, and \<open>GeneratePayload\<close>
  reads \<open>ml\<close> followed by the block.
\<close>

theorem SendRTPMIDIBlock_all_or_nothing:
  assumes "ring_ok (RTPStreamQueue st)"
  shows "\<exists>ml. GeneratePayload (RTPStreamQueue st) =
                Some (ml, (RTPStreamQueue st)\<lparr>ReadPtr := WritePtr (RTPStreamQueue st)\<rparr>) \<and>
           (\<not> fst (SendRTPMIDIBlock xs st) \<longrightarrow>
              WritePtr (RTPStreamQueue (snd (SendRTPMIDIBlock xs st))) = WritePtr (RTPStreamQueue st) \<and>
              (\<exists>q'. GeneratePayload (RTPStreamQueue (snd (SendRTPMIDIBlock xs st))) = Some (ml, q'))) \<and>
           (fst (SendRTPMIDIBlock xs st) \<longrightarrow>
              (\<exists>q'. GeneratePayload (RTPStreamQueue (snd (SendRTPMIDIBlock xs st))) =
                      Some (ml @ xs, q')) \<and>
              (\<forall>i<length xs.
                 FIFO (RTPStreamQueue (snd (SendRTPMIDIBlock xs st)))
                   ((WritePtr (RTPStreamQueue st) + i) mod MIDI_CHAR_FIFO_SIZE) = xs ! i))"
proof -
  let ?q = "RTPStreamQueue st"
  let ?r = "SendRTPMIDIBlock_copy xs (WritePtr ?q) (ReadPtr ?q) (FIFO ?q)"
  note cc = copy_contents [OF assms, of xs]
  have gp: "GeneratePayload ?q = Some (ring_contents ?q, ?q\<lparr>ReadPtr := WritePtr ?q\<rparr>)"
    by (rule GeneratePayload_eq [OF assms])
  have rp: "ReadPtr ?q < MIDI_CHAR_FIFO_SIZE" using assms by (simp add: ring_ok_def)
  show ?thesis
  proof (cases "xs \<noteq> [] \<and> SessionState st = SESSION_OPENED")
    case False
    then have "SendRTPMIDIBlock xs st = (xs = [], st)"
      by (auto simp add: SendRTPMIDIBlock_def)
    then show ?thesis using gp by auto
  next
    case True
    note eq = SendRTPMIDIBlock_opened [of xs st, unfolded Let_def]
    show ?thesis
    proof (cases "fst ?r")
      case ok: True
      let ?q' = "?q\<lparr>FIFO := fst (snd ?r), WritePtr := snd (snd ?r)\<rparr>"
      have r: "SendRTPMIDIBlock xs st = (True, st\<lparr>RTPStreamQueue := ?q'\<rparr>)"
        using True ok eq by simp
      have "ring_ok ?q'" using rp cc(6) by (simp add: ring_ok_def)
      then have "GeneratePayload ?q' = Some (ring_contents ?q', ?q'\<lparr>ReadPtr := WritePtr ?q'\<rparr>)"
        by (rule GeneratePayload_eq)
      then have "\<exists>q'. GeneratePayload ?q' = Some (ring_contents ?q @ xs, q')"
        using cc(2) [OF ok] by simp
      moreover have "\<forall>i<length xs. FIFO ?q' ((WritePtr ?q + i) mod MIDI_CHAR_FIFO_SIZE) = xs ! i"
        using cc(4) [OF ok] by simp
      ultimately show ?thesis using gp unfolding r by simp
    next
      case no: False
      let ?q' = "?q\<lparr>FIFO := fst (snd ?r)\<rparr>"
      have r: "SendRTPMIDIBlock xs st = (False, st\<lparr>RTPStreamQueue := ?q'\<rparr>)"
        using True no eq by simp
      have "ring_ok ?q'" using assms by (simp add: ring_ok_def)
      then have "GeneratePayload ?q' = Some (ring_contents ?q', ?q'\<lparr>ReadPtr := WritePtr ?q'\<rparr>)"
        by (rule GeneratePayload_eq)
      then have "\<exists>q'. GeneratePayload ?q' = Some (ring_contents ?q, q')"
        using cc(5) by simp
      then show ?thesis using gp unfolding r by simp
    qed
  qed
qed

text \<open>
  Claim C5, as amended. \<open>SendRTPMIDIBlock\<close> returns true exactly when the block is
  empty, or the session is opened and the block is no longer than the room left in the
  ring. An empty block changes nothing, in any state of the session. When the call returns
  true the whole block is added after the waiting bytes and the write pointer has advanced
  by its length; when it returns false the waiting bytes and the write pointer are
  unchanged. The read pointer never changes.
\<close>

theorem SendRTPMIDIBlock_result:
  assumes "ring_ok (RTPStreamQueue st)"
  shows "(fst (SendRTPMIDIBlock xs st) \<longleftrightarrow>
            xs = [] \<or> (SessionState st = SESSION_OPENED \<and> length xs \<le> ring_free (RTPStreamQueue st))) \<and>
         (xs = [] \<longrightarrow> snd (SendRTPMIDIBlock xs st) = st) \<and>
         (fst (SendRTPMIDIBlock xs st) \<longrightarrow>
            ring_contents (RTPStreamQueue (snd (SendRTPMIDIBlock xs st))) =
              ring_contents (RTPStreamQueue st) @ xs \<and>
            WritePtr (RTPStreamQueue (snd (SendRTPMIDIBlock xs st))) =
              (WritePtr (RTPStreamQueue st) + length xs) mod MIDI_CHAR_FIFO_SIZE) \<and>
         (\<not> fst (SendRTPMIDIBlock xs st) \<longrightarrow>
            ring_contents (RTPStreamQueue (snd (SendRTPMIDIBlock xs st))) =
              ring_contents (RTPStreamQueue st) \<and>
            WritePtr (RTPStreamQueue (snd (SendRTPMIDIBlock xs st))) = WritePtr (RTPStreamQueue st)) \<and>
         ReadPtr (RTPStreamQueue (snd (SendRTPMIDIBlock xs st))) = ReadPtr (RTPStreamQueue st)"
proof -
  let ?q = "RTPStreamQueue st"
  let ?r = "SendRTPMIDIBlock_copy xs (WritePtr ?q) (ReadPtr ?q) (FIFO ?q)"
  note cc = copy_contents [OF assms, of xs]
  have wp: "WritePtr ?q < MIDI_CHAR_FIFO_SIZE" using assms by (simp add: ring_ok_def)
  show ?thesis
  proof (cases "xs \<noteq> [] \<and> SessionState st = SESSION_OPENED")
    case False
    then have "SendRTPMIDIBlock xs st = (xs = [], st)"
      by (auto simp add: SendRTPMIDIBlock_def)
    then show ?thesis using False wp by auto
  next
    case True
    note eq = SendRTPMIDIBlock_opened [of xs st, unfolded Let_def]
    show ?thesis
    proof (cases "fst ?r")
      case ok: True
      then have "SendRTPMIDIBlock xs st =
          (True, st\<lparr>RTPStreamQueue := ?q\<lparr>FIFO := fst (snd ?r), WritePtr := snd (snd ?r)\<rparr>\<rparr>)"
        using True eq by simp
      then show ?thesis using True ok cc(1) cc(2) [OF ok] cc(3) [OF ok] by simp
    next
      case no: False
      then have "SendRTPMIDIBlock xs st = (False, st\<lparr>RTPStreamQueue := ?q\<lparr>FIFO := fst (snd ?r)\<rparr>\<rparr>)"
        using True eq by simp
      then show ?thesis using True no cc(1) cc(5) by simp
    qed
  qed
qed

lemmas object_eval = closed_object_def opened_object_def CRTP_MIDI_new_def zero_object_def
  zero_decoder_def initRTP_SYSEXBuffer_def

text \<open>
  Claim C5, as stated, fails for an empty block: on an endpoint just constructed, whose
  session is closed, \<open>SendRTPMIDIBlock\<close> with a block of size 0 returns true.
\<close>

theorem SendRTPMIDIBlock_empty_block_when_closed:
  "SessionState closed_object \<noteq> SESSION_OPENED \<and> fst (SendRTPMIDIBlock [] closed_object)"
  by (simp add: object_eval SendRTPMIDIBlock_def)

text \<open>\<open>SendRTPMIDIBlock_result\<close> at a block of four bytes on an opened session.\<close>

theorem SendRTPMIDIBlock_result_witness:
  "ring_ok (RTPStreamQueue opened_object) \<and>
   fst (SendRTPMIDIBlock [0x00, 0x90, 0x3C, 0x7F] opened_object) \<and>
   ring_contents (RTPStreamQueue (snd (SendRTPMIDIBlock [0x00, 0x90, 0x3C, 0x7F] opened_object))) =
     [0x00, 0x90, 0x3C, 0x7F]"
proof -
  have h: "ring_ok (RTPStreamQueue opened_object)"
    by (simp add: object_eval ring_ok_def MIDI_CHAR_FIFO_SIZE_def)
  have u: "ring_used (RTPStreamQueue opened_object) = 0"
    by (simp add: object_eval ring_used_def MIDI_CHAR_FIFO_SIZE_def)
  have s: "SessionState opened_object = SESSION_OPENED"
    by (simp add: object_eval)
  have c: "ring_contents (RTPStreamQueue opened_object) = []"
    using u by (simp add: ring_contents_def)
  have f: "ring_free (RTPStreamQueue opened_object) = 2047"
    using u by (simp add: ring_free_def MIDI_CHAR_FIFO_SIZE_def)
  from SendRTPMIDIBlock_result [OF h, of "[0x00, 0x90, 0x3C, 0x7F]"] h c f s
  show ?thesis by simp
qed

text \<open>
  \<open>SendRTPMIDIBlock_all_or_nothing\<close> at a block of four bytes on an opened session whose
  ring is empty: the block is accepted and \<open>GeneratePayload\<close> then reads the block.
\<close>

theorem SendRTPMIDIBlock_all_or_nothing_witness:
  "ring_ok (RTPStreamQueue opened_object) \<and>
   fst (SendRTPMIDIBlock [0x00, 0x90, 0x3C, 0x7F] opened_object) \<and>
   (\<exists>q'. GeneratePayload
            (RTPStreamQueue (snd (SendRTPMIDIBlock [0x00, 0x90, 0x3C, 0x7F] opened_object)))
          = Some ([0x00, 0x90, 0x3C, 0x7F], q'))"
proof -
  let ?xs = "[0x00, 0x90, 0x3C, 0x7F] :: u8 list"
  have h: "ring_ok (RTPStreamQueue opened_object)"
    by (simp add: object_eval ring_ok_def MIDI_CHAR_FIFO_SIZE_def)
  have g: "GeneratePayload (RTPStreamQueue opened_object) =
           Some ([], (RTPStreamQueue opened_object)
                       \<lparr>ReadPtr := WritePtr (RTPStreamQueue opened_object)\<rparr>)"
    by (simp add: object_eval GeneratePayload_def GeneratePayload_loop.simps)
  have t: "fst (SendRTPMIDIBlock ?xs opened_object)"
    by (simp add: object_eval SendRTPMIDIBlock_def SendRTPMIDIBlock_copy.simps
        MIDI_CHAR_FIFO_SIZE_def)
  from SendRTPMIDIBlock_all_or_nothing [OF h, of ?xs] obtain ml where
    m: "GeneratePayload (RTPStreamQueue opened_object) =
          Some (ml, (RTPStreamQueue opened_object)
                      \<lparr>ReadPtr := WritePtr (RTPStreamQueue opened_object)\<rparr>)"
    and a: "fst (SendRTPMIDIBlock ?xs opened_object) \<longrightarrow>
              (\<exists>q'. GeneratePayload (RTPStreamQueue (snd (SendRTPMIDIBlock ?xs opened_object))) =
                      Some (ml @ ?xs, q'))"
    by blast
  from m g have "ml = []" by simp
  with a t h show ?thesis by simp
qed

section \<open>The session: the claims\<close>

lemma rtp_seqs_append: "rtp_seqs (xs @ ys) = rtp_seqs xs @ rtp_seqs ys"
  by (induction xs rule: rtp_seqs.induct) simp_all

lemma no_rtp_refl: "no_rtp st st"
  by (simp add: no_rtp_def)

lemma no_rtp_trans:
  assumes "no_rtp a b" "no_rtp b c"
  shows "no_rtp a c"
proof -
  from assms obtain n1 n2 where "sent b = sent a @ n1" "rtp_seqs n1 = []"
    "sent c = sent b @ n2" "rtp_seqs n2 = []"
    by (auto simp add: no_rtp_def)
  then have "sent c = sent a @ (n1 @ n2) \<and> rtp_seqs (n1 @ n2) = []"
    by (simp add: rtp_seqs_append)
  then show ?thesis using assms by (auto simp add: no_rtp_def)
qed

text \<open>A step that changes only members other than the three is such a step.\<close>

lemma no_rtp_fields:
  assumes "sent st' = sent st" "RTPSequence st' = RTPSequence st"
    "RTPStreamQueue st' = RTPStreamQueue st"
  shows "no_rtp st st'"
  using assms by (simp add: no_rtp_def)

lemma no_rtp_one:
  assumes "sent st' = sent st @ [d]" "rtp_seqs [d] = []" "RTPSequence st' = RTPSequence st"
    "RTPStreamQueue st' = RTPStreamQueue st"
  shows "no_rtp st st'"
  using assms by (auto simp add: no_rtp_def)

lemma no_rtp_PrepareTimerEvent: "no_rtp st (PrepareTimerEvent t st)"
  by (rule no_rtp_fields) (simp_all add: PrepareTimerEvent_def)

lemma no_rtp_SendInvitation: "no_rtp st (SendInvitation c st)"
  by (simp add: no_rtp_def SendInvitation_def)

lemma no_rtp_SendInvitationReply: "no_rtp st (SendInvitationReply a b c d st)"
  by (simp add: no_rtp_def SendInvitationReply_def)

lemma no_rtp_SendSyncPacket: "no_rtp st (SendSyncPacket c a1 a2 a3 a4 a5 a6 st)"
  by (simp add: no_rtp_def SendSyncPacket_def)

lemma no_rtp_SendFeedbackPacket: "no_rtp st (SendFeedbackPacket n st)"
  by (simp add: no_rtp_def SendFeedbackPacket_def)

lemma no_rtp_SendBYCommand: "no_rtp st (SendBYCommand st)"
  by (simp add: no_rtp_def SendBYCommand_def)

lemma no_rtp_PartnerCloseSession: "no_rtp st (PartnerCloseSession st)"
  by (rule no_rtp_fields) (simp_all add: PartnerCloseSession_def)

lemma no_rtp_RestartSession: "no_rtp st (RestartSession st)"
  by (rule no_rtp_fields) (simp_all add: RestartSession_def PrepareTimerEvent_def)

lemma no_rtp_CloseSession: "no_rtp st (CloseSession st)"
proof -
  have "no_rtp st (st\<lparr>SessionState := SESSION_CLOSED, EndpointLocked := True\<rparr>)"
    by (rule no_rtp_fields) simp_all
  then have "no_rtp st (SendBYCommand (st\<lparr>SessionState := SESSION_CLOSED, EndpointLocked := True\<rparr>))"
    by (rule no_rtp_trans) (rule no_rtp_SendBYCommand)
  then show ?thesis by (simp add: CloseSession_def no_rtp_refl)
qed

lemma no_rtp_ProcessIncomingRTP: "no_rtp st (ProcessIncomingRTP sg B st)"
  by (rule no_rtp_fields) (simp_all add: ProcessIncomingRTP_def split: prod.splits)

text \<open>
  To show that a step built from such steps is one, the members a step reads are the same
  after a change of the other members.
\<close>

lemma no_rtp_update:
  assumes "no_rtp st (f st')" "sent st' = sent st" "RTPSequence st' = RTPSequence st"
    "RTPStreamQueue st' = RTPStreamQueue st"
  shows "no_rtp st' (f st')"
  using assms by (simp add: no_rtp_def)

lemma no_rtp_RunSession_CK: "no_rtp st (RunSession_CK B st)"
proof -
  have a: "no_rtp st (SendSyncPacket c a1 a2 a3 a4 a5 a6 (st\<lparr>TS1H := x1, TS1L := x2\<rparr>))"
    for c a1 a2 a3 a4 a5 a6 x1 x2
    by (simp add: no_rtp_def SendSyncPacket_def)
  have b: "no_rtp st (SendSyncPacket c a1 a2 a3 a4 a5 a6
             (st\<lparr>TS1H := x1, TS1L := x2, TS2H := x3, TS2L := x4, MeasuredLatency := y,
                 TimeOutRemote := z\<rparr>))"
    for c a1 a2 a3 a4 a5 a6 x1 x2 x3 x4 y z
    by (simp add: no_rtp_def SendSyncPacket_def)
  have b': "no_rtp st ((SendSyncPacket c a1 a2 a3 a4 a5 a6
             (st\<lparr>TS1H := x1, TS1L := x2, TS2H := x3, TS2L := x4, MeasuredLatency := y,
                 TimeOutRemote := z\<rparr>))\<lparr>TimeOutRemote := z', SessionState := s\<rparr>)"
    for c a1 a2 a3 a4 a5 a6 x1 x2 x3 x4 y z z' s
    by (simp add: no_rtp_def SendSyncPacket_def)
  have c: "no_rtp st (st\<lparr>TS1H := x1, TS1L := x2, TS2H := x3, TS2L := x4, TS3H := x5, TS3L := x6,
                          MeasuredLatency := y, TimeOutRemote := z, SessionState := s\<rparr>)"
    for x1 x2 x3 x4 x5 x6 y z s
    by (rule no_rtp_fields) simp_all
  show ?thesis
    by (simp add: RunSession_CK_def Let_def a b b' c no_rtp_refl)
qed

lemma no_rtp_ProcessControlSocket: "no_rtp st (snd (snd (ProcessControlSocket c fl st)))"
  by (cases c)
     (simp_all add: ProcessControlSocket_def Let_def no_rtp_def SendInvitationReply_def
        PrepareTimerEvent_def PartnerCloseSession_def)

lemma no_rtp_RunSession_data: "no_rtp st (snd (RunSession_data sg p fl st))"
proof -
  have "no_rtp st ((SendInvitationReply False True a b
          (PrepareTimerEvent 2000 (st\<lparr>SessionState := SESSION_WAIT_CLOCK_SYNC\<rparr>)))
          \<lparr>PartnerDataPort := c\<rparr>)" for a b c
    by (simp add: no_rtp_def SendInvitationReply_def PrepareTimerEvent_def)
  then show ?thesis
    by (simp add: RunSession_data_def Let_def no_rtp_refl no_rtp_RunSession_CK
        no_rtp_ProcessIncomingRTP no_rtp_PartnerCloseSession)
qed

lemma no_rtp_RunSession_sockets: "no_rtp st (snd (RunSession_sockets sg turns fl st))"
proof (induction turns arbitrary: fl st)
  case Nil
  then show ?case by (simp add: no_rtp_refl)
next
  case (Cons t turns)
  obtain c dt where t: "t = (c, dt)" by (cases t)
  obtain flc fld where fl: "fl = (flc, fld)" by (cases fl)
  obtain r flc' st1 where pc: "ProcessControlSocket c flc st = (r, flc', st1)"
    by (metis prod_cases3)
  have n1: "no_rtp st st1"
    using no_rtp_ProcessControlSocket [of st c flc] pc by simp
  obtain fld' st2 where pd:
    "(case dt of None \<Rightarrow> (fld, st1) | Some p \<Rightarrow> RunSession_data sg p fld st1) = (fld', st2)"
    by (metis surj_pair)
  have "no_rtp st1 st2"
  proof (cases dt)
    case None
    then show ?thesis using pd by (simp add: no_rtp_refl)
  next
    case (Some p)
    then show ?thesis using pd no_rtp_RunSession_data [of st1 sg p fld] by simp
  qed
  with n1 have n2: "no_rtp st st2" by (rule no_rtp_trans)
  have "no_rtp st2 (snd (RunSession_sockets sg turns (flc', fld') st2))"
    by (rule Cons.IH)
  with n2 have "no_rtp st (snd (RunSession_sockets sg turns (flc', fld') st2))"
    by (rule no_rtp_trans)
  then show ?case
    using n2 pc pd unfolding t fl by simp
qed

lemma no_rtp_RunSession_timer: "no_rtp st (snd (RunSession_timer st))"
  by (simp add: RunSession_timer_def Let_def no_rtp_def)

lemma no_rtp_RunSession_initiator: "no_rtp st (snd (RunSession_initiator ev a b st))"
  by (simp add: RunSession_initiator_def Let_def no_rtp_def SendInvitation_def
      PrepareTimerEvent_def RestartSession_def SendSyncPacket_def)

lemma no_rtp_RunSession_keepalive: "no_rtp st (RunSession_keepalive st)"
  by (simp add: RunSession_keepalive_def Let_def no_rtp_def SendFeedbackPacket_def
      SendSyncPacket_def PrepareTimerEvent_def)

lemma no_rtp_RunSession_lost: "no_rtp st (RunSession_lost st)"
  by (simp add: RunSession_lost_def Let_def no_rtp_def RestartSession_def PrepareTimerEvent_def)

lemma ring_contents_empty:
  assumes "ring_ok q"
  shows "ring_contents q = [] \<longleftrightarrow> ReadPtr q = WritePtr q"
proof -
  have r: "ReadPtr q < 2048" and w: "WritePtr q < 2048"
    using assms by (simp_all add: ring_ok_def MIDI_CHAR_FIFO_SIZE_def)
  have "ring_contents q = [] \<longleftrightarrow> ring_used q = 0"
    by (simp add: ring_contents_def)
  also have "\<dots> \<longleftrightarrow> ReadPtr q = WritePtr q"
    using ring_arith0 [OF r w] by (simp add: ring_used_def MIDI_CHAR_FIFO_SIZE_def)
  finally show ?thesis .
qed

lemma length_ring_contents: "length (ring_contents q) = ring_used q"
  by (simp add: ring_contents_def)

text \<open>
  The sending step on a ring whose pointers are in range: it has a result when the ring
  holds at most \<open>MAX_RTP_LOAD\<close> bytes, and what it does then.
\<close>

lemma RunSession_send_eq:
  assumes "ring_ok (RTPStreamQueue st)"
  shows "RunSession_send st =
         (if MAX_RTP_LOAD < length (ring_contents (RTPStreamQueue st)) then None
          else
          Some (if ReadPtr (RTPStreamQueue st) = WritePtr (RTPStreamQueue st)
               then st\<lparr>RTPStreamQueue := (RTPStreamQueue st)\<lparr>ReadPtr := WritePtr (RTPStreamQueue st)\<rparr>\<rparr>
               else st\<lparr>RTPStreamQueue := (RTPStreamQueue st)\<lparr>ReadPtr := WritePtr (RTPStreamQueue st)\<rparr>,
                       RTPSequence := RTPSequence st + 1,
                       sent := sent st @
                         [RTP_packet (SessionPartnerIP st) (PartnerDataPort st)
                            (length (ring_contents (RTPStreamQueue st)) + 12 + 2)
                            \<lparr>Code1 = 0x80, Code2 = 0x61, SequenceNumber = RTPSequence st,
                             Timestamp = TimeCounter st, Header_SSRC = SSRC st,
                             Control = of_nat (length (ring_contents (RTPStreamQueue st))) OR 0x8000,
                             MIDIList = ring_contents (RTPStreamQueue st)\<rparr>]\<rparr>))"
  using ring_contents_empty [OF assms]
  by (simp add: RunSession_send_def PrepareMessage_def GeneratePayload_eq [OF assms] Let_def)

lemma RunSession_send_cases:
  assumes "ring_ok (RTPStreamQueue st)" and "RunSession_send st = Some st'"
  shows "ring_ok (RTPStreamQueue st') \<and>
           ((sent st' = sent st \<and> RTPSequence st' = RTPSequence st) \<or>
            (ReadPtr (RTPStreamQueue st) \<noteq> WritePtr (RTPStreamQueue st) \<and>
             (\<exists>d. sent st' = sent st @ [d] \<and> rtp_seqs [d] = [RTPSequence st]) \<and>
             RTPSequence st' = RTPSequence st + 1))"
  using assms(1) assms(2) [unfolded RunSession_send_eq [OF assms(1)]]
  by (auto simp add: ring_ok_def split: if_splits)

lemma RunSession_send_returns:
  assumes "ring_ok (RTPStreamQueue st)" and "ring_used (RTPStreamQueue st) \<le> MAX_RTP_LOAD"
  shows "\<exists>st'. RunSession_send st = Some st'"
  using assms(2) unfolding RunSession_send_eq [OF assms(1)] length_ring_contents
  by simp

text \<open>
  The shape of one call of \<open>RunSession\<close>: up to the part for the opened session no RTP
  message is sent and the ring is not touched; the call ends there, or it goes on with the
  sending step, the keep-alive and the detection of the loss.
\<close>

lemma RunSession_shape:
  "\<exists>st6 ev. no_rtp st st6 \<and>
     (RunSession sg turns st = Some st6 \<or>
      RunSession sg turns st =
        map_option (\<lambda>st7. RunSession_lost (if ev then RunSession_keepalive st7 else st7))
          (RunSession_send st6))"
proof -
  let ?st0 = "st\<lparr>TimeCounter := TimeCounter st + 10, LocalClock := LocalClock st + 10\<rparr>"
  have n0: "no_rtp st ?st0" by (simp add: no_rtp_def)
  show ?thesis
  proof (cases "EndpointLocked st")
    case True
    then have "RunSession sg turns st = Some ?st0" by (simp add: RunSession_def)
    with n0 show ?thesis by blast
  next
    case unlocked: False
    obtain ev st1 where tm: "RunSession_timer ?st0 = (ev, st1)" by (metis surj_pair)
    have n1: "no_rtp st st1"
      using no_rtp_trans [OF n0 no_rtp_RunSession_timer [of ?st0]] tm by simp
    let ?st2 = "if ev \<and> SessionState st1 = SESSION_WAIT_INVITE_DATA
                then st1\<lparr>SessionState := SESSION_WAIT_INVITE_CTRL\<rparr> else st1"
    let ?st3 = "if ev \<and> SessionState ?st2 = SESSION_WAIT_CLOCK_SYNC
                then ?st2\<lparr>SessionState := SESSION_WAIT_INVITE_CTRL\<rparr> else ?st2"
    have "no_rtp st1 ?st3" by (simp add: no_rtp_def)
    with n1 have n3: "no_rtp st ?st3" by (rule no_rtp_trans)
    obtain ac rc ad rd st4 where
      sk: "RunSession_sockets sg turns ((False, False), (False, False)) ?st3 = (((ac, rc), (ad, rd)), st4)"
      by (metis surj_pair)
    have n4: "no_rtp st st4"
      using no_rtp_trans [OF n3 no_rtp_RunSession_sockets
          [of ?st3 sg turns "((False, False), (False, False))"]] sk by simp
    let ?st5 = "if rc \<or> rd then (PartnerCloseSession st4)\<lparr>ConnectionRefused := True\<rparr> else st4"
    have "no_rtp st4 ?st5" by (simp add: no_rtp_def PartnerCloseSession_def)
    with n4 have n5: "no_rtp st ?st5" by (rule no_rtp_trans)
    obtain ret st6 where
      ini: "RunSession_initiator ev (ac \<and> \<not> (rc \<or> rd)) (ad \<and> \<not> (rc \<or> rd)) ?st5 = (ret, st6)"
      by (metis surj_pair)
    have n6: "no_rtp st st6"
      using no_rtp_trans [OF n5 no_rtp_RunSession_initiator
          [of ?st5 ev "ac \<and> \<not> (rc \<or> rd)" "ad \<and> \<not> (rc \<or> rd)"]] ini by simp
    have run: "RunSession sg turns st = (if ret then Some st6 else RunSession_opened ev st6)"
      using unlocked tm sk ini by (simp add: RunSession_def Let_def)
    show ?thesis
    proof (cases "ret \<or> SessionState st6 \<noteq> SESSION_OPENED")
      case True
      then have "RunSession sg turns st = Some st6"
        unfolding run by (auto simp add: RunSession_opened_def)
      with n6 show ?thesis by blast
    next
      case False
      then have "RunSession sg turns st =
          map_option (\<lambda>st7. RunSession_lost (if ev then RunSession_keepalive st7 else st7))
            (RunSession_send st6)"
        unfolding run by (cases "RunSession_send st6") (simp_all add: RunSession_opened_def)
      with n6 show ?thesis by blast
    qed
  qed
qed

text \<open>One call of \<open>RunSession\<close> that has a result has sent at most one RTP message.\<close>

lemma RunSession_rtp:
  assumes "ring_ok (RTPStreamQueue st)" and "RunSession sg turns st = Some st'"
  shows "ring_ok (RTPStreamQueue st') \<and>
         (\<exists>new. sent st' = sent st @ new \<and>
            ((rtp_seqs new = [] \<and> RTPSequence st' = RTPSequence st) \<or>
             (ReadPtr (RTPStreamQueue st) \<noteq> WritePtr (RTPStreamQueue st) \<and>
              rtp_seqs new = [RTPSequence st] \<and> RTPSequence st' = RTPSequence st + 1)))"
proof -
  from RunSession_shape [of st sg turns] obtain st6 ev where n6: "no_rtp st st6"
    and c: "RunSession sg turns st = Some st6 \<or>
            RunSession sg turns st =
              map_option (\<lambda>st7. RunSession_lost (if ev then RunSession_keepalive st7 else st7))
                (RunSession_send st6)"
    by blast
  from n6 obtain new1 where s6: "sent st6 = sent st @ new1" "rtp_seqs new1 = []"
    "RTPSequence st6 = RTPSequence st" "RTPStreamQueue st6 = RTPStreamQueue st"
    by (auto simp add: no_rtp_def)
  from c show ?thesis
  proof
    assume "RunSession sg turns st = Some st6"
    then have "st' = st6" using assms(2) by simp
    then show ?thesis using s6 assms(1) by auto
  next
    assume "RunSession sg turns st =
              map_option (\<lambda>st7. RunSession_lost (if ev then RunSession_keepalive st7 else st7))
                (RunSession_send st6)"
    then obtain st7 where snd: "RunSession_send st6 = Some st7"
      and e: "st' = RunSession_lost (if ev then RunSession_keepalive st7 else st7)"
      using assms(2) by (cases "RunSession_send st6") auto
    have ok6: "ring_ok (RTPStreamQueue st6)" using s6(4) assms(1) by simp
    from RunSession_send_cases [OF ok6 snd] have ok7: "ring_ok (RTPStreamQueue st7)"
      and c7: "(sent st7 = sent st6 \<and> RTPSequence st7 = RTPSequence st6) \<or>
               (ReadPtr (RTPStreamQueue st6) \<noteq> WritePtr (RTPStreamQueue st6) \<and>
                (\<exists>d. sent st7 = sent st6 @ [d] \<and> rtp_seqs [d] = [RTPSequence st6]) \<and>
                RTPSequence st7 = RTPSequence st6 + 1)"
      by blast+
    have "no_rtp st7 (if ev then RunSession_keepalive st7 else st7)"
      by (simp add: no_rtp_refl no_rtp_RunSession_keepalive)
    then have n8: "no_rtp st7 st'"
      unfolding e by (rule no_rtp_trans) (rule no_rtp_RunSession_lost)
    from n8 obtain new3 where s8: "sent st' = sent st7 @ new3" "rtp_seqs new3 = []"
      "RTPSequence st' = RTPSequence st7" "RTPStreamQueue st' = RTPStreamQueue st7"
      by (auto simp add: no_rtp_def)
    have ok': "ring_ok (RTPStreamQueue st')" using ok7 s8(4) by simp
    from c7 show ?thesis
    proof
      assume a: "sent st7 = sent st6 \<and> RTPSequence st7 = RTPSequence st6"
      then have "sent st' = sent st @ (new1 @ new3)" "rtp_seqs (new1 @ new3) = []"
        "RTPSequence st' = RTPSequence st"
        using s6 s8 by (simp_all add: rtp_seqs_append)
      then show ?thesis using ok' by blast
    next
      assume a: "ReadPtr (RTPStreamQueue st6) \<noteq> WritePtr (RTPStreamQueue st6) \<and>
                (\<exists>d. sent st7 = sent st6 @ [d] \<and> rtp_seqs [d] = [RTPSequence st6]) \<and>
                RTPSequence st7 = RTPSequence st6 + 1"
      then obtain d where d: "sent st7 = sent st6 @ [d]" "rtp_seqs [d] = [RTPSequence st6]"
        by blast
      have "sent st' = sent st @ (new1 @ [d] @ new3)"
        "rtp_seqs (new1 @ [d] @ new3) = [RTPSequence st]"
        "RTPSequence st' = RTPSequence st + 1"
        "ReadPtr (RTPStreamQueue st) \<noteq> WritePtr (RTPStreamQueue st)"
        using a d s6 s8 rtp_seqs_append [of "[d]" new3, simplified]
        by (simp_all add: rtp_seqs_append)
      then show ?thesis using ok' by blast
    qed
  qed
qed

text \<open>
  One call of \<open>RunSession\<close> has a result when the ring holds at most \<open>MAX_RTP_LOAD\<close>
  bytes.
\<close>

lemma RunSession_returns:
  assumes "ring_ok (RTPStreamQueue st)" and "ring_used (RTPStreamQueue st) \<le> MAX_RTP_LOAD"
  shows "\<exists>st'. RunSession sg turns st = Some st'"
proof -
  from RunSession_shape [of st sg turns] obtain st6 ev where n6: "no_rtp st st6"
    and c: "RunSession sg turns st = Some st6 \<or>
            RunSession sg turns st =
              map_option (\<lambda>st7. RunSession_lost (if ev then RunSession_keepalive st7 else st7))
                (RunSession_send st6)"
    by blast
  have q: "RTPStreamQueue st6 = RTPStreamQueue st" using n6 by (simp add: no_rtp_def)
  from RunSession_send_returns [of st6] obtain st7 where "RunSession_send st6 = Some st7"
    using assms q by auto
  with c show ?thesis by auto
qed

lemma word_le_1_cases:
  fixes x :: u32
  assumes "x \<le> 1"
  shows "x = 0 \<or> x = 1"
  using assms by (auto simp add: le_less word_less_1)

text \<open>A timer that is running with at most 1 ms left fires.\<close>

lemma RunSession_timer_fires:
  assumes "TimerRunning st" "EventTime st \<le> 1"
  shows "RunSession_timer st = (True, st\<lparr>EventTime := 0, TimerRunning := False\<rparr>)"
  using word_le_1_cases [OF assms(2)] assms(1)
  by (auto simp add: RunSession_timer_def Let_def)

lemma SendRTPMIDIBlock_quiet:
  assumes "ring_ok (RTPStreamQueue st)"
  shows "sent (snd (SendRTPMIDIBlock xs st)) = sent st \<and>
         RTPSequence (snd (SendRTPMIDIBlock xs st)) = RTPSequence st \<and>
         ring_ok (RTPStreamQueue (snd (SendRTPMIDIBlock xs st)))"
proof (cases "xs \<noteq> [] \<and> SessionState st = SESSION_OPENED")
  case False
  then have "SendRTPMIDIBlock xs st = (xs = [], st)"
    by (auto simp add: SendRTPMIDIBlock_def)
  then show ?thesis using assms by simp
next
  case True
  have "ReadPtr (RTPStreamQueue st) < MIDI_CHAR_FIFO_SIZE" "WritePtr (RTPStreamQueue st) < MIDI_CHAR_FIFO_SIZE"
    using assms by (simp_all add: ring_ok_def)
  then show ?thesis
    using True copy_contents(6) [OF assms, of xs]
    by (simp add: SendRTPMIDIBlock_opened Let_def ring_ok_def)
qed

lemma host_step_rtp:
  assumes "ring_ok (RTPStreamQueue st)" and "host_step sg c st = Some st'"
  shows "ring_ok (RTPStreamQueue st') \<and>
         (\<exists>new. sent st' = sent st @ new \<and>
            ((rtp_seqs new = [] \<and> RTPSequence st' = RTPSequence st) \<or>
             (rtp_seqs new = [RTPSequence st] \<and> RTPSequence st' = RTPSequence st + 1)))"
proof -
  have quiet: ?thesis if "no_rtp st st'"
    using that assms(1) by (auto simp add: no_rtp_def)
  show ?thesis
  proof (cases c)
    case (Call_RunSession turns)
    then have "RunSession sg turns st = Some st'" using assms(2) by simp
    from RunSession_rtp [OF assms(1) this] show ?thesis by auto
  next
    case (Call_SendRTPMIDIBlock xs)
    then have "st' = snd (SendRTPMIDIBlock xs st)" using assms(2) by simp
    with SendRTPMIDIBlock_quiet [OF assms(1), of xs] show ?thesis by simp
  next
    case Call_RestartSession
    then have "st' = RestartSession st" using assms(2) by simp
    then show ?thesis by (intro quiet) (simp add: no_rtp_RestartSession)
  next
    case Call_CloseSession
    then have "st' = CloseSession st" using assms(2) by simp
    then show ?thesis by (intro quiet) (simp add: no_rtp_CloseSession)
  next
    case (Call_SetCallback f)
    then have "st' = SetCallback f st" using assms(2) by simp
    then show ?thesis by (intro quiet) (simp add: no_rtp_def SetCallback_def)
  next
    case Call_ReadAndResetConnectionLost
    then have "st' = snd (ReadAndResetConnectionLost st)" using assms(2) by simp
    then show ?thesis by (intro quiet) (simp add: no_rtp_def ReadAndResetConnectionLost_def)
  next
    case Call_RemotePeerHasClosedSession
    then have "st' = snd (RemotePeerHasClosedSession st)" using assms(2) by simp
    then show ?thesis by (intro quiet) (simp add: no_rtp_def RemotePeerHasClosedSession_def)
  next
    case Call_RemotePeerHasRefusedSession
    then have "st' = snd (RemotePeerHasRefusedSession st)" using assms(2) by simp
    then show ?thesis by (intro quiet) (simp add: no_rtp_def RemotePeerHasRefusedSession_def)
  qed
qed

lemma run_rtp:
  assumes "ring_ok (RTPStreamQueue st)" and "run sg calls st = Some st'"
  shows "\<exists>new n. sent st' = sent st @ new \<and>
           rtp_seqs new = map (\<lambda>i. RTPSequence st + of_nat i) [0..<n] \<and>
           RTPSequence st' = RTPSequence st + of_nat n"
  using assms
proof (induction calls arbitrary: st)
  case Nil
  then have "sent st' = sent st @ [] \<and>
        rtp_seqs [] = map (\<lambda>i. RTPSequence st + of_nat i) [0..<0] \<and>
        RTPSequence st' = RTPSequence st + of_nat 0"
    by simp
  then show ?case by blast
next
  case (Cons c calls)
  from Cons.prems(2) obtain st1 where h: "host_step sg c st = Some st1"
    and r: "run sg calls st1 = Some st'"
    by (cases "host_step sg c st") simp_all
  from host_step_rtp [OF Cons.prems(1) h] obtain new1 where
    ok1: "ring_ok (RTPStreamQueue st1)"
    and s1: "sent st1 = sent st @ new1"
    and c1: "(rtp_seqs new1 = [] \<and> RTPSequence st1 = RTPSequence st) \<or>
             (rtp_seqs new1 = [RTPSequence st] \<and> RTPSequence st1 = RTPSequence st + 1)"
    by blast
  have "\<exists>new n. sent st' = sent st1 @ new \<and>
           rtp_seqs new = map (\<lambda>i. RTPSequence st1 + of_nat i) [0..<n] \<and>
           RTPSequence st' = RTPSequence st1 + of_nat n"
    using ok1 r by (rule Cons.IH)
  then obtain new2 n where
    s2: "sent st' = sent st1 @ new2"
    and q2: "rtp_seqs new2 = map (\<lambda>i. RTPSequence st1 + of_nat i) [0..<n]"
    and e2: "RTPSequence st' = RTPSequence st1 + of_nat n"
    by blast
  have s': "sent st' = sent st @ (new1 @ new2)" using s1 s2 by simp
  from c1 show ?case
  proof
    assume a: "rtp_seqs new1 = [] \<and> RTPSequence st1 = RTPSequence st"
    then have "rtp_seqs (new1 @ new2) = map (\<lambda>i. RTPSequence st + of_nat i) [0..<n]"
      "RTPSequence st' = RTPSequence st + of_nat n"
      using q2 e2 by (simp_all add: rtp_seqs_append)
    then show ?thesis using s' by blast
  next
    assume a: "rtp_seqs new1 = [RTPSequence st] \<and> RTPSequence st1 = RTPSequence st + 1"
    have "map (\<lambda>i. RTPSequence st + of_nat i) [0..<Suc n] =
          RTPSequence st # map (\<lambda>i. RTPSequence st + 1 + of_nat i) [0..<n]"
      by (simp add: map_upt_Suc add.assoc del: upt_Suc)
    then have "rtp_seqs (new1 @ new2) = map (\<lambda>i. RTPSequence st + of_nat i) [0..<Suc n]"
      "RTPSequence st' = RTPSequence st + of_nat (Suc n)"
      using a q2 e2 by (simp_all add: rtp_seqs_append add.assoc)
    then show ?thesis using s' by blast
  qed
qed

lemmas object_run_eval = object_eval RunSession_def RunSession_timer_def
  RunSession_initiator_def RunSession_opened_def RunSession_send_def RunSession_lost_def
  PrepareMessage_def GeneratePayload_def GeneratePayload_loop.simps SendRTPMIDIBlock_def
  SendRTPMIDIBlock_copy.simps MIDI_CHAR_FIFO_SIZE_def MAX_RTP_LOAD_def Let_def

text \<open>
  Claim C8. For an endpoint whose ring pointers are indices of the array. One call of
  \<open>RunSession\<close>, whatever the sockets hold, has a result when the ring holds at most
  \<open>MAX_RTP_LOAD\<close> bytes (with more, the message is written past its end). A call that has
  a result has sent at most one RTP message: either none, and \<open>RTPSequence\<close> is
  unchanged, or, the ring being non-empty, exactly one, which carries the old
  \<open>RTPSequence\<close>, and \<open>RTPSequence\<close> is one more. So a call with an empty ring sends
  none. In every run of calls of the host after \<open>InitiateSession\<close> (\<open>RunSession\<close>,
  \<open>SendRTPMIDIBlock\<close>, \<open>RestartSession\<close>, \<open>CloseSession\<close>, \<open>SetCallback\<close> and the
  three flag readers, in any order) whose calls have a result, the RTP messages sent carry,
  in order, the sequence numbers \<open>RTPSequence\<close>, \<open>RTPSequence + 1\<close>, \<dots> in 16-bit
  arithmetic, one step per message.
\<close>

theorem RTP_sequence_numbers:
  assumes "ring_ok (RTPStreamQueue st)"
  shows "(ring_used (RTPStreamQueue st) \<le> MAX_RTP_LOAD \<longrightarrow>
            (\<exists>st'. RunSession sg turns st = Some st')) \<and>
         (\<forall>st'. RunSession sg turns st = Some st' \<longrightarrow>
            (\<exists>new. sent st' = sent st @ new \<and>
               ((rtp_seqs new = [] \<and> RTPSequence st' = RTPSequence st) \<or>
                (ReadPtr (RTPStreamQueue st) \<noteq> WritePtr (RTPStreamQueue st) \<and>
                 rtp_seqs new = [RTPSequence st] \<and> RTPSequence st' = RTPSequence st + 1)))) \<and>
         (\<forall>st'. run sg calls st = Some st' \<longrightarrow>
            (\<exists>new n. sent st' = sent st @ new \<and>
               rtp_seqs new = map (\<lambda>i. RTPSequence st + of_nat i) [0..<n] \<and>
               RTPSequence st' = RTPSequence st + of_nat n))"
proof (intro conjI impI allI)
  assume "ring_used (RTPStreamQueue st) \<le> MAX_RTP_LOAD"
  with assms show "\<exists>st'. RunSession sg turns st = Some st'"
    by (rule RunSession_returns)
next
  fix st'
  assume "RunSession sg turns st = Some st'"
  with assms show "\<exists>new. sent st' = sent st @ new \<and>
               ((rtp_seqs new = [] \<and> RTPSequence st' = RTPSequence st) \<or>
                (ReadPtr (RTPStreamQueue st) \<noteq> WritePtr (RTPStreamQueue st) \<and>
                 rtp_seqs new = [RTPSequence st] \<and> RTPSequence st' = RTPSequence st + 1))"
    using RunSession_rtp [of st sg turns st'] by blast
next
  fix st'
  assume "run sg calls st = Some st'"
  with assms show "\<exists>new n. sent st' = sent st @ new \<and>
               rtp_seqs new = map (\<lambda>i. RTPSequence st + of_nat i) [0..<n] \<and>
               RTPSequence st' = RTPSequence st + of_nat n"
    by (rule run_rtp)
qed

text \<open>
  \<open>RTP_sequence_numbers\<close> at a run on an opened session in which two blocks are sent:
  the two RTP messages carry the sequence numbers 0 and 1, and \<open>RTPSequence\<close> is 2 after
  the run.
\<close>

theorem RTP_sequence_numbers_witness:
  "ring_ok (RTPStreamQueue opened_object) \<and>
   ring_used (RTPStreamQueue opened_object) \<le> MAX_RTP_LOAD \<and>
   (\<exists>st'. RunSession True [] opened_object = Some st') \<and>
   map_option (\<lambda>st. (rtp_seqs (sent st), RTPSequence st))
     (run True [Call_SendRTPMIDIBlock [0x00, 0x90, 0x3C, 0x7F], Call_RunSession [],
                Call_RunSession [],
                Call_SendRTPMIDIBlock [0x00, 0x80, 0x3C, 0x00], Call_RunSession []]
        opened_object) = Some ([0, 1], 2) \<and>
   (\<exists>st' new n.
      run True [Call_SendRTPMIDIBlock [0x00, 0x90, 0x3C, 0x7F], Call_RunSession [],
                Call_RunSession [],
                Call_SendRTPMIDIBlock [0x00, 0x80, 0x3C, 0x00], Call_RunSession []]
        opened_object = Some st' \<and>
      sent st' = sent opened_object @ new \<and>
      rtp_seqs new = map (\<lambda>i. RTPSequence opened_object + of_nat i) [0..<n] \<and>
      RTPSequence st' = RTPSequence opened_object + of_nat n)"
proof -
  let ?calls = "[Call_SendRTPMIDIBlock [0x00, 0x90, 0x3C, 0x7F], Call_RunSession [],
                 Call_RunSession [],
                 Call_SendRTPMIDIBlock [0x00, 0x80, 0x3C, 0x00], Call_RunSession []]"
  have h: "ring_ok (RTPStreamQueue opened_object)"
    by (simp add: object_eval ring_ok_def MIDI_CHAR_FIFO_SIZE_def)
  have u: "ring_used (RTPStreamQueue opened_object) \<le> MAX_RTP_LOAD"
    by (simp add: object_eval ring_used_def MIDI_CHAR_FIFO_SIZE_def)
  have ev: "map_option (\<lambda>st. (rtp_seqs (sent st), RTPSequence st)) (run True ?calls opened_object)
            = Some ([0, 1], 2)"
    by (simp add: object_run_eval)
  then obtain st' where r: "run True ?calls opened_object = Some st'"
    by (cases "run True ?calls opened_object") simp_all
  from RTP_sequence_numbers [OF h, of True "[]" ?calls] h u r ev
  show ?thesis by blast
qed

lemma RunSession_keepalive_fields:
  "TimeOutRemote (RunSession_keepalive st) =
     (if 0 < TimeOutRemote st then TimeOutRemote st - 1 else TimeOutRemote st)"
  "ConnectionLost (RunSession_keepalive st) = ConnectionLost st"
  "IsInitiatorNode (RunSession_keepalive st) = IsInitiatorNode st"
  "SessionState (RunSession_keepalive st) = SessionState st"
  by (simp_all add: RunSession_keepalive_def Let_def SendFeedbackPacket_def SendSyncPacket_def
      PrepareTimerEvent_def)

text \<open>A call of \<open>RunSession\<close> on an opened session, no datagram received, the timer firing.\<close>

lemma RunSession_opened_timer:
  assumes "\<not> EndpointLocked st" "SessionState st = SESSION_OPENED" "TimerRunning st"
    "EventTime st \<le> 1" "ring_ok (RTPStreamQueue st)"
    "ring_used (RTPStreamQueue st) \<le> MAX_RTP_LOAD"
  shows "\<exists>st2. RunSession sg [] st = Some (RunSession_lost (RunSession_keepalive st2)) \<and>
           TimeOutRemote st2 = TimeOutRemote st \<and> ConnectionLost st2 = ConnectionLost st \<and>
           IsInitiatorNode st2 = IsInitiatorNode st \<and> SessionState st2 = SESSION_OPENED"
proof -
  let ?st0 = "st\<lparr>TimeCounter := TimeCounter st + 10, LocalClock := LocalClock st + 10\<rparr>"
  let ?st1 = "?st0\<lparr>EventTime := 0, TimerRunning := False\<rparr>"
  have t: "RunSession_timer ?st0 = (True, ?st1)"
    by (rule RunSession_timer_fires) (simp_all add: assms)
  have ok: "ring_ok (RTPStreamQueue ?st1)" using assms(5) by simp
  have le: "\<not> MAX_RTP_LOAD < length (ring_contents (RTPStreamQueue st))"
    using assms(6) by (simp add: length_ring_contents)
  have i: "RunSession_initiator True False False ?st1 = (False, ?st1)"
    using assms(2) by (simp add: RunSession_initiator_def)
  obtain st2 where s2: "RunSession_send ?st1 = Some st2"
    and f: "TimeOutRemote st2 = TimeOutRemote st" "ConnectionLost st2 = ConnectionLost st"
      "IsInitiatorNode st2 = IsInitiatorNode st" "SessionState st2 = SESSION_OPENED"
    using assms(2) le unfolding RunSession_send_eq [OF ok] by simp
  have "RunSession sg [] st = Some (RunSession_lost (RunSession_keepalive st2))"
    using assms(1,2) s2 by (simp add: RunSession_def t i RunSession_opened_def)
  then show ?thesis using f by blast
qed

lemmas session_eval = object_eval initiated_object_def listening_object_def handshake_def
  InitiateSession_def PrepareTimerEvent_def RunSession_def RunSession_timer_def
  RunSession_initiator_def RunSession_opened_def RunSession_send_def RunSession_lost_def
  RunSession_keepalive_def RunSession_data_def
  RunSession_CK_def ProcessControlSocket_def PrepareMessage_def GeneratePayload_def
  GeneratePayload_loop.simps SendInvitation_def SendInvitationReply_def SendSyncPacket_def
  SendFeedbackPacket_def SendBYCommand_def PartnerCloseSession_def RestartSession_def
  packet_of_def bytes_of_def OK_datagram_def CK0_datagram_def CK1_datagram_def IN_datagram_def
  SYSEX_start_datagram_def SYSEX_whole_datagram_def htonl_at_def htons_at_def Let_def
  MIDI_CHAR_FIFO_SIZE_def MAX_RTP_LOAD_def
  ProcessIncomingRTP_def payload_header_def ProcessIncomingRTP_list_def
  GenerateMIDIEvent.simps GenerateMIDIEvent_byte_def storeRTP_SYSEXData_def
  sendRTP_SYSEXBuffer_def ProcessIncomingRTP_scan.simps upt_rec

text \<open>
  A call of \<open>RunSession\<close> on an opened session, the timer firing, with any datagrams:
  \<open>rst\<close> is the endpoint when the loop on the sockets has ended, no datagram having
  refused the session.
\<close>

lemma RunSession_opened_timer_turns:
  assumes "\<not> EndpointLocked st" "SessionState st = SESSION_OPENED" "TimerRunning st"
    "EventTime st \<le> 1" "ring_ok (RTPStreamQueue st)"
    "ring_used (RTPStreamQueue st) \<le> MAX_RTP_LOAD"
    "RunSession_sockets sg turns ((False, False), (False, False))
       (st\<lparr>TimeCounter := TimeCounter st + 10, LocalClock := LocalClock st + 10,
           EventTime := 0, TimerRunning := False\<rparr>) = (((ac, False), (ad, False)), rst)"
    "SessionState rst = SESSION_OPENED"
  shows "\<exists>st2. RunSession sg turns st = Some (RunSession_lost (RunSession_keepalive st2)) \<and>
           TimeOutRemote st2 = TimeOutRemote rst \<and> ConnectionLost st2 = ConnectionLost rst \<and>
           IsInitiatorNode st2 = IsInitiatorNode rst \<and> SessionState st2 = SESSION_OPENED"
proof -
  let ?st0 = "st\<lparr>TimeCounter := TimeCounter st + 10, LocalClock := LocalClock st + 10\<rparr>"
  let ?st1 = "st\<lparr>TimeCounter := TimeCounter st + 10, LocalClock := LocalClock st + 10,
                  EventTime := 0, TimerRunning := False\<rparr>"
  have t: "RunSession_timer ?st0 = (True, ?st1)"
    using RunSession_timer_fires [of ?st0] assms(3,4) by simp
  have "no_rtp ?st1 rst"
    using no_rtp_RunSession_sockets [of ?st1 sg turns "((False, False), (False, False))"] assms(7)
    by simp
  then have q: "RTPStreamQueue rst = RTPStreamQueue st" by (simp add: no_rtp_def)
  have ok: "ring_ok (RTPStreamQueue rst)" using assms(5) q by simp
  have le: "\<not> MAX_RTP_LOAD < length (ring_contents (RTPStreamQueue rst))"
    using assms(6) q by (simp add: length_ring_contents)
  have i: "RunSession_initiator True ac ad rst = (False, rst)"
    using assms(8) by (simp add: RunSession_initiator_def)
  obtain st2 where s2: "RunSession_send rst = Some st2"
    and f: "TimeOutRemote st2 = TimeOutRemote rst" "ConnectionLost st2 = ConnectionLost rst"
      "IsInitiatorNode st2 = IsInitiatorNode rst" "SessionState st2 = SESSION_OPENED"
    using assms(8) le unfolding RunSession_send_eq [OF ok] by simp
  have "RunSession sg turns st = Some (RunSession_lost (RunSession_keepalive st2))"
    using assms(1,2,7,8) s2 by (simp add: RunSession_def t i RunSession_opened_def)
  then show ?thesis using f by blast
qed

text \<open>The datagrams of a call change \<open>TimeOutRemote\<close> to 4 or not at all.\<close>

lemma RunSession_CK_TimeOutRemote:
  "TimeOutRemote (RunSession_CK B st) = TimeOutRemote st \<or> TimeOutRemote (RunSession_CK B st) = 4"
  by (simp add: RunSession_CK_def Let_def SendSyncPacket_def)

lemma ProcessControlSocket_TimeOutRemote:
  "TimeOutRemote (snd (snd (ProcessControlSocket c fl st))) = TimeOutRemote st"
  by (simp add: ProcessControlSocket_def Let_def SendInvitationReply_def PrepareTimerEvent_def
      PartnerCloseSession_def split: option.splits)

lemma RunSession_data_TimeOutRemote:
  "TimeOutRemote (snd (RunSession_data sg p fl st)) = TimeOutRemote st \<or>
   TimeOutRemote (snd (RunSession_data sg p fl st)) = 4"
  using RunSession_CK_TimeOutRemote [of "Buffer p" st]
  by (simp add: RunSession_data_def Let_def ProcessIncomingRTP_def SendInvitationReply_def
      PrepareTimerEvent_def PartnerCloseSession_def split: prod.splits)

lemma RunSession_sockets_TimeOutRemote:
  "TimeOutRemote (snd (RunSession_sockets sg turns fl st)) = TimeOutRemote st \<or>
   TimeOutRemote (snd (RunSession_sockets sg turns fl st)) = 4"
proof (induction turns arbitrary: fl st)
  case Nil
  then show ?case by simp
next
  case (Cons turn turns)
  obtain c dt where turn: "turn = (c, dt)" by (cases turn)
  obtain flc fld where fl: "fl = (flc, fld)" by (cases fl)
  obtain rc flc' st1 where pc: "ProcessControlSocket c flc st = (rc, flc', st1)"
    by (metis surj_pair)
  obtain fld' st2 where dd: "(case dt of None \<Rightarrow> (fld, st1) | Some p \<Rightarrow> RunSession_data sg p fld st1)
                             = (fld', st2)"
    by (metis surj_pair)
  have t1: "TimeOutRemote st1 = TimeOutRemote st"
    using ProcessControlSocket_TimeOutRemote [of c flc st] pc by simp
  have t2: "TimeOutRemote st2 = TimeOutRemote st \<or> TimeOutRemote st2 = 4"
  proof (cases dt)
    case None
    then show ?thesis using dd t1 by simp
  next
    case (Some p)
    then show ?thesis using dd t1 RunSession_data_TimeOutRemote [of sg p fld st1] by auto
  qed
  have step: "RunSession_sockets sg (turn # turns) fl st =
              (if rc \<or> dt \<noteq> None then RunSession_sockets sg turns (flc', fld') st2
               else ((flc', fld'), st2))"
    using pc dd by (simp add: turn fl)
  show ?case
  proof (cases "rc \<or> dt \<noteq> None")
    case True
    from Cons.IH [of "(flc', fld')" st2] t2 True show ?thesis
      unfolding step by auto
  next
    case False
    then show ?thesis using t2 unfolding step by simp
  qed
qed

text \<open>
  Claim C6, as amended. A CK datagram from the session partner with count 1 or 2 sets
  \<open>TimeOutRemote\<close> to 4; one with count 0 leaves it as it is. The datagram with count 0
  is answered with a CK with count 1 and the one with count 1 with a CK with count 2, both
  sent to the data port of the partner with the timestamps of the datagram received; the
  one with count 2 is not answered. On an opened session with at most \<open>MAX_RTP_LOAD\<close>
  bytes in the ring, a call of \<open>RunSession\<close> in which the keep-alive timer fires has a
  result and decrements \<open>TimeOutRemote\<close> when it is above 0; when that makes it 0 the
  flag \<open>ConnectionLost\<close> is set and the session leaves the opened state, else the flag is
  unchanged and the session stays opened. This holds for a call that receives no datagram
  and for a call that receives any datagrams that leave the session opened: there the
  counter decremented is the one left by the datagrams, which is the one before the call or
  4.
\<close>

theorem TimeOutRemote_liveness:
  "(0 < RecvSize p \<and> SenderIP p = SessionPartnerIP st \<and>
    Buffer p 0 = 0xFF \<and> Buffer p 1 = 0xFF \<and> Buffer p 2 = 0x43 \<and> Buffer p 3 = 0x4B \<longrightarrow>
      (Buffer p 8 = 1 \<or> Buffer p 8 = 2 \<longrightarrow>
         TimeOutRemote (snd (RunSession_data sg p fl st)) = 4) \<and>
      (Buffer p 8 = 0 \<longrightarrow>
         TimeOutRemote (snd (RunSession_data sg p fl st)) = TimeOutRemote st \<and>
         sent (snd (RunSession_data sg p fl st)) =
           sent st @ [CK_packet (SessionPartnerIP st) (PartnerDataPort st) (SSRC st) 1
                        (htonl_at (Buffer p) 12) (htonl_at (Buffer p) 16) 0 (TimeCounter st) 0 0]) \<and>
      (Buffer p 8 = 1 \<longrightarrow>
         sent (snd (RunSession_data sg p fl st)) =
           sent st @ [CK_packet (SessionPartnerIP st) (PartnerDataPort st) (SSRC st) 2
                        (htonl_at (Buffer p) 12) (htonl_at (Buffer p) 16)
                        (htonl_at (Buffer p) 20) (htonl_at (Buffer p) 24) 0 (TimeCounter st)]) \<and>
      (Buffer p 8 = 2 \<longrightarrow> sent (snd (RunSession_data sg p fl st)) = sent st)) \<and>
   (\<not> EndpointLocked st \<and> SessionState st = SESSION_OPENED \<and> TimerRunning st \<and>
    EventTime st \<le> 1 \<and> ring_ok (RTPStreamQueue st) \<and>
    ring_used (RTPStreamQueue st) \<le> MAX_RTP_LOAD \<and> 0 < TimeOutRemote st \<longrightarrow>
      (\<exists>st'. RunSession sg [] st = Some st' \<and>
         (1 < TimeOutRemote st \<longrightarrow>
            TimeOutRemote st' = TimeOutRemote st - 1 \<and> ConnectionLost st' = ConnectionLost st \<and>
            SessionState st' = SESSION_OPENED) \<and>
         (TimeOutRemote st = 1 \<longrightarrow>
            ConnectionLost st' \<and>
            SessionState st' = (if IsInitiatorNode st then SESSION_INVITE_CONTROL
                                else SESSION_WAIT_INVITE_CTRL)))) \<and>
   (\<not> EndpointLocked st \<and> SessionState st = SESSION_OPENED \<and> TimerRunning st \<and>
    EventTime st \<le> 1 \<and> ring_ok (RTPStreamQueue st) \<and>
    ring_used (RTPStreamQueue st) \<le> MAX_RTP_LOAD \<and>
    RunSession_sockets sg turns ((False, False), (False, False))
      (st\<lparr>TimeCounter := TimeCounter st + 10, LocalClock := LocalClock st + 10,
          EventTime := 0, TimerRunning := False\<rparr>) = (((ac, False), (ad, False)), rst) \<and>
    SessionState rst = SESSION_OPENED \<and> 0 < TimeOutRemote rst \<longrightarrow>
      (TimeOutRemote rst = TimeOutRemote st \<or> TimeOutRemote rst = 4) \<and>
      (\<exists>st'. RunSession sg turns st = Some st' \<and>
         (1 < TimeOutRemote rst \<longrightarrow>
            TimeOutRemote st' = TimeOutRemote rst - 1 \<and> ConnectionLost st' = ConnectionLost rst \<and>
            SessionState st' = SESSION_OPENED) \<and>
         (TimeOutRemote rst = 1 \<longrightarrow>
            ConnectionLost st' \<and>
            SessionState st' = (if IsInitiatorNode rst then SESSION_INVITE_CONTROL
                                else SESSION_WAIT_INVITE_CTRL))))"
proof -
  have keep: "\<exists>st'. r = Some st' \<and>
         (1 < TimeOutRemote s \<longrightarrow>
            TimeOutRemote st' = TimeOutRemote s - 1 \<and> ConnectionLost st' = ConnectionLost s \<and>
            SessionState st' = SESSION_OPENED) \<and>
         (TimeOutRemote s = 1 \<longrightarrow>
            ConnectionLost st' \<and>
            SessionState st' = (if IsInitiatorNode s then SESSION_INVITE_CONTROL
                                else SESSION_WAIT_INVITE_CTRL))"
    if r: "r = Some (RunSession_lost (RunSession_keepalive st2))"
      and f: "TimeOutRemote st2 = TimeOutRemote s" "ConnectionLost st2 = ConnectionLost s"
        "IsInitiatorNode st2 = IsInitiatorNode s" "SessionState st2 = SESSION_OPENED"
      and pos: "0 < TimeOutRemote s"
    for r s st2
  proof -
    let ?k = "RunSession_keepalive st2"
    have k: "TimeOutRemote ?k = TimeOutRemote s - 1" "ConnectionLost ?k = ConnectionLost s"
      "IsInitiatorNode ?k = IsInitiatorNode s" "SessionState ?k = SESSION_OPENED"
      using pos f by (simp_all add: RunSession_keepalive_fields)
    have many: "TimeOutRemote (RunSession_lost ?k) = TimeOutRemote s - 1 \<and>
                ConnectionLost (RunSession_lost ?k) = ConnectionLost s \<and>
                SessionState (RunSession_lost ?k) = SESSION_OPENED"
      if "1 < TimeOutRemote s"
      using that k by (simp add: RunSession_lost_def)
    have last: "ConnectionLost (RunSession_lost ?k) \<and>
                SessionState (RunSession_lost ?k) =
                  (if IsInitiatorNode s then SESSION_INVITE_CONTROL else SESSION_WAIT_INVITE_CTRL)"
      if "TimeOutRemote s = 1"
      using that k by (simp add: RunSession_lost_def Let_def RestartSession_def PrepareTimerEvent_def)
    show ?thesis using r many last by blast
  qed
  have ck: "(Buffer p 8 = 1 \<or> Buffer p 8 = 2 \<longrightarrow>
         TimeOutRemote (snd (RunSession_data sg p fl st)) = 4) \<and>
      (Buffer p 8 = 0 \<longrightarrow>
         TimeOutRemote (snd (RunSession_data sg p fl st)) = TimeOutRemote st \<and>
         sent (snd (RunSession_data sg p fl st)) =
           sent st @ [CK_packet (SessionPartnerIP st) (PartnerDataPort st) (SSRC st) 1
                        (htonl_at (Buffer p) 12) (htonl_at (Buffer p) 16) 0 (TimeCounter st) 0 0]) \<and>
      (Buffer p 8 = 1 \<longrightarrow>
         sent (snd (RunSession_data sg p fl st)) =
           sent st @ [CK_packet (SessionPartnerIP st) (PartnerDataPort st) (SSRC st) 2
                        (htonl_at (Buffer p) 12) (htonl_at (Buffer p) 16)
                        (htonl_at (Buffer p) 20) (htonl_at (Buffer p) 24) 0 (TimeCounter st)]) \<and>
      (Buffer p 8 = 2 \<longrightarrow> sent (snd (RunSession_data sg p fl st)) = sent st)"
    if a: "0 < RecvSize p \<and> SenderIP p = SessionPartnerIP st \<and>
      Buffer p 0 = 0xFF \<and> Buffer p 1 = 0xFF \<and> Buffer p 2 = 0x43 \<and> Buffer p 3 = 0x4B"
  proof -
    from a have d: "snd (RunSession_data sg p fl st) = RunSession_CK (Buffer p) st"
      by (simp add: RunSession_data_def Let_def)
    show ?thesis
      unfolding d by (auto simp add: RunSession_CK_def Let_def SendSyncPacket_def)
  qed
  have idle: "\<exists>st'. RunSession sg [] st = Some st' \<and>
         (1 < TimeOutRemote st \<longrightarrow>
            TimeOutRemote st' = TimeOutRemote st - 1 \<and> ConnectionLost st' = ConnectionLost st \<and>
            SessionState st' = SESSION_OPENED) \<and>
         (TimeOutRemote st = 1 \<longrightarrow>
            ConnectionLost st' \<and>
            SessionState st' = (if IsInitiatorNode st then SESSION_INVITE_CONTROL
                                else SESSION_WAIT_INVITE_CTRL))"
    if b: "\<not> EndpointLocked st \<and> SessionState st = SESSION_OPENED \<and> TimerRunning st \<and>
      EventTime st \<le> 1 \<and> ring_ok (RTPStreamQueue st) \<and>
      ring_used (RTPStreamQueue st) \<le> MAX_RTP_LOAD \<and> 0 < TimeOutRemote st"
  proof -
    from b obtain st2 where r: "RunSession sg [] st = Some (RunSession_lost (RunSession_keepalive st2))"
      and f: "TimeOutRemote st2 = TimeOutRemote st" "ConnectionLost st2 = ConnectionLost st"
        "IsInitiatorNode st2 = IsInitiatorNode st" "SessionState st2 = SESSION_OPENED"
      using RunSession_opened_timer [of st sg] by blast
    from b have "0 < TimeOutRemote st" by simp
    with r f show ?thesis by (rule keep)
  qed
  have busy: "(TimeOutRemote rst = TimeOutRemote st \<or> TimeOutRemote rst = 4) \<and>
      (\<exists>st'. RunSession sg turns st = Some st' \<and>
         (1 < TimeOutRemote rst \<longrightarrow>
            TimeOutRemote st' = TimeOutRemote rst - 1 \<and> ConnectionLost st' = ConnectionLost rst \<and>
            SessionState st' = SESSION_OPENED) \<and>
         (TimeOutRemote rst = 1 \<longrightarrow>
            ConnectionLost st' \<and>
            SessionState st' = (if IsInitiatorNode rst then SESSION_INVITE_CONTROL
                                else SESSION_WAIT_INVITE_CTRL)))"
    if c: "\<not> EndpointLocked st \<and> SessionState st = SESSION_OPENED \<and> TimerRunning st \<and>
      EventTime st \<le> 1 \<and> ring_ok (RTPStreamQueue st) \<and>
      ring_used (RTPStreamQueue st) \<le> MAX_RTP_LOAD \<and>
      RunSession_sockets sg turns ((False, False), (False, False))
        (st\<lparr>TimeCounter := TimeCounter st + 10, LocalClock := LocalClock st + 10,
            EventTime := 0, TimerRunning := False\<rparr>) = (((ac, False), (ad, False)), rst) \<and>
      SessionState rst = SESSION_OPENED \<and> 0 < TimeOutRemote rst"
  proof -
    let ?st1 = "st\<lparr>TimeCounter := TimeCounter st + 10, LocalClock := LocalClock st + 10,
                    EventTime := 0, TimerRunning := False\<rparr>"
    have "TimeOutRemote rst = TimeOutRemote ?st1 \<or> TimeOutRemote rst = 4"
      using RunSession_sockets_TimeOutRemote [of sg turns "((False, False), (False, False))" ?st1] c
      by simp
    then have v: "TimeOutRemote rst = TimeOutRemote st \<or> TimeOutRemote rst = 4" by simp
    from c obtain st2 where r: "RunSession sg turns st = Some (RunSession_lost (RunSession_keepalive st2))"
      and f: "TimeOutRemote st2 = TimeOutRemote rst" "ConnectionLost st2 = ConnectionLost rst"
        "IsInitiatorNode st2 = IsInitiatorNode rst" "SessionState st2 = SESSION_OPENED"
      using RunSession_opened_timer_turns [of st sg turns ac ad rst] by blast
    from c have "0 < TimeOutRemote rst" by simp
    with r f have "\<exists>st'. RunSession sg turns st = Some st' \<and>
         (1 < TimeOutRemote rst \<longrightarrow>
            TimeOutRemote st' = TimeOutRemote rst - 1 \<and> ConnectionLost st' = ConnectionLost rst \<and>
            SessionState st' = SESSION_OPENED) \<and>
         (TimeOutRemote rst = 1 \<longrightarrow>
            ConnectionLost st' \<and>
            SessionState st' = (if IsInitiatorNode rst then SESSION_INVITE_CONTROL
                                else SESSION_WAIT_INVITE_CTRL))"
      by (rule keep)
    with v show ?thesis by blast
  qed
  from ck idle busy show ?thesis by blast
qed

text \<open>
  \<open>TimeOutRemote_liveness\<close> on an opened session whose \<open>TimeOutRemote\<close> is 1 and whose
  timer fires: at a CK datagram with count 1, at one with count 0, at a call that receives
  no datagram, which loses the connection, and at a call that receives the CK datagram
  with count 1, which leaves \<open>TimeOutRemote\<close> at 3.
\<close>

theorem TimeOutRemote_liveness_witness:
  "(0 < RecvSize (packet_of 0xC0A800FD 5005 CK1_datagram) \<and>
    SenderIP (packet_of 0xC0A800FD 5005 CK1_datagram) = SessionPartnerIP (opened_object\<lparr>TimeOutRemote := 1, TimerRunning := True, EventTime := 1\<rparr>) \<and>
    Buffer (packet_of 0xC0A800FD 5005 CK1_datagram) 8 = 1 \<and>
    TimeOutRemote (snd (RunSession_data True (packet_of 0xC0A800FD 5005 CK1_datagram) (False, False)
                          (opened_object\<lparr>TimeOutRemote := 1, TimerRunning := True, EventTime := 1\<rparr>))) = 4) \<and>
   (Buffer (packet_of 0xC0A800FD 5005 CK0_datagram) 8 = 0 \<and>
    TimeOutRemote (snd (RunSession_data True (packet_of 0xC0A800FD 5005 CK0_datagram) (False, False)
                          (opened_object\<lparr>TimeOutRemote := 1, TimerRunning := True, EventTime := 1\<rparr>))) = 1 \<and>
    sent (snd (RunSession_data True (packet_of 0xC0A800FD 5005 CK0_datagram) (False, False)
                 (opened_object\<lparr>TimeOutRemote := 1, TimerRunning := True, EventTime := 1\<rparr>))) =
      [CK_packet 0xC0A800FD 5005 0 1 0 7 0 0 0 0]) \<and>
   (\<not> EndpointLocked (opened_object\<lparr>TimeOutRemote := 1, TimerRunning := True, EventTime := 1\<rparr>) \<and>
    ring_ok (RTPStreamQueue (opened_object\<lparr>TimeOutRemote := 1, TimerRunning := True, EventTime := 1\<rparr>)) \<and>
    ring_used (RTPStreamQueue (opened_object\<lparr>TimeOutRemote := 1, TimerRunning := True, EventTime := 1\<rparr>)) \<le> MAX_RTP_LOAD \<and>
    (\<exists>st'. RunSession True [] (opened_object\<lparr>TimeOutRemote := 1, TimerRunning := True, EventTime := 1\<rparr>) = Some st' \<and>
            ConnectionLost st')) \<and>
   (\<exists>st'. RunSession True [(None, Some (packet_of 0xC0A800FD 5005 CK1_datagram))]
            (opened_object\<lparr>TimeOutRemote := 1, TimerRunning := True, EventTime := 1\<rparr>) = Some st' \<and>
          TimeOutRemote st' = 3 \<and> \<not> ConnectionLost st' \<and> SessionState st' = SESSION_OPENED)"
proof -
  let ?st = "opened_object\<lparr>TimeOutRemote := 1, TimerRunning := True, EventTime := 1\<rparr>"
  let ?p = "packet_of 0xC0A800FD 5005 CK1_datagram"
  let ?q = "packet_of 0xC0A800FD 5005 CK0_datagram"
  let ?turns = "[(None, Some ?p)]"
  let ?r = "RunSession_sockets True ?turns ((False, False), (False, False))
              (?st\<lparr>TimeCounter := TimeCounter ?st + 10, LocalClock := LocalClock ?st + 10,
                   EventTime := 0, TimerRunning := False\<rparr>)"
  have a: "0 < RecvSize ?p" "SenderIP ?p = SessionPartnerIP ?st" "Buffer ?p 0 = 0xFF"
    "Buffer ?p 1 = 0xFF" "Buffer ?p 2 = 0x43" "Buffer ?p 3 = 0x4B" "Buffer ?p 8 = 1"
    by (simp_all add: packet_of_def CK1_datagram_def bytes_of_def object_eval)
  have a0: "0 < RecvSize ?q" "SenderIP ?q = SessionPartnerIP ?st" "Buffer ?q 0 = 0xFF"
    "Buffer ?q 1 = 0xFF" "Buffer ?q 2 = 0x43" "Buffer ?q 3 = 0x4B" "Buffer ?q 8 = 0"
    by (simp_all add: packet_of_def CK0_datagram_def bytes_of_def object_eval)
  have v0: "SessionPartnerIP ?st = 0xC0A800FD" "PartnerDataPort ?st = 5005" "SSRC ?st = 0"
    "htonl_at (Buffer ?q) 12 = 0" "htonl_at (Buffer ?q) 16 = 7" "TimeCounter ?st = 0"
    "sent ?st = []" "TimeOutRemote ?st = 1"
    by (simp_all add: packet_of_def CK0_datagram_def bytes_of_def object_eval htonl_at_def)
  have b: "\<not> EndpointLocked ?st" "SessionState ?st = SESSION_OPENED" "TimerRunning ?st"
    "EventTime ?st \<le> 1" "ring_ok (RTPStreamQueue ?st)"
    "ring_used (RTPStreamQueue ?st) \<le> MAX_RTP_LOAD" "0 < TimeOutRemote ?st"
    "TimeOutRemote ?st = 1"
    by (simp_all add: object_eval ring_ok_def ring_used_def MIDI_CHAR_FIFO_SIZE_def)
  have "fst ?r = ((False, False), (False, False))"
    by (simp add: session_eval)
  then have c: "?r = (((False, False), (False, False)), snd ?r)"
    by (metis prod.collapse)
  have d: "SessionState (snd ?r) = SESSION_OPENED" "TimeOutRemote (snd ?r) = 4"
    "\<not> ConnectionLost (snd ?r)"
    by (simp_all add: session_eval)
  note t1 = TimeOutRemote_liveness [where p = ?p and st = ?st and sg = True and fl = "(False, False)"
      and turns = "[]" and ac = False and ad = False and rst = ?st]
  note t0 = TimeOutRemote_liveness [where p = ?q and st = ?st and sg = True and fl = "(False, False)"
      and turns = ?turns and ac = False and ad = False and rst = "snd ?r"]
  from t1 a b have p1: "TimeOutRemote (snd (RunSession_data True ?p (False, False) ?st)) = 4"
    and p3: "\<exists>st'. RunSession True [] ?st = Some st' \<and> ConnectionLost st'"
    by blast+
  from t0 a0 have p2: "TimeOutRemote (snd (RunSession_data True ?q (False, False) ?st)) = TimeOutRemote ?st"
    "sent (snd (RunSession_data True ?q (False, False) ?st)) =
       sent ?st @ [CK_packet (SessionPartnerIP ?st) (PartnerDataPort ?st) (SSRC ?st) 1
                     (htonl_at (Buffer ?q) 12) (htonl_at (Buffer ?q) 16) 0 (TimeCounter ?st) 0 0]"
    by blast+
  from t0 b c d have "\<exists>st'. RunSession True ?turns ?st = Some st' \<and>
      (1 < TimeOutRemote (snd ?r) \<longrightarrow>
         TimeOutRemote st' = TimeOutRemote (snd ?r) - 1 \<and>
         ConnectionLost st' = ConnectionLost (snd ?r) \<and> SessionState st' = SESSION_OPENED)"
    by simp
  then have p4: "\<exists>st'. RunSession True ?turns ?st = Some st' \<and>
      TimeOutRemote st' = 3 \<and> \<not> ConnectionLost st' \<and> SessionState st' = SESSION_OPENED"
    using d by auto
  from p2 have p2': "TimeOutRemote (snd (RunSession_data True ?q (False, False) ?st)) = 1"
    "sent (snd (RunSession_data True ?q (False, False) ?st)) = [CK_packet 0xC0A800FD 5005 0 1 0 7 0 0 0 0]"
    unfolding v0 by simp_all
  from a a0 b p1 p2' p3 p4 show ?thesis by blast
qed

text \<open>A run of calls, one list after the other.\<close>

lemma run_append:
  "run sg (xs @ ys) st = (case run sg xs st of None \<Rightarrow> None | Some st' \<Rightarrow> run sg ys st')"
  by (induction xs arbitrary: st) (simp_all split: option.splits)

lemma word_gt_1:
  fixes e :: u32
  assumes "1 < e"
  shows "0 < e" and "e - 1 \<noteq> 0"
  using assms by (auto simp add: word_greater_zero_iff)

text \<open>
  A call of \<open>RunSession\<close> that receives no datagram, on an initiator that waits for the
  answer to its invitation on the data port: while the timer runs, only the clocks and the
  timer move.
\<close>

lemma INVITE_DATA_idle:
  assumes "\<not> EndpointLocked st" "IsInitiatorNode st" "SessionState st = SESSION_INVITE_DATA"
    "TimerRunning st" "1 < EventTime st"
  shows "RunSession sg [] st =
         Some (st\<lparr>TimeCounter := TimeCounter st + 10, LocalClock := LocalClock st + 10,
                  EventTime := EventTime st - 1\<rparr>)"
  using assms word_gt_1 [OF assms(5)]
  by (simp add: RunSession_def RunSession_timer_def RunSession_initiator_def
      RunSession_opened_def Let_def)

lemma INVITE_DATA_resend:
  assumes "\<not> EndpointLocked st" "IsInitiatorNode st" "SessionState st = SESSION_INVITE_DATA"
    "TimerRunning st" "EventTime st \<le> 1" "InviteCount st \<le> 12"
  shows "RunSession sg [] st =
         Some (st\<lparr>TimeCounter := TimeCounter st + 10, LocalClock := LocalClock st + 10,
                  sent := sent st @ [IN_packet False (RemoteIPToInvite st) (PartnerDataPort st)
                                       (InitiatorToken st) (SSRC st)],
                  EventTime := 1000, TimerRunning := True,
                  InviteCount := InviteCount st + 1\<rparr>)"
proof -
  let ?st0 = "st\<lparr>TimeCounter := TimeCounter st + 10, LocalClock := LocalClock st + 10\<rparr>"
  have t: "RunSession_timer ?st0 = (True, ?st0\<lparr>EventTime := 0, TimerRunning := False\<rparr>)"
    by (rule RunSession_timer_fires) (simp_all add: assms)
  have "\<not> 12 < InviteCount st" using assms(6) by simp
  then show ?thesis
    using assms(1,2,3)
    by (simp add: RunSession_def t RunSession_initiator_def SendInvitation_def
        PrepareTimerEvent_def Let_def)
qed

lemma INVITE_DATA_restart:
  assumes "\<not> EndpointLocked st" "IsInitiatorNode st" "SessionState st = SESSION_INVITE_DATA"
    "TimerRunning st" "EventTime st \<le> 1" "12 < InviteCount st"
  shows "RunSession sg [] st =
         Some (RestartSession (st\<lparr>TimeCounter := TimeCounter st + 10,
                                    LocalClock := LocalClock st + 10,
                                    EventTime := 0, TimerRunning := False\<rparr>))"
proof -
  let ?st0 = "st\<lparr>TimeCounter := TimeCounter st + 10, LocalClock := LocalClock st + 10\<rparr>"
  have t: "RunSession_timer ?st0 = (True, ?st0\<lparr>EventTime := 0, TimerRunning := False\<rparr>)"
    by (rule RunSession_timer_fires) (simp_all add: assms)
  show ?thesis
    using assms(1,2,3,6)
    by (simp add: RunSession_def t RunSession_initiator_def Let_def)
qed

text \<open>\<open>n\<close> such calls, while the timer has more than \<open>n\<close> ms left.\<close>

lemma INVITE_DATA_idle_calls:
  assumes "\<not> EndpointLocked st" "IsInitiatorNode st" "SessionState st = SESSION_INVITE_DATA"
    "TimerRunning st" "n < unat (EventTime st)"
  shows "run sg (replicate n (Call_RunSession [])) st =
         Some (st\<lparr>TimeCounter := TimeCounter st + 10 * of_nat n,
                  LocalClock := LocalClock st + 10 * of_nat n,
                  EventTime := EventTime st - of_nat n\<rparr>)"
  using assms
proof (induction n arbitrary: st)
  case 0
  show ?case by simp
next
  case (Suc n)
  let ?s = "st\<lparr>TimeCounter := TimeCounter st + 10, LocalClock := LocalClock st + 10,
                EventTime := EventTime st - 1\<rparr>"
  have e: "1 < EventTime st"
    using Suc.prems(5) by (simp add: word_less_nat_alt)
  then have "EventTime st \<noteq> 0" by auto
  then have u: "unat (EventTime st - 1) = unat (EventTime st) - 1"
    by (rule unat_minus_one)
  have step: "RunSession sg [] st = Some ?s"
    using Suc.prems(1-4) e by (rule INVITE_DATA_idle)
  have "run sg (replicate n (Call_RunSession [])) ?s =
        Some (?s\<lparr>TimeCounter := TimeCounter ?s + 10 * of_nat n,
                  LocalClock := LocalClock ?s + 10 * of_nat n,
                  EventTime := EventTime ?s - of_nat n\<rparr>)"
  proof (rule Suc.IH)
    show "\<not> EndpointLocked ?s" "IsInitiatorNode ?s" "SessionState ?s = SESSION_INVITE_DATA"
      "TimerRunning ?s"
      using Suc.prems(1-4) by simp_all
    show "n < unat (EventTime ?s)" using Suc.prems(5) u by simp
  qed
  then show ?case
    using step by (simp add: algebra_simps)
qed


text \<open>
  The timer fires in the call number \<open>unat (EventTime st)\<close>: with \<open>InviteCount\<close> at most 12
  the invitation is sent again.
\<close>

lemma INVITE_DATA_timeout_calls:
  assumes "\<not> EndpointLocked st" "IsInitiatorNode st" "SessionState st = SESSION_INVITE_DATA"
    "TimerRunning st" "unat (EventTime st) = Suc n" "InviteCount st \<le> 12"
  shows "run sg (replicate (Suc n) (Call_RunSession [])) st =
         Some (st\<lparr>TimeCounter := TimeCounter st + 10 * of_nat (Suc n),
                  LocalClock := LocalClock st + 10 * of_nat (Suc n),
                  sent := sent st @ [IN_packet False (RemoteIPToInvite st) (PartnerDataPort st)
                                       (InitiatorToken st) (SSRC st)],
                  EventTime := 1000, TimerRunning := True,
                  InviteCount := InviteCount st + 1\<rparr>)"
proof -
  let ?s = "st\<lparr>TimeCounter := TimeCounter st + 10 * of_nat n,
                LocalClock := LocalClock st + 10 * of_nat n,
                EventTime := EventTime st - of_nat n\<rparr>"
  have idle: "run sg (replicate n (Call_RunSession [])) st = Some ?s"
    using assms(1-4) by (rule INVITE_DATA_idle_calls) (simp add: assms(5))
  have "of_nat (unat (EventTime st)) = EventTime st" by simp
  then have "EventTime st = of_nat (Suc n)"
    unfolding assms(5) by simp
  then have one: "EventTime ?s = 1" by simp
  have fire: "RunSession sg [] ?s =
         Some (?s\<lparr>TimeCounter := TimeCounter ?s + 10, LocalClock := LocalClock ?s + 10,
                  sent := sent ?s @ [IN_packet False (RemoteIPToInvite ?s) (PartnerDataPort ?s)
                                       (InitiatorToken ?s) (SSRC ?s)],
                  EventTime := 1000, TimerRunning := True,
                  InviteCount := InviteCount ?s + 1\<rparr>)"
  proof (rule INVITE_DATA_resend)
    show "\<not> EndpointLocked ?s" "IsInitiatorNode ?s" "SessionState ?s = SESSION_INVITE_DATA"
      "TimerRunning ?s" "InviteCount ?s \<le> 12"
      using assms(1-4,6) by simp_all
    show "EventTime ?s \<le> 1" using one by simp
  qed
  have "replicate (Suc n) (Call_RunSession []) =
        replicate n (Call_RunSession []) @ [Call_RunSession []]"
    by (simp add: replicate_append_same)
  then show ?thesis
    using idle fire by (simp add: run_append algebra_simps)
qed

text \<open>
  \<open>j\<close> timeouts one after the other, 1000 calls each, as long as \<open>InviteCount\<close> stays at
  most 12 before each.
\<close>

lemma INVITE_DATA_timeouts:
  assumes "\<not> EndpointLocked st" "IsInitiatorNode st" "SessionState st = SESSION_INVITE_DATA"
    "TimerRunning st" "EventTime st = 1000" "unat (InviteCount st) + j \<le> 13"
  shows "run sg (replicate (j * 1000) (Call_RunSession [])) st =
         Some (st\<lparr>TimeCounter := TimeCounter st + 10 * of_nat (j * 1000),
                  LocalClock := LocalClock st + 10 * of_nat (j * 1000),
                  sent := sent st @ replicate j (IN_packet False (RemoteIPToInvite st)
                                                 (PartnerDataPort st) (InitiatorToken st) (SSRC st)),
                  EventTime := 1000, TimerRunning := True,
                  InviteCount := InviteCount st + of_nat j\<rparr>)"
  using assms
proof (induction j arbitrary: st)
  case 0
  then show ?case by (cases st) simp
next
  case (Suc j)
  let ?IN = "IN_packet False (RemoteIPToInvite st) (PartnerDataPort st) (InitiatorToken st) (SSRC st)"
  let ?s = "st\<lparr>TimeCounter := TimeCounter st + 10 * of_nat (Suc 999),
                LocalClock := LocalClock st + 10 * of_nat (Suc 999),
                sent := sent st @ [?IN],
                EventTime := 1000, TimerRunning := True,
                InviteCount := InviteCount st + 1\<rparr>"
  have c: "unat (InviteCount st) \<le> 12" using Suc.prems(6) by simp
  then have le: "InviteCount st \<le> 12" by (simp add: word_le_nat_alt)
  have u: "unat (InviteCount st + 1) = unat (InviteCount st) + 1"
    using c by (simp add: unat_word_ariths)
  have first: "run sg (replicate (Suc 999) (Call_RunSession [])) st = Some ?s"
    using Suc.prems(1-4) _ le by (rule INVITE_DATA_timeout_calls) (simp add: Suc.prems(5))
  have rest: "run sg (replicate (j * 1000) (Call_RunSession [])) ?s =
         Some (?s\<lparr>TimeCounter := TimeCounter ?s + 10 * of_nat (j * 1000),
                  LocalClock := LocalClock ?s + 10 * of_nat (j * 1000),
                  sent := sent ?s @ replicate j (IN_packet False (RemoteIPToInvite ?s)
                                                 (PartnerDataPort ?s) (InitiatorToken ?s) (SSRC ?s)),
                  EventTime := 1000, TimerRunning := True,
                  InviteCount := InviteCount ?s + of_nat j\<rparr>)"
  proof (rule Suc.IH)
    show "\<not> EndpointLocked ?s" "IsInitiatorNode ?s" "SessionState ?s = SESSION_INVITE_DATA"
      "TimerRunning ?s" "EventTime ?s = 1000"
      using Suc.prems(1-4) by simp_all
    show "unat (InviteCount ?s) + j \<le> 13" using Suc.prems(6) u by simp
  qed
  have "replicate (Suc j * 1000) (Call_RunSession []) =
        replicate (Suc 999) (Call_RunSession []) @ replicate (j * 1000) (Call_RunSession [])"
    by (simp add: replicate_add [symmetric])
  then show ?case
    using first rest
    by (simp add: run_append algebra_simps replicate_append_same)
qed


text \<open>
  Where the initiator stands after a number of calls: the timer having fired \<open>Suc j\<close>
  times with \<open>InviteCount\<close> at most 12, and \<open>r\<close> calls later.
\<close>

lemma INVITE_DATA_position:
  assumes "\<not> EndpointLocked st" "IsInitiatorNode st" "SessionState st = SESSION_INVITE_DATA"
    "TimerRunning st" "unat (EventTime st) = Suc k" "unat (InviteCount st) + j \<le> 12"
    "r < 1000"
  shows "run sg (replicate (Suc k + j * 1000 + r) (Call_RunSession [])) st =
         Some (st\<lparr>TimeCounter := TimeCounter st + 10 * of_nat (Suc k + j * 1000 + r),
                  LocalClock := LocalClock st + 10 * of_nat (Suc k + j * 1000 + r),
                  sent := sent st @ replicate (Suc j) (IN_packet False (RemoteIPToInvite st)
                                                       (PartnerDataPort st) (InitiatorToken st) (SSRC st)),
                  EventTime := 1000 - of_nat r, TimerRunning := True,
                  InviteCount := InviteCount st + of_nat (Suc j)\<rparr>)"
proof -
  let ?IN = "IN_packet False (RemoteIPToInvite st) (PartnerDataPort st) (InitiatorToken st) (SSRC st)"
  let ?s1 = "st\<lparr>TimeCounter := TimeCounter st + 10 * of_nat (Suc k),
                 LocalClock := LocalClock st + 10 * of_nat (Suc k),
                 sent := sent st @ [?IN],
                 EventTime := 1000, TimerRunning := True,
                 InviteCount := InviteCount st + 1\<rparr>"
  let ?s2 = "?s1\<lparr>TimeCounter := TimeCounter ?s1 + 10 * of_nat (j * 1000),
                  LocalClock := LocalClock ?s1 + 10 * of_nat (j * 1000),
                  sent := sent ?s1 @ replicate j (IN_packet False (RemoteIPToInvite ?s1)
                                                  (PartnerDataPort ?s1) (InitiatorToken ?s1) (SSRC ?s1)),
                  EventTime := 1000, TimerRunning := True,
                  InviteCount := InviteCount ?s1 + of_nat j\<rparr>"
  let ?s3 = "?s2\<lparr>TimeCounter := TimeCounter ?s2 + 10 * of_nat r,
                  LocalClock := LocalClock ?s2 + 10 * of_nat r,
                  EventTime := EventTime ?s2 - of_nat r\<rparr>"
  have c: "unat (InviteCount st) \<le> 12" using assms(6) by simp
  then have le: "InviteCount st \<le> 12" by (simp add: word_le_nat_alt)
  have u: "unat (InviteCount st + 1) = unat (InviteCount st) + 1"
    using c by (simp add: unat_word_ariths)
  have first: "run sg (replicate (Suc k) (Call_RunSession [])) st = Some ?s1"
    using assms(1-5) le by (rule INVITE_DATA_timeout_calls)
  have second: "run sg (replicate (j * 1000) (Call_RunSession [])) ?s1 = Some ?s2"
  proof (rule INVITE_DATA_timeouts)
    show "\<not> EndpointLocked ?s1" "IsInitiatorNode ?s1" "SessionState ?s1 = SESSION_INVITE_DATA"
      "TimerRunning ?s1" "EventTime ?s1 = 1000"
      using assms(1-4) by simp_all
    show "unat (InviteCount ?s1) + j \<le> 13" using assms(6) u by simp
  qed
  have third: "run sg (replicate r (Call_RunSession [])) ?s2 = Some ?s3"
  proof (rule INVITE_DATA_idle_calls)
    show "\<not> EndpointLocked ?s2" "IsInitiatorNode ?s2" "SessionState ?s2 = SESSION_INVITE_DATA"
      "TimerRunning ?s2"
      using assms(1-4) by simp_all
    show "r < unat (EventTime ?s2)" using assms(7) by simp
  qed
  have "replicate (Suc k + j * 1000 + r) (Call_RunSession []) =
        replicate (Suc k) (Call_RunSession []) @ replicate (j * 1000) (Call_RunSession []) @
        replicate r (Call_RunSession [])"
    by (simp only: replicate_add append_assoc)
  then have "run sg (replicate (Suc k + j * 1000 + r) (Call_RunSession [])) st = Some ?s3"
    using first second third by (simp only: run_append option.case)
  then show ?thesis
    by (simp add: algebra_simps replicate_append_same)
qed

text \<open>The timeout that finds \<open>InviteCount\<close> at 13, after \<open>j\<close> that sent the invitation.\<close>

lemma INVITE_DATA_restart_calls:
  assumes "\<not> EndpointLocked st" "IsInitiatorNode st" "SessionState st = SESSION_INVITE_DATA"
    "TimerRunning st" "unat (EventTime st) = Suc k" "unat (InviteCount st) + j = 13"
  shows "\<exists>st'. run sg (replicate (Suc k + j * 1000) (Call_RunSession [])) st = Some st' \<and>
           SessionState st' = SESSION_INVITE_CONTROL \<and> InviteCount st' = 0 \<and>
           sent st' = sent st @ replicate j (IN_packet False (RemoteIPToInvite st)
                                              (PartnerDataPort st) (InitiatorToken st) (SSRC st))"
proof -
  have cnt: "InviteCount st + of_nat j = 13"
  proof -
    have "of_nat (unat (InviteCount st)) = InviteCount st" by simp
    then have "InviteCount st + of_nat j = of_nat (unat (InviteCount st) + j)"
      by (simp only: of_nat_add)
    then show ?thesis unfolding assms(6) by simp
  qed
  show ?thesis
  proof (cases j)
    case 0
    let ?s = "st\<lparr>TimeCounter := TimeCounter st + 10 * of_nat k,
                  LocalClock := LocalClock st + 10 * of_nat k,
                  EventTime := EventTime st - of_nat k\<rparr>"
    have idle: "run sg (replicate k (Call_RunSession [])) st = Some ?s"
      using assms(1-4) by (rule INVITE_DATA_idle_calls) (simp add: assms(5))
    have "of_nat (unat (EventTime st)) = EventTime st" by simp
    then have "EventTime st = of_nat (Suc k)" unfolding assms(5) by simp
    then have one: "EventTime ?s = 1" by simp
    have big: "12 < InviteCount ?s" using cnt 0 by simp
    have fire: "RunSession sg [] ?s =
           Some (RestartSession (?s\<lparr>TimeCounter := TimeCounter ?s + 10,
                                       LocalClock := LocalClock ?s + 10,
                                       EventTime := 0, TimerRunning := False\<rparr>))"
    proof (rule INVITE_DATA_restart)
      show "\<not> EndpointLocked ?s" "IsInitiatorNode ?s" "SessionState ?s = SESSION_INVITE_DATA"
        "TimerRunning ?s"
        using assms(1-4) by simp_all
      show "EventTime ?s \<le> 1" using one by simp
      show "12 < InviteCount ?s" by (rule big)
    qed
    have "replicate (Suc k) (Call_RunSession []) =
          replicate k (Call_RunSession []) @ [Call_RunSession []]"
      by (simp add: replicate_append_same)
    then have "run sg (replicate (Suc k + j * 1000) (Call_RunSession [])) st =
               Some (RestartSession (?s\<lparr>TimeCounter := TimeCounter ?s + 10,
                                           LocalClock := LocalClock ?s + 10,
                                           EventTime := 0, TimerRunning := False\<rparr>))"
      using idle fire 0 by (simp add: run_append)
    then show ?thesis
      using assms(2) 0 by (simp add: RestartSession_def PrepareTimerEvent_def)
  next
    case (Suc i)
    let ?IN = "IN_packet False (RemoteIPToInvite st) (PartnerDataPort st) (InitiatorToken st) (SSRC st)"
    let ?s = "st\<lparr>TimeCounter := TimeCounter st + 10 * of_nat (Suc k + i * 1000 + 999),
                  LocalClock := LocalClock st + 10 * of_nat (Suc k + i * 1000 + 999),
                  sent := sent st @ replicate (Suc i) ?IN,
                  EventTime := 1000 - of_nat 999, TimerRunning := True,
                  InviteCount := InviteCount st + of_nat (Suc i)\<rparr>"
    have pos: "run sg (replicate (Suc k + i * 1000 + 999) (Call_RunSession [])) st = Some ?s"
      using assms(1-5) by (rule INVITE_DATA_position) (use assms(6) Suc in simp_all)
    have "InviteCount ?s = InviteCount st + of_nat j" by (simp add: Suc)
    then have thirteen: "InviteCount ?s = 13" using cnt by (rule trans)
    have "(12 :: u32) < 13" by simp
    then have big: "12 < InviteCount ?s" unfolding thirteen .
    have fire: "RunSession sg [] ?s =
           Some (RestartSession (?s\<lparr>TimeCounter := TimeCounter ?s + 10,
                                       LocalClock := LocalClock ?s + 10,
                                       EventTime := 0, TimerRunning := False\<rparr>))"
    proof (rule INVITE_DATA_restart)
      show "\<not> EndpointLocked ?s" "IsInitiatorNode ?s" "SessionState ?s = SESSION_INVITE_DATA"
        "TimerRunning ?s"
        using assms(1-4) by simp_all
      show "EventTime ?s \<le> 1" by simp
      show "12 < InviteCount ?s" by (rule big)
    qed
    have "Suc k + j * 1000 = Suc (Suc k + i * 1000 + 999)" using Suc by simp
    then have "replicate (Suc k + j * 1000) (Call_RunSession []) =
          replicate (Suc k + i * 1000 + 999) (Call_RunSession []) @ [Call_RunSession []]"
      by (simp only: replicate_Suc replicate_append_same)
    then have "run sg (replicate (Suc k + j * 1000) (Call_RunSession [])) st =
               Some (RestartSession (?s\<lparr>TimeCounter := TimeCounter ?s + 10,
                                           LocalClock := LocalClock ?s + 10,
                                           EventTime := 0, TimerRunning := False\<rparr>))"
      using pos fire by (simp only: run_append option.case run.simps host_step.simps)
    then show ?thesis
      using assms(2) Suc by (simp add: RestartSession_def PrepareTimerEvent_def)
  qed
qed

text \<open>A timer that is due fires in the next call, with 0 ms left as with 1 ms.\<close>

lemma RunSession_timer_due:
  assumes "\<not> EndpointLocked st" "TimerRunning st" "EventTime st \<le> 1"
  shows "RunSession sg turns st = RunSession sg turns (st\<lparr>EventTime := 1\<rparr>)"
proof -
  let ?st0 = "st\<lparr>TimeCounter := TimeCounter st + 10, LocalClock := LocalClock st + 10\<rparr>"
  let ?su = "st\<lparr>EventTime := 1\<rparr>"
  let ?su0 = "?su\<lparr>TimeCounter := TimeCounter ?su + 10, LocalClock := LocalClock ?su + 10\<rparr>"
  have a: "RunSession_timer ?st0 = (True, ?st0\<lparr>EventTime := 0, TimerRunning := False\<rparr>)"
    by (rule RunSession_timer_fires) (simp_all add: assms)
  have b: "RunSession_timer ?su0 = (True, ?su0\<lparr>EventTime := 0, TimerRunning := False\<rparr>)"
    by (rule RunSession_timer_fires) (simp_all add: assms)
  have eq: "?su0\<lparr>EventTime := 0, TimerRunning := False\<rparr> =
            ?st0\<lparr>EventTime := 0, TimerRunning := False\<rparr>"
    by simp
  show ?thesis
    unfolding RunSession_def Let_def a b eq
    using assms(1) by simp
qed


text \<open>
  The same for the initiator that waits for the answer to its invitation on the control
  port: a call in which the timer does not fire, one in which it fires, one that receives
  the answer OK (O 0x4F, K 0x4B) on the control port.
\<close>

lemma INVITE_CONTROL_idle:
  assumes "\<not> EndpointLocked st" "IsInitiatorNode st" "SessionState st = SESSION_INVITE_CONTROL"
    "TimerRunning st" "1 < EventTime st"
  shows "RunSession sg [] st =
         Some (st\<lparr>TimeCounter := TimeCounter st + 10, LocalClock := LocalClock st + 10,
                  EventTime := EventTime st - 1, SyncSequenceCounter := 0\<rparr>)"
  using assms word_gt_1 [OF assms(5)]
  by (simp add: RunSession_def RunSession_timer_def RunSession_initiator_def
      RunSession_opened_def Let_def)

lemma INVITE_CONTROL_invite:
  assumes "\<not> EndpointLocked st" "IsInitiatorNode st" "SessionState st = SESSION_INVITE_CONTROL"
    "TimerRunning st" "EventTime st \<le> 1"
  shows "RunSession sg [] st =
         Some (st\<lparr>TimeCounter := TimeCounter st + 10, LocalClock := LocalClock st + 10,
                  SyncSequenceCounter := 0,
                  sent := sent st @ [IN_packet True (RemoteIPToInvite st) (PartnerControlPort st)
                                       (InitiatorToken st) (SSRC st)],
                  EventTime := 1000, TimerRunning := True,
                  InviteCount := InviteCount st + 1\<rparr>)"
proof -
  let ?st0 = "st\<lparr>TimeCounter := TimeCounter st + 10, LocalClock := LocalClock st + 10\<rparr>"
  have t: "RunSession_timer ?st0 = (True, ?st0\<lparr>EventTime := 0, TimerRunning := False\<rparr>)"
    by (rule RunSession_timer_fires) (simp_all add: assms)
  show ?thesis
    using assms(1,2,3)
    by (simp add: RunSession_def t RunSession_initiator_def SendInvitation_def
        PrepareTimerEvent_def RunSession_opened_def Let_def)
qed

lemma INVITE_CONTROL_accepted:
  assumes "\<not> EndpointLocked st" "IsInitiatorNode st" "SessionState st = SESSION_INVITE_CONTROL"
    "RecvSize p \<noteq> 0" "Buffer p 0 = 0xFF" "Buffer p 1 = 0xFF" "Buffer p 2 = 0x4F"
    "Buffer p 3 = 0x4B"
  shows "RunSession sg [(Some p, None)] st =
         Some (st\<lparr>TimeCounter := TimeCounter st + 10, LocalClock := LocalClock st + 10,
                  SyncSequenceCounter := 0, SessionState := SESSION_INVITE_DATA,
                  sent := sent st @ [IN_packet False (RemoteIPToInvite st) (PartnerDataPort st)
                                       (InitiatorToken st) (SSRC st)],
                  EventTime := 100, TimerRunning := True\<rparr>)"
proof -
  let ?st0 = "st\<lparr>TimeCounter := TimeCounter st + 10, LocalClock := LocalClock st + 10\<rparr>"
  obtain ev st1 where t: "RunSession_timer ?st0 = (ev, st1)" by (metis surj_pair)
  have f: "SessionState st1 = SESSION_INVITE_CONTROL" "IsInitiatorNode st1"
    "st1\<lparr>EventTime := 100, TimerRunning := True\<rparr> = ?st0\<lparr>EventTime := 100, TimerRunning := True\<rparr>"
    using t assms(2,3) by (auto simp add: RunSession_timer_def Let_def split: if_splits)
  have pc: "ProcessControlSocket (Some p) (False, False) st1 = (True, (True, False), st1)"
    using assms(4-8) by (simp add: ProcessControlSocket_def Let_def)
  have ini: "RunSession_initiator ev True False st1 =
             (True, (SendInvitation False (st1\<lparr>SyncSequenceCounter := 0,
                                               SessionState := SESSION_INVITE_DATA\<rparr>))
                    \<lparr>EventTime := 100, TimerRunning := True\<rparr>)"
    using f(1,2) by (simp add: RunSession_initiator_def PrepareTimerEvent_def Let_def)
  have "RunSession sg [(Some p, None)] st =
        Some ((SendInvitation False (st1\<lparr>SyncSequenceCounter := 0,
                                          SessionState := SESSION_INVITE_DATA\<rparr>))
              \<lparr>EventTime := 100, TimerRunning := True\<rparr>)"
    using assms(1) f(1) by (simp add: RunSession_def t pc ini)
  also have "(SendInvitation False (st1\<lparr>SyncSequenceCounter := 0,
                                         SessionState := SESSION_INVITE_DATA\<rparr>))
              \<lparr>EventTime := 100, TimerRunning := True\<rparr> =
             (SendInvitation False ((st1\<lparr>EventTime := 100, TimerRunning := True\<rparr>)
                                     \<lparr>SyncSequenceCounter := 0,
                                       SessionState := SESSION_INVITE_DATA\<rparr>))"
    by (simp add: SendInvitation_def)
  finally show ?thesis
    unfolding f(3) by (simp add: SendInvitation_def)
qed

lemma INVITE_CONTROL_idle_calls:
  assumes "\<not> EndpointLocked st" "IsInitiatorNode st" "SessionState st = SESSION_INVITE_CONTROL"
    "TimerRunning st" "n < unat (EventTime st)" "SyncSequenceCounter st = 0"
  shows "run sg (replicate n (Call_RunSession [])) st =
         Some (st\<lparr>TimeCounter := TimeCounter st + 10 * of_nat n,
                  LocalClock := LocalClock st + 10 * of_nat n,
                  EventTime := EventTime st - of_nat n\<rparr>)"
  using assms
proof (induction n arbitrary: st)
  case 0
  show ?case by simp
next
  case (Suc n)
  let ?s = "st\<lparr>TimeCounter := TimeCounter st + 10, LocalClock := LocalClock st + 10,
                EventTime := EventTime st - 1\<rparr>"
  have e: "1 < EventTime st"
    using Suc.prems(5) by (simp add: word_less_nat_alt)
  then have "EventTime st \<noteq> 0" by auto
  then have u: "unat (EventTime st - 1) = unat (EventTime st) - 1"
    by (rule unat_minus_one)
  have "?s\<lparr>SyncSequenceCounter := 0\<rparr> = ?s"
    using Suc.prems(6) by (cases st) simp
  then have step: "RunSession sg [] st = Some ?s"
    using INVITE_CONTROL_idle [OF Suc.prems(1-4) e, of sg] by simp
  have "run sg (replicate n (Call_RunSession [])) ?s =
        Some (?s\<lparr>TimeCounter := TimeCounter ?s + 10 * of_nat n,
                  LocalClock := LocalClock ?s + 10 * of_nat n,
                  EventTime := EventTime ?s - of_nat n\<rparr>)"
  proof (rule Suc.IH)
    show "\<not> EndpointLocked ?s" "IsInitiatorNode ?s" "SessionState ?s = SESSION_INVITE_CONTROL"
      "TimerRunning ?s" "SyncSequenceCounter ?s = 0"
      using Suc.prems(1-4,6) by simp_all
    show "n < unat (EventTime ?s)" using Suc.prems(5) u by simp
  qed
  then show ?case
    using step by (simp add: algebra_simps)
qed

lemma INVITE_CONTROL_timeout_calls:
  assumes "\<not> EndpointLocked st" "IsInitiatorNode st" "SessionState st = SESSION_INVITE_CONTROL"
    "TimerRunning st" "unat (EventTime st) = Suc n" "SyncSequenceCounter st = 0"
  shows "run sg (replicate (Suc n) (Call_RunSession [])) st =
         Some (st\<lparr>TimeCounter := TimeCounter st + 10 * of_nat (Suc n),
                  LocalClock := LocalClock st + 10 * of_nat (Suc n),
                  sent := sent st @ [IN_packet True (RemoteIPToInvite st) (PartnerControlPort st)
                                       (InitiatorToken st) (SSRC st)],
                  EventTime := 1000, TimerRunning := True,
                  InviteCount := InviteCount st + 1\<rparr>)"
proof -
  let ?s = "st\<lparr>TimeCounter := TimeCounter st + 10 * of_nat n,
                LocalClock := LocalClock st + 10 * of_nat n,
                EventTime := EventTime st - of_nat n\<rparr>"
  have idle: "run sg (replicate n (Call_RunSession [])) st = Some ?s"
    using assms(1-4) _ assms(6) by (rule INVITE_CONTROL_idle_calls) (simp add: assms(5))
  have "of_nat (unat (EventTime st)) = EventTime st" by simp
  then have "EventTime st = of_nat (Suc n)"
    unfolding assms(5) by simp
  then have one: "EventTime ?s = 1" by simp
  have fire: "RunSession sg [] ?s =
         Some (?s\<lparr>TimeCounter := TimeCounter ?s + 10, LocalClock := LocalClock ?s + 10,
                  SyncSequenceCounter := 0,
                  sent := sent ?s @ [IN_packet True (RemoteIPToInvite ?s) (PartnerControlPort ?s)
                                       (InitiatorToken ?s) (SSRC ?s)],
                  EventTime := 1000, TimerRunning := True,
                  InviteCount := InviteCount ?s + 1\<rparr>)"
  proof (rule INVITE_CONTROL_invite)
    show "\<not> EndpointLocked ?s" "IsInitiatorNode ?s" "SessionState ?s = SESSION_INVITE_CONTROL"
      "TimerRunning ?s"
      using assms(1-4) by simp_all
    show "EventTime ?s \<le> 1" using one by simp
  qed
  have z: "st\<lparr>SyncSequenceCounter := 0\<rparr> = st"
    using assms(6) by (cases st) simp
  have "replicate (Suc n) (Call_RunSession []) =
        replicate n (Call_RunSession []) @ [Call_RunSession []]"
    by (simp add: replicate_append_same)
  then have "run sg (replicate (Suc n) (Call_RunSession [])) st =
         Some ((st\<lparr>SyncSequenceCounter := 0\<rparr>)
                 \<lparr>TimeCounter := TimeCounter st + 10 * of_nat (Suc n),
                  LocalClock := LocalClock st + 10 * of_nat (Suc n),
                  sent := sent st @ [IN_packet True (RemoteIPToInvite st) (PartnerControlPort st)
                                       (InitiatorToken st) (SSRC st)],
                  EventTime := 1000, TimerRunning := True,
                  InviteCount := InviteCount st + 1\<rparr>)"
    using idle fire by (simp add: run_append algebra_simps)
  then show ?thesis unfolding z .
qed


text \<open>
  From a data-port timeout with \<open>InviteCount = c \<le> 12\<close> on, with no datagram arriving: the
  session stays in \<open>SESSION_INVITE_DATA\<close> for \<open>(13 - c) * 1000\<close> more calls, one invitation
  going out every 1000 calls, and the call after restarts the invitation cycle.
\<close>

lemma INVITE_DATA_countdown:
  assumes "\<not> EndpointLocked st" and "IsInitiatorNode st"
    and h: "SessionState st = SESSION_INVITE_DATA \<and> TimerRunning st \<and> EventTime st \<le> 1"
    and le: "InviteCount st \<le> 12"
  shows "(\<forall>n < 1 + (13 - unat (InviteCount st)) * 1000.
                 map_option SessionState (run sg (replicate n (Call_RunSession [])) st) =
                   Some SESSION_INVITE_DATA \<and>
                 map_option sent (run sg (replicate n (Call_RunSession [])) st) =
                   Some (sent st @ replicate ((n + 999) div 1000)
                                     (IN_packet False (RemoteIPToInvite st) (PartnerDataPort st)
                                        (InitiatorToken st) (SSRC st)))) \<and>
              (\<exists>st'. run sg (replicate (1 + (13 - unat (InviteCount st)) * 1000)
                                (Call_RunSession [])) st = Some st' \<and>
                 SessionState st' = SESSION_INVITE_CONTROL \<and> InviteCount st' = 0 \<and>
                 sent st' = sent st @ replicate (13 - unat (InviteCount st))
                                        (IN_packet False (RemoteIPToInvite st) (PartnerDataPort st)
                                           (InitiatorToken st) (SSRC st)))"
proof -
  let ?IN = "IN_packet False (RemoteIPToInvite st) (PartnerDataPort st) (InitiatorToken st) (SSRC st)"
  let ?su = "st\<lparr>EventTime := 1\<rparr>"
  define m where "m = 13 - unat (InviteCount st)"
  have c: "unat (InviteCount st) \<le> 12" using le by (simp add: word_le_nat_alt)
  have u: "\<not> EndpointLocked ?su" "IsInitiatorNode ?su" "SessionState ?su = SESSION_INVITE_DATA"
    "TimerRunning ?su" "unat (EventTime ?su) = Suc 0"
    using assms h by simp_all
  have same: "run sg (replicate (Suc n) (Call_RunSession [])) st =
              run sg (replicate (Suc n) (Call_RunSession [])) ?su" for n
    using RunSession_timer_due [of st sg "[]"] assms(1) h by simp
  have before: "map_option SessionState (run sg (replicate n (Call_RunSession [])) st) =
                  Some SESSION_INVITE_DATA \<and>
                map_option sent (run sg (replicate n (Call_RunSession [])) st) =
                  Some (sent st @ replicate ((n + 999) div 1000) ?IN)"
    if n: "n < 1 + m * 1000" for n
  proof (cases n)
    case 0
    then show ?thesis using h by simp
  next
    case (Suc i)
    define j where "j = i div 1000"
    define r where "r = i mod 1000"
    have i: "i = j * 1000 + r" by (simp add: j_def r_def)
    have r: "r < 1000" by (simp add: r_def)
    have "i < m * 1000" using n Suc by simp
    then have "j < m" unfolding j_def by (simp add: less_mult_imp_div_less)
    then have cj: "unat (InviteCount ?su) + j \<le> 12" using c by (simp add: m_def)
    have d: "(n + 999) div 1000 = Suc j" using r by (simp add: Suc i)
    have "run sg (replicate (Suc 0 + j * 1000 + r) (Call_RunSession [])) ?su =
         Some (?su\<lparr>TimeCounter := TimeCounter ?su + 10 * of_nat (Suc 0 + j * 1000 + r),
                  LocalClock := LocalClock ?su + 10 * of_nat (Suc 0 + j * 1000 + r),
                  sent := sent ?su @ replicate (Suc j) (IN_packet False (RemoteIPToInvite ?su)
                                                       (PartnerDataPort ?su) (InitiatorToken ?su) (SSRC ?su)),
                  EventTime := 1000 - of_nat r, TimerRunning := True,
                  InviteCount := InviteCount ?su + of_nat (Suc j)\<rparr>)"
      using u cj r by (rule INVITE_DATA_position)
    moreover have "Suc 0 + j * 1000 + r = Suc i" using i by simp
    ultimately have "run sg (replicate (Suc i) (Call_RunSession [])) st =
         Some (?su\<lparr>TimeCounter := TimeCounter ?su + 10 * of_nat (Suc 0 + j * 1000 + r),
                  LocalClock := LocalClock ?su + 10 * of_nat (Suc 0 + j * 1000 + r),
                  sent := sent ?su @ replicate (Suc j) (IN_packet False (RemoteIPToInvite ?su)
                                                       (PartnerDataPort ?su) (InitiatorToken ?su) (SSRC ?su)),
                  EventTime := 1000 - of_nat r, TimerRunning := True,
                  InviteCount := InviteCount ?su + of_nat (Suc j)\<rparr>)"
      unfolding same by (simp only:)
    then show ?thesis
      unfolding Suc [symmetric] d using h by simp
  qed
  have "unat (InviteCount ?su) + m = 13" using c by (simp add: m_def)
  with u have "\<exists>st'. run sg (replicate (Suc 0 + m * 1000) (Call_RunSession [])) ?su = Some st' \<and>
           SessionState st' = SESSION_INVITE_CONTROL \<and> InviteCount st' = 0 \<and>
           sent st' = sent ?su @ replicate m (IN_packet False (RemoteIPToInvite ?su)
                                              (PartnerDataPort ?su) (InitiatorToken ?su) (SSRC ?su))"
    by (rule INVITE_DATA_restart_calls)
  then have after: "\<exists>st'. run sg (replicate (1 + m * 1000) (Call_RunSession [])) st = Some st' \<and>
           SessionState st' = SESSION_INVITE_CONTROL \<and> InviteCount st' = 0 \<and>
           sent st' = sent st @ replicate m ?IN"
    using same [of "m * 1000"] by simp
  from before after show ?thesis
    unfolding m_def by blast
qed

text \<open>
  The same timeout in a call that receives datagrams: \<open>rst\<close> is the endpoint when the loop
  on the sockets has ended, no datagram having answered the invitation on the data port.
\<close>

lemma INVITE_DATA_timeout_turns:
  assumes "\<not> EndpointLocked st" "SessionState st = SESSION_INVITE_DATA" "TimerRunning st"
    "EventTime st \<le> 1"
    "RunSession_sockets sg turns ((False, False), (False, False))
       (st\<lparr>TimeCounter := TimeCounter st + 10, LocalClock := LocalClock st + 10,
           EventTime := 0, TimerRunning := False\<rparr>) = (((ac, False), (False, False)), rst)"
    "IsInitiatorNode rst" "SessionState rst = SESSION_INVITE_DATA" "\<not> TimerRunning rst"
  shows "RunSession sg turns st =
         Some (if 12 < InviteCount rst then RestartSession rst
               else (PrepareTimerEvent 1000 (SendInvitation False rst))
                      \<lparr>InviteCount := InviteCount rst + 1\<rparr>)"
proof -
  let ?st0 = "st\<lparr>TimeCounter := TimeCounter st + 10, LocalClock := LocalClock st + 10\<rparr>"
  have t: "RunSession_timer ?st0 = (True, ?st0\<lparr>EventTime := 0, TimerRunning := False\<rparr>)"
    by (rule RunSession_timer_fires) (simp_all add: assms)
  have s: "RunSession_sockets sg turns ((False, False), (False, False))
             (?st0\<lparr>EventTime := 0, TimerRunning := False\<rparr>) = (((ac, False), (False, False)), rst)"
    using assms(5) by simp
  have i: "RunSession_initiator True b False rst =
           (True, if 12 < InviteCount rst then RestartSession rst
                  else (PrepareTimerEvent 1000 (SendInvitation False rst))
                         \<lparr>InviteCount := InviteCount rst + 1\<rparr>)" for b
    using assms(6-8) by (simp add: RunSession_initiator_def)
  show ?thesis
    using assms(1,2) by (simp add: RunSession_def t s i del: RunSession_sockets.simps)
qed

text \<open>1001 calls are one call and 1000 calls.\<close>

lemma replicate_1001: "replicate 1001 x = replicate (Suc 0) x @ replicate (Suc 999) x"
proof -
  have "(1001 :: nat) = Suc 0 + Suc 999" by simp
  then have "replicate 1001 x = replicate (Suc 0 + Suc 999) x" by (rule arg_cong)
  then show ?thesis unfolding replicate_add .
qed

text \<open>
  Claim C7, as amended. An initiator in state \<open>SESSION_INVITE_DATA\<close> whose retry timer
  fires in a call of \<open>RunSession\<close> that receives no datagram: with \<open>InviteCount\<close> above
  12 the endpoint is restarted by \<open>RestartSession\<close>, so its state is
  \<open>SESSION_INVITE_CONTROL\<close> and \<open>InviteCount\<close> is 0, and nothing is sent; with
  \<open>InviteCount\<close> at most 12 the invitation is sent again on the data port, the timer is
  armed with 1000 ms and \<open>InviteCount\<close> is incremented, the state staying
  \<open>SESSION_INVITE_DATA\<close>. So, counting the calls from that timeout with \<open>InviteCount = c\<close>
  at most 12 and no datagram arriving, the session stays in \<open>SESSION_INVITE_DATA\<close> during
  \<open>(13 - c) * 1000\<close> calls, an invitation going out at the first of every 1000, and the
  call after them, the timeout number \<open>14 - c\<close>, restarts the session. \<open>InviteCount\<close> is
  not the number of timeouts on the data port: in state \<open>SESSION_INVITE_CONTROL\<close> every
  timeout sends the invitation on the control port and increments it, and the OK on the
  control port that moves the endpoint to \<open>SESSION_INVITE_DATA\<close> leaves it as it is. The
  timeout does the same in a call that receives datagrams, when they leave the initiator
  in \<open>SESSION_INVITE_DATA\<close> with its timer stopped and none of them answers the invitation
  on the data port or refuses it: the counter tested is the one they leave.
\<close>

theorem RunSession_invite_data_timeout:
  assumes "\<not> EndpointLocked st" and "IsInitiatorNode st"
  shows "(SessionState st = SESSION_INVITE_DATA \<and> TimerRunning st \<and> EventTime st \<le> 1 \<longrightarrow>
           (\<exists>st'. RunSession sg [] st = Some st' \<and>
              (12 < InviteCount st \<longrightarrow>
                 st' = RestartSession (st\<lparr>TimeCounter := TimeCounter st + 10,
                                            LocalClock := LocalClock st + 10,
                                            EventTime := 0, TimerRunning := False\<rparr>) \<and>
                 SessionState st' = SESSION_INVITE_CONTROL \<and> InviteCount st' = 0 \<and>
                 sent st' = sent st) \<and>
              (InviteCount st \<le> 12 \<longrightarrow>
                 SessionState st' = SESSION_INVITE_DATA \<and>
                 sent st' = sent st @ [IN_packet False (RemoteIPToInvite st) (PartnerDataPort st)
                                         (InitiatorToken st) (SSRC st)] \<and>
                 TimerRunning st' \<and> EventTime st' = 1000 \<and>
                 InviteCount st' = InviteCount st + 1)) \<and>
           (InviteCount st \<le> 12 \<longrightarrow>
              (\<forall>n < 1 + (13 - unat (InviteCount st)) * 1000.
                 map_option SessionState (run sg (replicate n (Call_RunSession [])) st) =
                   Some SESSION_INVITE_DATA \<and>
                 map_option sent (run sg (replicate n (Call_RunSession [])) st) =
                   Some (sent st @ replicate ((n + 999) div 1000)
                                     (IN_packet False (RemoteIPToInvite st) (PartnerDataPort st)
                                        (InitiatorToken st) (SSRC st)))) \<and>
              (\<exists>st'. run sg (replicate (1 + (13 - unat (InviteCount st)) * 1000)
                                (Call_RunSession [])) st = Some st' \<and>
                 SessionState st' = SESSION_INVITE_CONTROL \<and> InviteCount st' = 0 \<and>
                 sent st' = sent st @ replicate (13 - unat (InviteCount st))
                                        (IN_packet False (RemoteIPToInvite st) (PartnerDataPort st)
                                           (InitiatorToken st) (SSRC st))))) \<and>
         (SessionState st = SESSION_INVITE_CONTROL \<and> TimerRunning st \<and> EventTime st \<le> 1 \<longrightarrow>
           (\<exists>st'. RunSession sg [] st = Some st' \<and>
              SessionState st' = SESSION_INVITE_CONTROL \<and>
              sent st' = sent st @ [IN_packet True (RemoteIPToInvite st) (PartnerControlPort st)
                                      (InitiatorToken st) (SSRC st)] \<and>
              TimerRunning st' \<and> EventTime st' = 1000 \<and>
              InviteCount st' = InviteCount st + 1)) \<and>
         (SessionState st = SESSION_INVITE_CONTROL \<and> RecvSize p \<noteq> 0 \<and>
          Buffer p 0 = 0xFF \<and> Buffer p 1 = 0xFF \<and> Buffer p 2 = 0x4F \<and> Buffer p 3 = 0x4B \<longrightarrow>
           (\<exists>st'. RunSession sg [(Some p, None)] st = Some st' \<and>
              SessionState st' = SESSION_INVITE_DATA \<and>
              sent st' = sent st @ [IN_packet False (RemoteIPToInvite st) (PartnerDataPort st)
                                      (InitiatorToken st) (SSRC st)] \<and>
              TimerRunning st' \<and> EventTime st' = 100 \<and>
              InviteCount st' = InviteCount st)) \<and>
         (SessionState st = SESSION_INVITE_DATA \<and> TimerRunning st \<and> EventTime st \<le> 1 \<and>
          RunSession_sockets sg turns ((False, False), (False, False))
            (st\<lparr>TimeCounter := TimeCounter st + 10, LocalClock := LocalClock st + 10,
                EventTime := 0, TimerRunning := False\<rparr>) = (((ac, False), (False, False)), rst) \<and>
          IsInitiatorNode rst \<and> SessionState rst = SESSION_INVITE_DATA \<and> \<not> TimerRunning rst \<longrightarrow>
           (\<exists>st'. RunSession sg turns st = Some st' \<and>
              (12 < InviteCount rst \<longrightarrow>
                 st' = RestartSession rst \<and>
                 SessionState st' = SESSION_INVITE_CONTROL \<and> InviteCount st' = 0 \<and>
                 sent st' = sent rst) \<and>
              (InviteCount rst \<le> 12 \<longrightarrow>
                 SessionState st' = SESSION_INVITE_DATA \<and>
                 sent st' = sent rst @ [IN_packet False (RemoteIPToInvite rst) (PartnerDataPort rst)
                                          (InitiatorToken rst) (SSRC rst)] \<and>
                 TimerRunning st' \<and> EventTime st' = 1000 \<and>
                 InviteCount st' = InviteCount rst + 1)))"
proof (intro conjI impI)
  assume h: "SessionState st = SESSION_INVITE_DATA \<and> TimerRunning st \<and> EventTime st \<le> 1"
  show "\<exists>st'. RunSession sg [] st = Some st' \<and>
              (12 < InviteCount st \<longrightarrow>
                 st' = RestartSession (st\<lparr>TimeCounter := TimeCounter st + 10,
                                            LocalClock := LocalClock st + 10,
                                            EventTime := 0, TimerRunning := False\<rparr>) \<and>
                 SessionState st' = SESSION_INVITE_CONTROL \<and> InviteCount st' = 0 \<and>
                 sent st' = sent st) \<and>
              (InviteCount st \<le> 12 \<longrightarrow>
                 SessionState st' = SESSION_INVITE_DATA \<and>
                 sent st' = sent st @ [IN_packet False (RemoteIPToInvite st) (PartnerDataPort st)
                                         (InitiatorToken st) (SSRC st)] \<and>
                 TimerRunning st' \<and> EventTime st' = 1000 \<and>
                 InviteCount st' = InviteCount st + 1)"
  proof (cases "12 < InviteCount st")
    case True
    have "RunSession sg [] st =
          Some (RestartSession (st\<lparr>TimeCounter := TimeCounter st + 10,
                                     LocalClock := LocalClock st + 10,
                                     EventTime := 0, TimerRunning := False\<rparr>))"
      using assms h True by (intro INVITE_DATA_restart) simp_all
    then show ?thesis
      using True assms(2) by (simp add: RestartSession_def PrepareTimerEvent_def)
  next
    case False
    then have le: "InviteCount st \<le> 12" by simp
    have "RunSession sg [] st =
         Some (st\<lparr>TimeCounter := TimeCounter st + 10, LocalClock := LocalClock st + 10,
                  sent := sent st @ [IN_packet False (RemoteIPToInvite st) (PartnerDataPort st)
                                       (InitiatorToken st) (SSRC st)],
                  EventTime := 1000, TimerRunning := True,
                  InviteCount := InviteCount st + 1\<rparr>)"
      using assms h le by (intro INVITE_DATA_resend) simp_all
    then show ?thesis
      using False h by simp
  qed
next
  assume h: "SessionState st = SESSION_INVITE_DATA \<and> TimerRunning st \<and> EventTime st \<le> 1"
    and le: "InviteCount st \<le> 12"
  show "\<forall>n < 1 + (13 - unat (InviteCount st)) * 1000.
                 map_option SessionState (run sg (replicate n (Call_RunSession [])) st) =
                   Some SESSION_INVITE_DATA \<and>
                 map_option sent (run sg (replicate n (Call_RunSession [])) st) =
                   Some (sent st @ replicate ((n + 999) div 1000)
                                     (IN_packet False (RemoteIPToInvite st) (PartnerDataPort st)
                                        (InitiatorToken st) (SSRC st)))"
    using INVITE_DATA_countdown [OF assms h le, of sg] by (rule conjunct1)
next
  assume h: "SessionState st = SESSION_INVITE_DATA \<and> TimerRunning st \<and> EventTime st \<le> 1"
    and le: "InviteCount st \<le> 12"
  show "\<exists>st'. run sg (replicate (1 + (13 - unat (InviteCount st)) * 1000)
                                (Call_RunSession [])) st = Some st' \<and>
                 SessionState st' = SESSION_INVITE_CONTROL \<and> InviteCount st' = 0 \<and>
                 sent st' = sent st @ replicate (13 - unat (InviteCount st))
                                        (IN_packet False (RemoteIPToInvite st) (PartnerDataPort st)
                                           (InitiatorToken st) (SSRC st))"
    using INVITE_DATA_countdown [OF assms h le, of sg] by (rule conjunct2)
next
  assume h: "SessionState st = SESSION_INVITE_CONTROL \<and> TimerRunning st \<and> EventTime st \<le> 1"
  have "RunSession sg [] st =
         Some (st\<lparr>TimeCounter := TimeCounter st + 10, LocalClock := LocalClock st + 10,
                  SyncSequenceCounter := 0,
                  sent := sent st @ [IN_packet True (RemoteIPToInvite st) (PartnerControlPort st)
                                       (InitiatorToken st) (SSRC st)],
                  EventTime := 1000, TimerRunning := True,
                  InviteCount := InviteCount st + 1\<rparr>)"
    using assms h by (intro INVITE_CONTROL_invite) simp_all
  then show "\<exists>st'. RunSession sg [] st = Some st' \<and>
              SessionState st' = SESSION_INVITE_CONTROL \<and>
              sent st' = sent st @ [IN_packet True (RemoteIPToInvite st) (PartnerControlPort st)
                                      (InitiatorToken st) (SSRC st)] \<and>
              TimerRunning st' \<and> EventTime st' = 1000 \<and>
              InviteCount st' = InviteCount st + 1"
    using h by simp
next
  assume h: "SessionState st = SESSION_INVITE_CONTROL \<and> RecvSize p \<noteq> 0 \<and>
          Buffer p 0 = 0xFF \<and> Buffer p 1 = 0xFF \<and> Buffer p 2 = 0x4F \<and> Buffer p 3 = 0x4B"
  have "RunSession sg [(Some p, None)] st =
         Some (st\<lparr>TimeCounter := TimeCounter st + 10, LocalClock := LocalClock st + 10,
                  SyncSequenceCounter := 0, SessionState := SESSION_INVITE_DATA,
                  sent := sent st @ [IN_packet False (RemoteIPToInvite st) (PartnerDataPort st)
                                       (InitiatorToken st) (SSRC st)],
                  EventTime := 100, TimerRunning := True\<rparr>)"
    using assms h by (intro INVITE_CONTROL_accepted) simp_all
  then show "\<exists>st'. RunSession sg [(Some p, None)] st = Some st' \<and>
              SessionState st' = SESSION_INVITE_DATA \<and>
              sent st' = sent st @ [IN_packet False (RemoteIPToInvite st) (PartnerDataPort st)
                                      (InitiatorToken st) (SSRC st)] \<and>
              TimerRunning st' \<and> EventTime st' = 100 \<and>
              InviteCount st' = InviteCount st"
    by simp
next
  assume h: "SessionState st = SESSION_INVITE_DATA \<and> TimerRunning st \<and> EventTime st \<le> 1 \<and>
          RunSession_sockets sg turns ((False, False), (False, False))
            (st\<lparr>TimeCounter := TimeCounter st + 10, LocalClock := LocalClock st + 10,
                EventTime := 0, TimerRunning := False\<rparr>) = (((ac, False), (False, False)), rst) \<and>
          IsInitiatorNode rst \<and> SessionState rst = SESSION_INVITE_DATA \<and> \<not> TimerRunning rst"
  have r: "RunSession sg turns st =
         Some (if 12 < InviteCount rst then RestartSession rst
               else (PrepareTimerEvent 1000 (SendInvitation False rst))
                      \<lparr>InviteCount := InviteCount rst + 1\<rparr>)"
    using assms(1) h by (intro INVITE_DATA_timeout_turns) simp_all
  have le: "InviteCount rst \<le> 12 \<longleftrightarrow> \<not> 12 < InviteCount rst" by auto
  show "\<exists>st'. RunSession sg turns st = Some st' \<and>
              (12 < InviteCount rst \<longrightarrow>
                 st' = RestartSession rst \<and>
                 SessionState st' = SESSION_INVITE_CONTROL \<and> InviteCount st' = 0 \<and>
                 sent st' = sent rst) \<and>
              (InviteCount rst \<le> 12 \<longrightarrow>
                 SessionState st' = SESSION_INVITE_DATA \<and>
                 sent st' = sent rst @ [IN_packet False (RemoteIPToInvite rst) (PartnerDataPort rst)
                                          (InitiatorToken rst) (SSRC rst)] \<and>
                 TimerRunning st' \<and> EventTime st' = 1000 \<and>
                 InviteCount st' = InviteCount rst + 1)"
    unfolding r le using h
    by (simp add: RestartSession_def PrepareTimerEvent_def SendInvitation_def)
qed

text \<open>
  \<open>RunSession_invite_data_timeout\<close> at an initiator waiting on the data port whose timer
  fires, with \<open>InviteCount\<close> 13 and with \<open>InviteCount\<close> 12, the latter also in a call that
  receives a datagram IN on the control port, and at an initiator waiting on the control
  port, whose timer fires and which receives OK.
\<close>

theorem RunSession_invite_data_timeout_witness:
  "\<not> EndpointLocked (initiated_object\<lparr>SessionState := SESSION_INVITE_DATA, InviteCount := 13\<rparr>) \<and>
   IsInitiatorNode (initiated_object\<lparr>SessionState := SESSION_INVITE_DATA, InviteCount := 13\<rparr>) \<and>
   SessionState (initiated_object\<lparr>SessionState := SESSION_INVITE_DATA, InviteCount := 13\<rparr>) = SESSION_INVITE_DATA \<and>
   TimerRunning (initiated_object\<lparr>SessionState := SESSION_INVITE_DATA, InviteCount := 13\<rparr>) \<and>
   EventTime (initiated_object\<lparr>SessionState := SESSION_INVITE_DATA, InviteCount := 13\<rparr>) \<le> 1 \<and>
   12 < InviteCount (initiated_object\<lparr>SessionState := SESSION_INVITE_DATA, InviteCount := 13\<rparr>) \<and>
   map_option SessionState (RunSession True [] (initiated_object\<lparr>SessionState := SESSION_INVITE_DATA, InviteCount := 13\<rparr>)) = Some SESSION_INVITE_CONTROL \<and>
   map_option InviteCount (RunSession True [] (initiated_object\<lparr>SessionState := SESSION_INVITE_DATA, InviteCount := 13\<rparr>)) = Some 0 \<and>
   map_option sent (RunSession True [] (initiated_object\<lparr>SessionState := SESSION_INVITE_DATA, InviteCount := 13\<rparr>)) = Some [] \<and>
   \<not> EndpointLocked (initiated_object\<lparr>SessionState := SESSION_INVITE_DATA, InviteCount := 12\<rparr>) \<and>
   IsInitiatorNode (initiated_object\<lparr>SessionState := SESSION_INVITE_DATA, InviteCount := 12\<rparr>) \<and>
   SessionState (initiated_object\<lparr>SessionState := SESSION_INVITE_DATA, InviteCount := 12\<rparr>) = SESSION_INVITE_DATA \<and>
   TimerRunning (initiated_object\<lparr>SessionState := SESSION_INVITE_DATA, InviteCount := 12\<rparr>) \<and>
   EventTime (initiated_object\<lparr>SessionState := SESSION_INVITE_DATA, InviteCount := 12\<rparr>) \<le> 1 \<and>
   InviteCount (initiated_object\<lparr>SessionState := SESSION_INVITE_DATA, InviteCount := 12\<rparr>) \<le> 12 \<and>
   (1000 :: nat) < 1 + (13 - unat (InviteCount (initiated_object\<lparr>SessionState := SESSION_INVITE_DATA, InviteCount := 12\<rparr>))) * 1000 \<and>
   map_option SessionState (RunSession True [] (initiated_object\<lparr>SessionState := SESSION_INVITE_DATA, InviteCount := 12\<rparr>)) = Some SESSION_INVITE_DATA \<and>
   map_option InviteCount (RunSession True [] (initiated_object\<lparr>SessionState := SESSION_INVITE_DATA, InviteCount := 12\<rparr>)) = Some 13 \<and>
   map_option SessionState (run True (replicate 1000 (Call_RunSession [])) (initiated_object\<lparr>SessionState := SESSION_INVITE_DATA, InviteCount := 12\<rparr>)) =
     Some SESSION_INVITE_DATA \<and>
   map_option sent (run True (replicate 1000 (Call_RunSession [])) (initiated_object\<lparr>SessionState := SESSION_INVITE_DATA, InviteCount := 12\<rparr>)) =
     Some [IN_packet False 0xC0A800FD 5005 0xAAAAAAAA 0x11111111] \<and>
   map_option SessionState (run True (replicate 1001 (Call_RunSession [])) (initiated_object\<lparr>SessionState := SESSION_INVITE_DATA, InviteCount := 12\<rparr>)) =
     Some SESSION_INVITE_CONTROL \<and>
   map_option InviteCount (run True (replicate 1001 (Call_RunSession [])) (initiated_object\<lparr>SessionState := SESSION_INVITE_DATA, InviteCount := 12\<rparr>)) = Some 0 \<and>
   map_option SessionState
     (RunSession True [(Some (packet_of 0xC0A800FD 5004 IN_datagram), None)] (initiated_object\<lparr>SessionState := SESSION_INVITE_DATA, InviteCount := 12\<rparr>)) =
     Some SESSION_INVITE_DATA \<and>
   map_option InviteCount
     (RunSession True [(Some (packet_of 0xC0A800FD 5004 IN_datagram), None)] (initiated_object\<lparr>SessionState := SESSION_INVITE_DATA, InviteCount := 12\<rparr>)) = Some 13 \<and>
   \<not> EndpointLocked initiated_object \<and> IsInitiatorNode initiated_object \<and>
   SessionState initiated_object = SESSION_INVITE_CONTROL \<and>
   TimerRunning initiated_object \<and> EventTime initiated_object \<le> 1 \<and>
   InviteCount initiated_object = 0 \<and>
   map_option SessionState (RunSession True [] initiated_object) = Some SESSION_INVITE_CONTROL \<and>
   map_option InviteCount (RunSession True [] initiated_object) = Some 1 \<and>
   RecvSize (packet_of 0xC0A800FD 5004 OK_datagram) \<noteq> 0 \<and>
   Buffer (packet_of 0xC0A800FD 5004 OK_datagram) 0 = 0xFF \<and>
   Buffer (packet_of 0xC0A800FD 5004 OK_datagram) 1 = 0xFF \<and>
   Buffer (packet_of 0xC0A800FD 5004 OK_datagram) 2 = 0x4F \<and>
   Buffer (packet_of 0xC0A800FD 5004 OK_datagram) 3 = 0x4B \<and>
   map_option SessionState
     (RunSession True [(Some (packet_of 0xC0A800FD 5004 OK_datagram), None)] initiated_object) =
     Some SESSION_INVITE_DATA \<and>
   map_option InviteCount
     (RunSession True [(Some (packet_of 0xC0A800FD 5004 OK_datagram), None)] initiated_object) =
     Some 0"
proof -
  let ?a = "initiated_object\<lparr>SessionState := SESSION_INVITE_DATA, InviteCount := 13\<rparr>"
  let ?b = "initiated_object\<lparr>SessionState := SESSION_INVITE_DATA, InviteCount := 12\<rparr>"
  let ?c = "initiated_object"
  let ?q = "packet_of 0xC0A800FD 5004 OK_datagram"
  let ?IN = "IN_packet False 0xC0A800FD 5005 0xAAAAAAAA 0x11111111"
  let ?turns = "[(Some (packet_of 0xC0A800FD 5004 IN_datagram), None)]"
  let ?r = "RunSession_sockets True ?turns ((False, False), (False, False))
              (?b\<lparr>TimeCounter := TimeCounter ?b + 10, LocalClock := LocalClock ?b + 10,
                  EventTime := 0, TimerRunning := False\<rparr>)"
  have fc: "\<not> EndpointLocked ?c" "IsInitiatorNode ?c" "SessionState ?c = SESSION_INVITE_CONTROL"
    "TimerRunning ?c" "EventTime ?c \<le> 1" "InviteCount ?c = 0" "sent ?c = []"
    "RemoteIPToInvite ?c = 0xC0A800FD" "PartnerDataPort ?c = 5005"
    "InitiatorToken ?c = 0xAAAAAAAA" "SSRC ?c = 0x11111111"
    by (simp_all add: initiated_object_def InitiateSession_def PrepareTimerEvent_def Let_def
        object_eval)
  have fa: "\<not> EndpointLocked ?a" "IsInitiatorNode ?a" "SessionState ?a = SESSION_INVITE_DATA"
    "TimerRunning ?a" "EventTime ?a \<le> 1" "12 < InviteCount ?a" "sent ?a = []"
    using fc by simp_all
  have fb: "\<not> EndpointLocked ?b" "IsInitiatorNode ?b" "SessionState ?b = SESSION_INVITE_DATA"
    "TimerRunning ?b" "EventTime ?b \<le> 1" "InviteCount ?b \<le> 12" "sent ?b = []"
    "RemoteIPToInvite ?b = 0xC0A800FD" "PartnerDataPort ?b = 5005"
    "InitiatorToken ?b = 0xAAAAAAAA" "SSRC ?b = 0x11111111"
    using fc by simp_all
  have ub: "unat (InviteCount ?b) = 12" by simp
  have pk: "RecvSize ?q \<noteq> 0" "Buffer ?q 0 = 0xFF" "Buffer ?q 1 = 0xFF" "Buffer ?q 2 = 0x4F"
    "Buffer ?q 3 = 0x4B"
    by (simp_all add: packet_of_def OK_datagram_def bytes_of_def)
  have lt: "(1000 :: nat) < 1 + (13 - unat (InviteCount ?b)) * 1000"
    unfolding ub by simp
  have eq: "1 + (13 - unat (InviteCount ?b)) * 1000 = (1001 :: nat)"
    unfolding ub by simp
  have one: "(1000 + 999) div 1000 = (1 :: nat)" by simp
  have "fst ?r = ((False, False), (False, False))"
    by (simp add: session_eval)
  then have sk: "?r = (((False, False), (False, False)), snd ?r)"
    by (metis prod.collapse)
  have fr: "IsInitiatorNode (snd ?r)" "SessionState (snd ?r) = SESSION_INVITE_DATA"
    "\<not> TimerRunning (snd ?r)" "InviteCount (snd ?r) = 12"
    by (simp_all add: session_eval)
  have ler: "InviteCount (snd ?r) \<le> 12" unfolding fr by simp
  note ta = RunSession_invite_data_timeout [where st = ?a and sg = True and p = ?q
      and turns = "[]" and ac = False and rst = ?a, OF fa(1,2)]
  note tb = RunSession_invite_data_timeout [where st = ?b and sg = True and p = ?q
      and turns = ?turns and ac = False and rst = "snd ?r", OF fb(1,2)]
  note tc = RunSession_invite_data_timeout [where st = ?c and sg = True and p = ?q
      and turns = "[]" and ac = False and rst = ?c, OF fc(1,2)]
  from ta fa(3-6) obtain ra where
    ra: "RunSession True [] ?a = Some ra" "SessionState ra = SESSION_INVITE_CONTROL"
      "InviteCount ra = 0" "sent ra = sent ?a"
    by blast
  from tb fb(3-6) obtain rb where
    rb: "RunSession True [] ?b = Some rb" "SessionState rb = SESSION_INVITE_DATA"
      "InviteCount rb = InviteCount ?b + 1"
    by blast
  from tb fb(3-6) lt have
    nb: "map_option SessionState (run True (replicate 1000 (Call_RunSession [])) ?b) =
           Some SESSION_INVITE_DATA"
      "map_option sent (run True (replicate 1000 (Call_RunSession [])) ?b) =
         Some (sent ?b @ replicate ((1000 + 999) div 1000)
                 (IN_packet False (RemoteIPToInvite ?b) (PartnerDataPort ?b)
                    (InitiatorToken ?b) (SSRC ?b)))"
    by blast+
  from tb fb(3-6) obtain sb where
    sb: "run True (replicate (1 + (13 - unat (InviteCount ?b)) * 1000) (Call_RunSession [])) ?b =
           Some sb" "SessionState sb = SESSION_INVITE_CONTROL" "InviteCount sb = 0"
    by blast
  from tb fb(3-5) sk fr(1-3) ler obtain re where
    re: "RunSession True ?turns ?b = Some re" "SessionState re = SESSION_INVITE_DATA"
      "InviteCount re = InviteCount (snd ?r) + 1"
    by blast
  from tc fc(3-5) obtain rc where
    rc: "RunSession True [] ?c = Some rc" "SessionState rc = SESSION_INVITE_CONTROL"
      "InviteCount rc = InviteCount ?c + 1"
    by blast
  from tc fc(3) pk obtain rd where
    rd: "RunSession True [(Some ?q, None)] ?c = Some rd" "SessionState rd = SESSION_INVITE_DATA"
      "InviteCount rd = InviteCount ?c"
    by blast
  have ib: "InviteCount ?b + 1 = 13" by simp
  have ir: "InviteCount (snd ?r) + 1 = 13" unfolding fr by simp
  have sn: "sent ?b @ replicate ((1000 + 999) div 1000)
                 (IN_packet False (RemoteIPToInvite ?b) (PartnerDataPort ?b)
                    (InitiatorToken ?b) (SSRC ?b)) = [?IN]"
    unfolding one fb(7-11) by simp
  have sb': "run True (replicate 1001 (Call_RunSession [])) ?b = Some sb"
    using sb(1) unfolding eq .
  show ?thesis
    unfolding ra rb nb sn sb' rc rd re ir option.map ib fc(6)
    using fa(1-6) fb(1-6) lt fc(1-7) pk sb(2,3) by simp
qed

text \<open>
  Claim C7, as stated, fails: the timeout with \<open>InviteCount\<close> above 12 is not always the
  13th on the data port. The partner answers the second invitation on the control port:
  the endpoint sends the invitation on the control port in its call 1 and in its call
  1001, and receives OK on the control port in the call 1002, which sends the invitation
  on the data port and arms the timer with 100 ms. After 11099 more calls the endpoint has
  sent 12 invitations on the data port and still waits; after 11100, at the 12th timeout
  on the data port, it is back in \<open>SESSION_INVITE_CONTROL\<close> with \<open>InviteCount\<close> 0.
\<close>

theorem INVITE_DATA_restart_at_twelfth_timeout:
  "map_option SessionState
     (run True (replicate 1001 (Call_RunSession []) @
                Call_RunSession [(Some (packet_of 0xC0A800FD 5004 OK_datagram), None)] #
                replicate 11099 (Call_RunSession []))
        initiated_object) = Some SESSION_INVITE_DATA \<and>
   map_option sent
     (run True (replicate 1001 (Call_RunSession []) @
                Call_RunSession [(Some (packet_of 0xC0A800FD 5004 OK_datagram), None)] #
                replicate 11099 (Call_RunSession []))
        initiated_object) =
     Some (replicate 2 (IN_packet True 0xC0A800FD 5004 0xAAAAAAAA 0x11111111) @
           replicate 12 (IN_packet False 0xC0A800FD 5005 0xAAAAAAAA 0x11111111)) \<and>
   map_option SessionState
     (run True (replicate 1001 (Call_RunSession []) @
                Call_RunSession [(Some (packet_of 0xC0A800FD 5004 OK_datagram), None)] #
                replicate 11100 (Call_RunSession []))
        initiated_object) = Some SESSION_INVITE_CONTROL \<and>
   map_option InviteCount
     (run True (replicate 1001 (Call_RunSession []) @
                Call_RunSession [(Some (packet_of 0xC0A800FD 5004 OK_datagram), None)] #
                replicate 11100 (Call_RunSession []))
        initiated_object) = Some 0 \<and>
   map_option sent
     (run True (replicate 1001 (Call_RunSession []) @
                Call_RunSession [(Some (packet_of 0xC0A800FD 5004 OK_datagram), None)] #
                replicate 11100 (Call_RunSession []))
        initiated_object) =
     Some (replicate 2 (IN_packet True 0xC0A800FD 5004 0xAAAAAAAA 0x11111111) @
           replicate 12 (IN_packet False 0xC0A800FD 5005 0xAAAAAAAA 0x11111111))"
proof -
  let ?idle = "Call_RunSession []"
  let ?p = "packet_of 0xC0A800FD 5004 OK_datagram"
  let ?INc = "IN_packet True 0xC0A800FD 5004 0xAAAAAAAA 0x11111111"
  let ?INd = "IN_packet False 0xC0A800FD 5005 0xAAAAAAAA 0x11111111"
  let ?s = "initiated_object"
  have f: "\<not> EndpointLocked ?s" "IsInitiatorNode ?s" "SessionState ?s = SESSION_INVITE_CONTROL"
    "TimerRunning ?s" "unat (EventTime ?s) = Suc 0" "SyncSequenceCounter ?s = 0"
    "InviteCount ?s = 0" "sent ?s = []" "RemoteIPToInvite ?s = 0xC0A800FD"
    "PartnerControlPort ?s = 5004" "PartnerDataPort ?s = 5005"
    "InitiatorToken ?s = 0xAAAAAAAA" "SSRC ?s = 0x11111111"
    by (simp_all add: initiated_object_def InitiateSession_def PrepareTimerEvent_def Let_def
        object_eval)
  define sa where "sa = ?s\<lparr>TimeCounter := TimeCounter ?s + 10 * of_nat (Suc 0),
                  LocalClock := LocalClock ?s + 10 * of_nat (Suc 0),
                  sent := sent ?s @ [IN_packet True (RemoteIPToInvite ?s) (PartnerControlPort ?s)
                                       (InitiatorToken ?s) (SSRC ?s)],
                  EventTime := 1000, TimerRunning := True,
                  InviteCount := InviteCount ?s + 1\<rparr>"
  have a: "run True (replicate (Suc 0) ?idle) ?s = Some sa"
    unfolding sa_def using f(1-6) by (rule INVITE_CONTROL_timeout_calls)
  have fa: "\<not> EndpointLocked sa" "IsInitiatorNode sa" "SessionState sa = SESSION_INVITE_CONTROL"
    "TimerRunning sa" "unat (EventTime sa) = Suc 999" "SyncSequenceCounter sa = 0"
    "InviteCount sa = 1" "sent sa = [?INc]" "RemoteIPToInvite sa = 0xC0A800FD"
    "PartnerControlPort sa = 5004" "PartnerDataPort sa = 5005"
    "InitiatorToken sa = 0xAAAAAAAA" "SSRC sa = 0x11111111"
    using f by (simp_all add: sa_def)
  define sb where "sb = sa\<lparr>TimeCounter := TimeCounter sa + 10 * of_nat (Suc 999),
                  LocalClock := LocalClock sa + 10 * of_nat (Suc 999),
                  sent := sent sa @ [IN_packet True (RemoteIPToInvite sa) (PartnerControlPort sa)
                                       (InitiatorToken sa) (SSRC sa)],
                  EventTime := 1000, TimerRunning := True,
                  InviteCount := InviteCount sa + 1\<rparr>"
  have b: "run True (replicate (Suc 999) ?idle) sa = Some sb"
    unfolding sb_def using fa(1-6) by (rule INVITE_CONTROL_timeout_calls)
  have fb: "\<not> EndpointLocked sb" "IsInitiatorNode sb" "SessionState sb = SESSION_INVITE_CONTROL"
    "InviteCount sb = 2" "sent sb = [?INc, ?INc]" "RemoteIPToInvite sb = 0xC0A800FD"
    "PartnerDataPort sb = 5005" "InitiatorToken sb = 0xAAAAAAAA" "SSRC sb = 0x11111111"
    using fa by (simp_all add: sb_def)
  have ab: "run True (replicate 1001 ?idle) ?s = Some sb"
    unfolding replicate_1001 run_append a option.case by (rule b)
  define sc where "sc = sb\<lparr>TimeCounter := TimeCounter sb + 10, LocalClock := LocalClock sb + 10,
                  SyncSequenceCounter := 0, SessionState := SESSION_INVITE_DATA,
                  sent := sent sb @ [IN_packet False (RemoteIPToInvite sb) (PartnerDataPort sb)
                                       (InitiatorToken sb) (SSRC sb)],
                  EventTime := 100, TimerRunning := True\<rparr>"
  have pk: "RecvSize ?p \<noteq> 0" "Buffer ?p 0 = 0xFF" "Buffer ?p 1 = 0xFF" "Buffer ?p 2 = 0x4F"
    "Buffer ?p 3 = 0x4B"
    by (simp_all add: packet_of_def OK_datagram_def bytes_of_def)
  have c: "RunSession True [(Some ?p, None)] sb = Some sc"
    unfolding sc_def using fb(1-3) pk by (rule INVITE_CONTROL_accepted)
  have fc: "\<not> EndpointLocked sc" "IsInitiatorNode sc" "SessionState sc = SESSION_INVITE_DATA"
    "TimerRunning sc" "unat (EventTime sc) = Suc 99"
    "InviteCount sc = 2" "sent sc = [?INc, ?INc, ?INd]" "RemoteIPToInvite sc = 0xC0A800FD"
    "PartnerDataPort sc = 5005" "InitiatorToken sc = 0xAAAAAAAA" "SSRC sc = 0x11111111"
    using fb by (simp_all add: sc_def)
  have abc: "run True (replicate 1001 ?idle @ Call_RunSession [(Some ?p, None)] # cs) ?s =
             run True cs sc" for cs
    unfolding run_append ab option.case run.simps host_step.simps c ..
  have u: "unat (InviteCount sc) + 10 \<le> 12" "unat (InviteCount sc) + 11 = 13"
    by (simp_all add: fc(6))
  have "replicate (Suc (Suc 0)) ?INc @ replicate (Suc 11) ?INd = [?INc, ?INc, ?INd] @ replicate 11 ?INd"
    by (simp only: replicate.simps append.simps)
  moreover have "Suc (Suc 0) = 2" "Suc 11 = 12" by simp_all
  ultimately have eleven: "[?INc, ?INc, ?INd] @ replicate 11 ?INd = replicate 2 ?INc @ replicate 12 ?INd"
    by (simp only:)
  have r: "(999 :: nat) < 1000" by simp
  define sd where "sd = sc\<lparr>TimeCounter := TimeCounter sc + 10 * of_nat (Suc 99 + 10 * 1000 + 999),
                  LocalClock := LocalClock sc + 10 * of_nat (Suc 99 + 10 * 1000 + 999),
                  sent := sent sc @ replicate (Suc 10) (IN_packet False (RemoteIPToInvite sc)
                                                       (PartnerDataPort sc) (InitiatorToken sc) (SSRC sc)),
                  EventTime := 1000 - of_nat 999, TimerRunning := True,
                  InviteCount := InviteCount sc + of_nat (Suc 10)\<rparr>"
  have nd: "Suc 99 + 10 * 1000 + 999 = (11099 :: nat)" by simp
  have "run True (replicate (Suc 99 + 10 * 1000 + 999) ?idle) sc = Some sd"
    unfolding sd_def using fc(1-5) u(1) r by (rule INVITE_DATA_position)
  then have d: "run True (replicate 11099 ?idle) sc = Some sd"
    by (simp only: nd)
  have fd: "SessionState sd = SESSION_INVITE_DATA"
      "sent sd = sent sc @ replicate (Suc 10) (IN_packet False (RemoteIPToInvite sc)
                                               (PartnerDataPort sc) (InitiatorToken sc) (SSRC sc))"
    using fc(3) by (simp_all add: sd_def)
  have ne: "Suc 99 + 11 * 1000 = (11100 :: nat)" by simp
  have "\<exists>st'. run True (replicate (Suc 99 + 11 * 1000) ?idle) sc = Some st' \<and>
           SessionState st' = SESSION_INVITE_CONTROL \<and> InviteCount st' = 0 \<and>
           sent st' = sent sc @ replicate 11 (IN_packet False (RemoteIPToInvite sc)
                                              (PartnerDataPort sc) (InitiatorToken sc) (SSRC sc))"
    using fc(1-5) u(2) by (rule INVITE_DATA_restart_calls)
  then have "\<exists>st'. run True (replicate 11100 ?idle) sc = Some st' \<and>
           SessionState st' = SESSION_INVITE_CONTROL \<and> InviteCount st' = 0 \<and>
           sent st' = sent sc @ replicate 11 (IN_packet False (RemoteIPToInvite sc)
                                              (PartnerDataPort sc) (InitiatorToken sc) (SSRC sc))"
    by (simp only: ne)
  then obtain se where e: "run True (replicate 11100 ?idle) sc = Some se"
    and fe: "SessionState se = SESSION_INVITE_CONTROL" "InviteCount se = 0"
      "sent se = sent sc @ replicate 11 (IN_packet False (RemoteIPToInvite sc)
                                              (PartnerDataPort sc) (InitiatorToken sc) (SSRC sc))"
    by blast
  have sd: "sent sd = replicate 2 ?INc @ replicate 12 ?INd"
    unfolding fd(2) fc(7-11) eleven [symmetric] by simp
  have se: "sent se = replicate 2 ?INc @ replicate 12 ?INd"
    unfolding fe(3) fc(7-11) eleven [symmetric] by simp
  show ?thesis
    unfolding abc d e option.map fd(1) fe(1,2) sd se by (intro conjI refl)
qed

text \<open>
  The decoder keeps the fill index at 0 while no SYSEX is in progress: every path that
  clears \<open>SYSEX_RTPActif\<close> goes through \<open>initRTP_SYSEXBuffer\<close>.
\<close>

lemma GenerateMIDIEvent_status_SYSEX_index:
  "SYSEX_RTPActif (snd (GenerateMIDIEvent_status x t d)) = SYSEX_RTPActif d \<and>
   InSYSEXBufferPtr (snd (GenerateMIDIEvent_status x t d)) = InSYSEXBufferPtr d"
  by (simp add: GenerateMIDIEvent_status_def sendMIDIToClient_def Let_def)

lemma storeRTP_SYSEXData_active:
  "SYSEX_RTPActif d \<Longrightarrow> SYSEX_RTPActif (storeRTP_SYSEXData x d)"
  by simp

lemma GenerateMIDIEvent_byte_SYSEX_index:
  assumes "SYSEX_RTPActif d \<or> InSYSEXBufferPtr d = 0"
  shows "SYSEX_RTPActif (snd (GenerateMIDIEvent_byte x t d)) \<or>
         InSYSEXBufferPtr (snd (GenerateMIDIEvent_byte x t d)) = 0"
  using assms GenerateMIDIEvent_status_SYSEX_index [of x t d]
    GenerateMIDIEvent_status_SYSEX_index [of x t "initRTP_SYSEXBuffer d"]
  by (auto simp add: GenerateMIDIEvent_byte_def initRTP_SYSEXBuffer_def sendRTP_SYSEXBuffer_def
      sendMIDIToClient_def)

lemma GenerateMIDIEvent_SYSEX_index:
  "SYSEX_RTPActif d \<or> InSYSEXBufferPtr d = 0 \<Longrightarrow>
   SYSEX_RTPActif (snd (GenerateMIDIEvent B c T t d)) \<or>
   InSYSEXBufferPtr (snd (GenerateMIDIEvent B c T t d)) = 0"
proof (induction B c T t d rule: GenerateMIDIEvent.induct)
  case (1 B c T t d)
  show ?case
  proof (cases "c < T")
    case True
    obtain f d' where fd: "GenerateMIDIEvent_byte (B c) t d = (f, d')"
      by (cases "GenerateMIDIEvent_byte (B c) t d")
    have inv: "SYSEX_RTPActif d' \<or> InSYSEXBufferPtr d' = 0"
      using GenerateMIDIEvent_byte_SYSEX_index [OF 1(2), of "B c" t] fd by simp
    show ?thesis
    proof (cases f)
      case Return
      then have "GenerateMIDIEvent B c T t d = (c + 1, d')"
        using True fd by (subst GenerateMIDIEvent.simps) simp
      with inv show ?thesis by simp
    next
      case NextByte
      then have eq: "GenerateMIDIEvent B c T t d = GenerateMIDIEvent B (c + 1) T t d'"
        using True fd by (subst GenerateMIDIEvent.simps) simp
      from 1(1) True fd NextByte inv
      have "SYSEX_RTPActif (snd (GenerateMIDIEvent B (c + 1) T t d')) \<or>
            InSYSEXBufferPtr (snd (GenerateMIDIEvent B (c + 1) T t d')) = 0"
        by simp
      then show ?thesis unfolding eq .
    qed
  next
    case False
    then have "GenerateMIDIEvent B c T t d = (c, d)"
      by (subst GenerateMIDIEvent.simps) simp
    with 1(2) show ?thesis by simp
  qed
qed

lemma ProcessIncomingRTP_scan_SYSEX_index:
  "SYSEX_RTPActif d \<or> InSYSEXBufferPtr d = 0 \<Longrightarrow>
   SYSEX_RTPActif (snd (ProcessIncomingRTP_scan sg B c T clk d)) \<or>
   InSYSEXBufferPtr (snd (ProcessIncomingRTP_scan sg B c T clk d)) = 0"
proof (induction sg B c T clk d rule: ProcessIncomingRTP_scan.induct)
  case (1 sg B c T clk d)
  obtain dt c1 where g: "GetDeltaTime sg B c = (dt, c1)"
    by (cases "GetDeltaTime sg B c")
  obtain c2 d' where e: "GenerateMIDIEvent B c1 T (dt + clk) d = (c2, d')"
    by (cases "GenerateMIDIEvent B c1 T (dt + clk) d")
  have inv: "SYSEX_RTPActif d' \<or> InSYSEXBufferPtr d' = 0"
    using GenerateMIDIEvent_SYSEX_index [OF 1(2), of B c1 T "dt + clk"] e by simp
  show ?case
  proof (cases "c < T \<and> c1 < T")
    case True
    then have eq: "ProcessIncomingRTP_scan sg B c T clk d = ProcessIncomingRTP_scan sg B c2 T clk d'"
      using g e by (subst ProcessIncomingRTP_scan.simps) simp
    from 1(1) True g e inv
    have "SYSEX_RTPActif (snd (ProcessIncomingRTP_scan sg B c2 T clk d')) \<or>
          InSYSEXBufferPtr (snd (ProcessIncomingRTP_scan sg B c2 T clk d')) = 0"
      by simp
    then show ?thesis unfolding eq .
  next
    case False
    then have "snd (ProcessIncomingRTP_scan sg B c T clk d) = d"
      using g by (subst ProcessIncomingRTP_scan.simps) auto
    with 1(2) show ?thesis by simp
  qed
qed

lemma ProcessIncomingRTP_SYSEX_index:
  assumes "SYSEX_RTPActif (decoder st) \<or> InSYSEXBufferPtr (decoder st) = 0"
  shows "SYSEX_RTPActif (decoder (ProcessIncomingRTP sg Buf st)) \<or>
         InSYSEXBufferPtr (decoder (ProcessIncomingRTP sg Buf st)) = 0"
proof -
  obtain T z off where h: "payload_header Buf = (T, z, off)"
    by (cases "payload_header Buf")
  let ?B = "\<lambda>i. Buf (off + i)"
  obtain dt c0 where g: "(if z then GetDeltaTime sg ?B 0 else (0, 0)) = (dt, c0)"
    by (cases "if z then GetDeltaTime sg ?B 0 else (0, 0)")
  obtain c1 d1 where e: "(if c0 < T then GenerateMIDIEvent ?B c0 T (dt + LocalClock st) (decoder st)
                          else (c0, decoder st)) = (c1, d1)"
    by (cases "if c0 < T then GenerateMIDIEvent ?B c0 T (dt + LocalClock st) (decoder st)
               else (c0, decoder st)")
  have inv: "SYSEX_RTPActif d1 \<or> InSYSEXBufferPtr d1 = 0"
    using GenerateMIDIEvent_SYSEX_index [OF assms, of ?B c0 T "dt + LocalClock st"] e assms
    by (auto split: if_splits)
  have "ProcessIncomingRTP_list sg ?B T z (LocalClock st) (decoder st) =
        (if T > 0 then ProcessIncomingRTP_scan sg ?B c1 T (LocalClock st) d1 else (0, decoder st))"
    using g e by (simp add: ProcessIncomingRTP_list_def)
  then show ?thesis
    using h assms ProcessIncomingRTP_scan_SYSEX_index [OF inv, of sg ?B c1 T "LocalClock st"]
    by (simp add: ProcessIncomingRTP_def)
qed

text \<open>The constructor leaves the fill index at 0.\<close>

lemma CRTP_MIDI_new_SYSEX_index:
  "\<not> SYSEX_RTPActif (decoder (CRTP_MIDI_new n f buf raw)) \<and>
   InSYSEXBufferPtr (decoder (CRTP_MIDI_new n f buf raw)) = 0"
  by (simp add: CRTP_MIDI_new_def initRTP_SYSEXBuffer_def)

text \<open>
  Claim C9. Whenever \<open>SYSEX_RTPActif\<close> is false \<open>InSYSEXBufferPtr\<close> should be 0, in
  every reachable state. An initiator opens its session and receives an RTP datagram whose
  MIDI list F0 01 starts a SYSEX message. After \<open>RestartSession\<close>, \<open>SYSEX_RTPActif\<close>
  is false and \<open>InSYSEXBufferPtr\<close> is 2. The same happens with \<open>InitiateSession\<close>:
  when the host calls it again in that state and the new session receives the whole SYSEX
  message F0 05 F7, the callback is given five bytes, F0 01 F0 05 F7, the first two left
  from the message that was interrupted. (The constructor and the decoder keep the index
  at 0 while no SYSEX is in progress: \<open>CRTP_MIDI_new_SYSEX_index\<close>,
  \<open>ProcessIncomingRTP_SYSEX_index\<close>.)
\<close>

theorem RestartSession_keeps_SYSEX_index:
  "map_option (\<lambda>st. (SYSEX_RTPActif (decoder st), InSYSEXBufferPtr (decoder st)))
     (run True (handshake @
                [Call_RunSession [(None, Some (packet_of 0xC0A800FD 5005 SYSEX_start_datagram))],
                 Call_RestartSession])
        initiated_object) = Some (False, 2) \<and>
   map_option (\<lambda>st. delivered (decoder st))
     (case run True (handshake @
                [Call_RunSession [(None, Some (packet_of 0xC0A800FD 5005 SYSEX_start_datagram))]])
             initiated_object of
        None \<Rightarrow> None
      | Some st \<Rightarrow>
          run True (handshake @
                [Call_RunSession [(None, Some (packet_of 0xC0A800FD 5005 SYSEX_whole_datagram))]])
            (snd (InitiateSession 0xC0A800FD 5004 5005 True 0xAAAAAAAA 0x11111111 True True st)))
     = Some [(5, [0xF0, 0x01, 0xF0, 0x05, 0xF7], 120)]"
  by (simp add: session_eval)

text \<open>
  Claim C6, as stated, fails for a CK datagram with count 0: a listener that has accepted
  an invitation of its partner on the control port and then receives the partner's CK
  with count 0 keeps \<open>TimeOutRemote\<close> at 16.
\<close>

theorem CK0_keeps_TimeOutRemote:
  "map_option TimeOutRemote
     (run True [Call_RunSession [(Some (packet_of 0xC0A800FD 5004 IN_datagram), None)],
                Call_RunSession [(None, Some (packet_of 0xC0A800FD 5005 CK0_datagram))]]
        listening_object) = Some 16"
  by (simp add: session_eval)

end
